theory Spec2Isabelle
  imports Complex_Main "HOL-Library.Word"
begin

section \<open>JavaScript values\<close>

subsection \<open>Rounding to a double\<close>

text \<open>
  The program is TypeScript running on JavaScript numbers, which are the double-precision
  values of IEEE 754. A finite number is modelled as the real number that it denotes. An
  arithmetic operation, a square root, a power or a decimal literal gives the double nearest
  to the exact result, a tie going to the even significand.

  \<open>rne\<close> rounds a real to the nearest integer, a tie to the even one. \<open>quantum x\<close> is the
  distance between neighbouring doubles at the magnitude of \<open>x\<close>: a double has 53 significant
  bits, and below 2 to the power -1022 the distance stays 2 to the power -1074 (the
  subnormal range). \<open>rd x\<close> is the multiple of the quantum nearest to \<open>x\<close>.
\<close>

definition rne :: "real \<Rightarrow> int" where
  "rne y = (let f = \<lfloor>y\<rfloor>
            in if y - of_int f < 1 / 2 then f
               else if 1 / 2 < y - of_int f then f + 1
               else if even f then f else f + 1)"

definition quantum :: "real \<Rightarrow> real" where
  "quantum x = 2 powr (of_int (max \<lfloor>log 2 \<bar>x\<bar>\<rfloor> (- 1022)) - 52)"

definition rd :: "real \<Rightarrow> real" where
  "rd x = (if x = 0 then 0 else of_int (rne (x / quantum x)) * quantum x)"

text \<open>
  A number is finite, and then a real, or one of the three values that are not finite. The
  numbers of the program are doubles; the functions below are defined on every real and
  give doubles. The sign of zero is not modelled: no divisor of the program can be a
  negative zero.
\<close>

datatype jsnum = Num real | PosInf | NegInf | NaN

text \<open>
  The result of an operation whose exact value is \<open>x\<close>: the nearest double, and an infinity
  when that is 2 to the power 1024 or more in magnitude. \<open>lit x\<close> is the value of the
  decimal literal that denotes \<open>x\<close> in the source text, as \<^verbatim>\<open>0.299\<close>.
\<close>

definition fin :: "real \<Rightarrow> jsnum" where
  "fin x = (if 2 ^ 1024 \<le> rd x then PosInf
            else if rd x \<le> - (2 ^ 1024) then NegInf
            else Num (rd x))"

definition lit :: "real \<Rightarrow> jsnum" where
  "lit x = fin x"

subsection \<open>Arithmetic\<close>

text \<open>
  Arithmetic on finite values rounds its exact result; arithmetic on the other values
  follows IEEE 754.
\<close>

instantiation jsnum :: "{plus, minus, uminus, times, inverse, ord}"
begin

fun uminus_jsnum :: "jsnum \<Rightarrow> jsnum" where
  "uminus_jsnum (Num a) = Num (- a)"
| "uminus_jsnum PosInf = NegInf"
| "uminus_jsnum NegInf = PosInf"
| "uminus_jsnum NaN = NaN"

fun plus_jsnum :: "jsnum \<Rightarrow> jsnum \<Rightarrow> jsnum" where
  "plus_jsnum (Num a) (Num b) = fin (a + b)"
| "plus_jsnum NaN _ = NaN"
| "plus_jsnum _ NaN = NaN"
| "plus_jsnum PosInf NegInf = NaN"
| "plus_jsnum NegInf PosInf = NaN"
| "plus_jsnum PosInf _ = PosInf"
| "plus_jsnum _ PosInf = PosInf"
| "plus_jsnum NegInf _ = NegInf"
| "plus_jsnum _ NegInf = NegInf"

definition minus_jsnum :: "jsnum \<Rightarrow> jsnum \<Rightarrow> jsnum" where
  "minus_jsnum a b = a + (- b)"

fun times_jsnum :: "jsnum \<Rightarrow> jsnum \<Rightarrow> jsnum" where
  "times_jsnum (Num a) (Num b) = fin (a * b)"
| "times_jsnum NaN _ = NaN"
| "times_jsnum _ NaN = NaN"
| "times_jsnum (Num a) PosInf = (if a = 0 then NaN else if 0 < a then PosInf else NegInf)"
| "times_jsnum (Num a) NegInf = (if a = 0 then NaN else if 0 < a then NegInf else PosInf)"
| "times_jsnum PosInf (Num b) = (if b = 0 then NaN else if 0 < b then PosInf else NegInf)"
| "times_jsnum NegInf (Num b) = (if b = 0 then NaN else if 0 < b then NegInf else PosInf)"
| "times_jsnum PosInf PosInf = PosInf"
| "times_jsnum PosInf NegInf = NegInf"
| "times_jsnum NegInf PosInf = NegInf"
| "times_jsnum NegInf NegInf = PosInf"

fun divide_jsnum :: "jsnum \<Rightarrow> jsnum \<Rightarrow> jsnum" where
  "divide_jsnum (Num a) (Num b) =
     (if b = 0 then (if a = 0 then NaN else if 0 < a then PosInf else NegInf)
      else fin (a / b))"
| "divide_jsnum NaN _ = NaN"
| "divide_jsnum _ NaN = NaN"
| "divide_jsnum (Num a) PosInf = Num 0"
| "divide_jsnum (Num a) NegInf = Num 0"
| "divide_jsnum PosInf (Num b) = (if 0 \<le> b then PosInf else NegInf)"
| "divide_jsnum NegInf (Num b) = (if 0 \<le> b then NegInf else PosInf)"
| "divide_jsnum PosInf PosInf = NaN"
| "divide_jsnum PosInf NegInf = NaN"
| "divide_jsnum NegInf PosInf = NaN"
| "divide_jsnum NegInf NegInf = NaN"

fun inverse_jsnum :: "jsnum \<Rightarrow> jsnum" where
  "inverse_jsnum (Num a) = (if a = 0 then PosInf else fin (1 / a))"
| "inverse_jsnum PosInf = Num 0"
| "inverse_jsnum NegInf = Num 0"
| "inverse_jsnum NaN = NaN"

fun less_jsnum :: "jsnum \<Rightarrow> jsnum \<Rightarrow> bool" where
  "less_jsnum (Num a) (Num b) = (a < b)"
| "less_jsnum NaN _ = False"
| "less_jsnum _ NaN = False"
| "less_jsnum NegInf NegInf = False"
| "less_jsnum NegInf _ = True"
| "less_jsnum PosInf _ = False"
| "less_jsnum (Num a) PosInf = True"
| "less_jsnum (Num a) NegInf = False"

definition less_eq_jsnum :: "jsnum \<Rightarrow> jsnum \<Rightarrow> bool" where
  "less_eq_jsnum a b = (a < b \<or> (a = b \<and> a \<noteq> NaN))"

instance ..

end

text \<open>
  The functions of \<^verbatim>\<open>Math\<close> that the program calls. \<^verbatim>\<open>Math.floor\<close>, \<^verbatim>\<open>Math.round\<close>,
  \<^verbatim>\<open>Math.abs\<close>, \<^verbatim>\<open>Math.max\<close> and \<^verbatim>\<open>Math.min\<close> are exact on doubles. \<^verbatim>\<open>Math.sqrt\<close>
  and \<^verbatim>\<open>Math.pow\<close> give the double nearest to the exact result.
\<close>

fun Math_floor :: "jsnum \<Rightarrow> jsnum" where
  "Math_floor (Num a) = Num (of_int \<lfloor>a\<rfloor>)"
| "Math_floor x = x"

text \<open>\<^verbatim>\<open>Math.round\<close> rounds to the nearest integer, a half towards plus infinity.\<close>

fun Math_round :: "jsnum \<Rightarrow> jsnum" where
  "Math_round (Num a) = Num (of_int \<lfloor>a + 1 / 2\<rfloor>)"
| "Math_round x = x"

fun Math_abs :: "jsnum \<Rightarrow> jsnum" where
  "Math_abs (Num a) = Num \<bar>a\<bar>"
| "Math_abs NaN = NaN"
| "Math_abs x = PosInf"

fun Math_sqrt :: "jsnum \<Rightarrow> jsnum" where
  "Math_sqrt (Num a) = (if a < 0 then NaN else fin (sqrt a))"
| "Math_sqrt PosInf = PosInf"
| "Math_sqrt x = NaN"

text \<open>
  \<^verbatim>\<open>Math.pow\<close> with an exponent that is a natural number. The program calls it with
  the exponent 2 only, where the result is the rounded product of the base by itself.
\<close>

fun Math_pow :: "jsnum \<Rightarrow> nat \<Rightarrow> jsnum" where
  "Math_pow (Num a) n = fin (a ^ n)"
| "Math_pow PosInf n = (if n = 0 then Num 1 else PosInf)"
| "Math_pow NegInf n = (if n = 0 then Num 1 else if even n then PosInf else NegInf)"
| "Math_pow NaN n = (if n = 0 then Num 1 else NaN)"

definition Math_max :: "jsnum \<Rightarrow> jsnum \<Rightarrow> jsnum" where
  "Math_max a b = (if a = NaN \<or> b = NaN then NaN else if a < b then b else a)"

definition Math_min :: "jsnum \<Rightarrow> jsnum \<Rightarrow> jsnum" where
  "Math_min a b = (if a = NaN \<or> b = NaN then NaN else if b < a then b else a)"

text \<open>\<^verbatim>\<open>a || b\<close> on numbers: \<^verbatim>\<open>0\<close> and \<^verbatim>\<open>NaN\<close> are the falsy numbers.\<close>

definition js_or :: "jsnum \<Rightarrow> jsnum \<Rightarrow> jsnum" where
  "js_or a b = (if a = NaN \<or> a = Num 0 then b else a)"

datatype js_error = TypeError | RangeError

subsection \<open>Uint8ClampedArray\<close>

text \<open>
  An element is a byte. A store converts the number with ToUint8Clamp (clamp to 0..255,
  round half to even, \<^verbatim>\<open>NaN\<close> to 0); a store outside the array is ignored, which is what
  list update does; a read outside the array gives \<^verbatim>\<open>undefined\<close>, which every use in
  this program converts to \<^verbatim>\<open>NaN\<close>.
\<close>

type_synonym byte = "8 word"

fun ToUint8Clamp :: "jsnum \<Rightarrow> byte" where
  "ToUint8Clamp (Num a) =
     (if a \<le> 0 then 0
      else if 255 \<le> a then 255
      else (let f = \<lfloor>a\<rfloor>
            in if of_int f + 1 / 2 < a then word_of_int (f + 1)
               else if a < of_int f + 1 / 2 then word_of_int f
               else if even f then word_of_int f
               else word_of_int (f + 1)))"
| "ToUint8Clamp PosInf = 255"
| "ToUint8Clamp NegInf = 0"
| "ToUint8Clamp NaN = 0"

definition ta_get :: "byte list \<Rightarrow> nat \<Rightarrow> jsnum" where
  "ta_get d i = (if i < length d then Num (of_nat (unat (d ! i))) else NaN)"

definition ta_set :: "byte list \<Rightarrow> nat \<Rightarrow> jsnum \<Rightarrow> byte list" where
  "ta_set d i v = d[i := ToUint8Clamp v]"

text \<open>\<^verbatim>\<open>d[i] += v\<close>\<close>

definition ta_add :: "byte list \<Rightarrow> nat \<Rightarrow> jsnum \<Rightarrow> byte list" where
  "ta_add d i v = ta_set d i (ta_get d i + v)"

text \<open>A read at an index that is itself a number: only an integer inside the array hits.\<close>

fun ta_read :: "byte list \<Rightarrow> jsnum \<Rightarrow> jsnum" where
  "ta_read d (Num i) = (if 0 \<le> i \<and> i = of_int \<lfloor>i\<rfloor> then ta_get d (nat \<lfloor>i\<rfloor>) else NaN)"
| "ta_read d x = NaN"

section \<open>Data model\<close>

text \<open>
  \<^verbatim>\<open>ConversionOptions\<close> of ascii-converter.ts. The target column count is a natural
  number; the optional fields hold \<open>None\<close> when absent; string-typed selectors are strings,
  as they are at run time, so that a value outside the TypeScript union can be passed.

  The fields of the records below are constants of the theory. A parameter or local
  variable of the program with the name of a field is renamed in the functions that follow
  (\<open>w\<close> and \<open>h\<close> for \<^verbatim>\<open>width\<close> and \<^verbatim>\<open>height\<close>, \<open>d\<close> for \<^verbatim>\<open>data\<close>, \<open>s\<close> for
  \<^verbatim>\<open>strength\<close>, and so on).
\<close>

record ConversionOptions =
  width :: nat
  height :: "jsnum option"
  asciiSet :: string
  artStyle :: string
  maintainAspectRatio :: bool
  fontSize :: jsnum
  contrast :: jsnum
  brightness :: jsnum
  charAspectRatio :: jsnum
  colorScheme :: "string option"
  useColors :: "bool option"
  colorPalette :: "string option"

text \<open>\<^verbatim>\<open>ImageData\<close>: RGBA bytes, row-major; width and height are natural numbers.\<close>

record ImageData =
  data :: "byte list"
  width :: nat
  height :: nat

record DitheringOptions =
  algorithm :: string
  strength :: jsnum

section \<open>dithering.ts\<close>

definition ORDERED_2X2 :: "nat list list" where
  "ORDERED_2X2 = [[0, 2], [3, 1]]"

definition ORDERED_4X4 :: "nat list list" where
  "ORDERED_4X4 = [[0, 8, 2, 10], [12, 4, 14, 6], [3, 11, 1, 9], [15, 7, 13, 5]]"

definition ORDERED_8X8 :: "nat list list" where
  "ORDERED_8X8 =
    [[0, 32, 8, 40, 2, 34, 10, 42],
     [48, 16, 56, 24, 50, 18, 58, 26],
     [12, 44, 4, 36, 14, 46, 6, 38],
     [60, 28, 52, 20, 62, 30, 54, 22],
     [3, 35, 11, 43, 1, 33, 9, 41],
     [51, 19, 59, 27, 49, 17, 57, 25],
     [15, 47, 7, 39, 13, 45, 5, 37],
     [63, 31, 55, 23, 61, 29, 53, 21]]"

subsection \<open>Generic error diffusion\<close>

text \<open>
  A kernel entry is \<open>(dx, dy, weight)\<close>; a weight is written as the quotient that the source
  text has, as \<^verbatim>\<open>7/16\<close>.
\<close>

type_synonym kernel = "(int \<times> int \<times> jsnum) list"

text \<open>One iteration of the loop over the kernel: the error share of one neighbour.\<close>

definition diffuse ::
  "nat \<Rightarrow> nat \<Rightarrow> bool \<Rightarrow> nat \<Rightarrow> nat \<Rightarrow> nat \<Rightarrow> jsnum \<Rightarrow> byte list \<Rightarrow> int \<times> int \<times> jsnum \<Rightarrow> byte list" where
  "diffuse w h isRightToLeft x y channel err newData tap =
     (case tap of (dx, dy, weight) \<Rightarrow>
        let nx = int x + (if isRightToLeft then - dx else dx);
            ny = int y + dy
        in if 0 \<le> nx \<and> nx < int w \<and> 0 \<le> ny \<and> ny < int h
           then let neighborIndex = (nat ny * w + nat nx) * 4 + channel
                in ta_set newData neighborIndex
                     (Math_max (Num 0) (Math_min (Num 255) (ta_get newData neighborIndex + err * weight)))
           else newData)"

text \<open>The body of the loop over the three colour channels of the pixel \<open>(x, y)\<close>.\<close>

definition diffuse_channel ::
  "kernel \<Rightarrow> jsnum \<Rightarrow> nat \<Rightarrow> nat \<Rightarrow> bool \<Rightarrow> nat \<Rightarrow> nat \<Rightarrow> byte list \<Rightarrow> nat \<Rightarrow> byte list" where
  "diffuse_channel kern s w h isRightToLeft x y newData channel =
     (let index = (y * w + x) * 4;
          oldPixel = ta_get newData (index + channel);
          newPixel = (if oldPixel < Num 128 then Num 0 else Num 255);
          err = (oldPixel - newPixel) * s;
          newData1 = ta_set newData (index + channel) newPixel
      in foldl (diffuse w h isRightToLeft x y channel err) newData1 kern)"

text \<open>
  The body of the loop over the rows. A right-to-left row runs \<open>x\<close> from \<open>width - 1\<close> down
  to 0, any other row from 0 up to \<open>width - 1\<close>.
\<close>

definition diffuse_row :: "kernel \<Rightarrow> jsnum \<Rightarrow> bool \<Rightarrow> nat \<Rightarrow> nat \<Rightarrow> byte list \<Rightarrow> nat \<Rightarrow> byte list" where
  "diffuse_row kern s serpentine w h newData y =
     (let isRightToLeft = (serpentine \<and> y mod 2 = 1);
          xs = (if isRightToLeft then rev [0..<w] else [0..<w])
      in foldl (\<lambda>d x. foldl (diffuse_channel kern s w h isRightToLeft x y) d [0, 1, 2]) newData xs)"

definition errorDiffusionDither :: "ImageData \<Rightarrow> jsnum \<Rightarrow> kernel \<Rightarrow> bool \<Rightarrow> ImageData" where
  "errorDiffusionDither imageData s kern serpentine =
     \<lparr>data = foldl (diffuse_row kern s serpentine (width imageData) (height imageData))
               (data imageData) [0..<height imageData],
      width = width imageData, height = height imageData\<rparr>"

definition floydSteinbergDither :: "ImageData \<Rightarrow> jsnum \<Rightarrow> ImageData" where
  "floydSteinbergDither imageData s =
     errorDiffusionDither imageData s
       [(0, 0, Num 7 / Num 16), (- 1, 1, Num 3 / Num 16), (0, 1, Num 5 / Num 16), (1, 1, Num 1 / Num 16)]
       False"

definition floydSteinbergSerpentineDither :: "ImageData \<Rightarrow> jsnum \<Rightarrow> ImageData" where
  "floydSteinbergSerpentineDither imageData s =
     errorDiffusionDither imageData s
       [(0, 0, Num 7 / Num 16), (- 1, 1, Num 3 / Num 16), (0, 1, Num 5 / Num 16), (1, 1, Num 1 / Num 16)]
       True"

definition jarvisJudiceNinkeDither :: "ImageData \<Rightarrow> jsnum \<Rightarrow> ImageData" where
  "jarvisJudiceNinkeDither imageData s =
     errorDiffusionDither imageData s
       [(1, 0, Num 7 / Num 48), (2, 0, Num 5 / Num 48),
        (- 2, 1, Num 3 / Num 48), (- 1, 1, Num 5 / Num 48), (0, 1, Num 7 / Num 48),
        (1, 1, Num 5 / Num 48), (2, 1, Num 3 / Num 48),
        (- 2, 2, Num 1 / Num 48), (- 1, 2, Num 3 / Num 48), (0, 2, Num 5 / Num 48),
        (1, 2, Num 3 / Num 48), (2, 2, Num 1 / Num 48)]
       False"

definition stuckiDither :: "ImageData \<Rightarrow> jsnum \<Rightarrow> ImageData" where
  "stuckiDither imageData s =
     errorDiffusionDither imageData s
       [(1, 0, Num 8 / Num 42), (2, 0, Num 4 / Num 42),
        (- 2, 1, Num 2 / Num 42), (- 1, 1, Num 4 / Num 42), (0, 1, Num 8 / Num 42),
        (1, 1, Num 4 / Num 42), (2, 1, Num 2 / Num 42),
        (- 2, 2, Num 1 / Num 42), (- 1, 2, Num 2 / Num 42), (0, 2, Num 4 / Num 42),
        (1, 2, Num 2 / Num 42), (2, 2, Num 1 / Num 42)]
       False"

subsection \<open>The algorithms with their own loops\<close>

text \<open>
  The loop nest they share: rows top to bottom, pixels left to right, and the three colour
  channels of each pixel.
\<close>

definition raster ::
  "nat \<Rightarrow> nat \<Rightarrow> (nat \<Rightarrow> nat \<Rightarrow> byte list \<Rightarrow> nat \<Rightarrow> byte list) \<Rightarrow> byte list \<Rightarrow> byte list" where
  "raster w h body newData =
     foldl (\<lambda>d y. foldl (\<lambda>d x. foldl (body x y) d [0, 1, 2]) d [0..<w]) newData [0..<h]"

text \<open>The midpoint rule \<^verbatim>\<open>oldPixel < 128 ? 0 : 255\<close>.\<close>

definition midpoint :: "jsnum \<Rightarrow> jsnum" where
  "midpoint oldPixel = (if oldPixel < Num 128 then Num 0 else Num 255)"

definition atkinson_channel :: "jsnum \<Rightarrow> nat \<Rightarrow> nat \<Rightarrow> nat \<Rightarrow> nat \<Rightarrow> byte list \<Rightarrow> nat \<Rightarrow> byte list" where
  "atkinson_channel s w h x y newData channel =
     (let index = (y * w + x) * 4;
          oldPixel = ta_get newData (index + channel);
          newPixel = midpoint oldPixel;
          err = (oldPixel - newPixel) * s;
          d0 = ta_set newData (index + channel) newPixel;
          errorFraction = err / Num 8;
          d1 = (if x + 1 < w then ta_add d0 ((y * w + x + 1) * 4 + channel) errorFraction else d0);
          d2 = (if x + 2 < w then ta_add d1 ((y * w + x + 2) * 4 + channel) errorFraction else d1);
          d3 = (if y + 1 < h
                then (let a = (if 0 \<le> int x - 1
                               then ta_add d2 (((y + 1) * w + x - 1) * 4 + channel) errorFraction
                               else d2);
                          b = ta_add a (((y + 1) * w + x) * 4 + channel) errorFraction
                      in if x + 1 < w
                         then ta_add b (((y + 1) * w + x + 1) * 4 + channel) errorFraction
                         else b)
                else d2)
      in if y + 2 < h then ta_add d3 (((y + 2) * w + x) * 4 + channel) errorFraction else d3)"

definition atkinsonDither :: "ImageData \<Rightarrow> jsnum \<Rightarrow> ImageData" where
  "atkinsonDither imageData s =
     \<lparr>data = raster (width imageData) (height imageData)
               (atkinson_channel s (width imageData) (height imageData)) (data imageData),
      width = width imageData, height = height imageData\<rparr>"

definition burkes_channel :: "jsnum \<Rightarrow> nat \<Rightarrow> nat \<Rightarrow> nat \<Rightarrow> nat \<Rightarrow> byte list \<Rightarrow> nat \<Rightarrow> byte list" where
  "burkes_channel s w h x y newData channel =
     (let index = (y * w + x) * 4;
          oldPixel = ta_get newData (index + channel);
          newPixel = midpoint oldPixel;
          err = (oldPixel - newPixel) * s;
          d0 = ta_set newData (index + channel) newPixel;
          d1 = (if x + 1 < w then ta_add d0 ((y * w + x + 1) * 4 + channel) (err * Num 8 / Num 32) else d0);
          d2 = (if x + 2 < w then ta_add d1 ((y * w + x + 2) * 4 + channel) (err * Num 4 / Num 32) else d1)
      in if y + 1 < h
         then (let a = (if 0 \<le> int x - 2
                        then ta_add d2 (((y + 1) * w + x - 2) * 4 + channel) (err * Num 2 / Num 32)
                        else d2);
                   b = (if 0 \<le> int x - 1
                        then ta_add a (((y + 1) * w + x - 1) * 4 + channel) (err * Num 4 / Num 32)
                        else a);
                   c = ta_add b (((y + 1) * w + x) * 4 + channel) (err * Num 8 / Num 32);
                   e = (if x + 1 < w
                        then ta_add c (((y + 1) * w + x + 1) * 4 + channel) (err * Num 4 / Num 32)
                        else c)
               in if x + 2 < w
                  then ta_add e (((y + 1) * w + x + 2) * 4 + channel) (err * Num 2 / Num 32)
                  else e)
         else d2)"

definition burkesDither :: "ImageData \<Rightarrow> jsnum \<Rightarrow> ImageData" where
  "burkesDither imageData s =
     \<lparr>data = raster (width imageData) (height imageData)
               (burkes_channel s (width imageData) (height imageData)) (data imageData),
      width = width imageData, height = height imageData\<rparr>"

definition sierra_channel :: "jsnum \<Rightarrow> nat \<Rightarrow> nat \<Rightarrow> nat \<Rightarrow> nat \<Rightarrow> byte list \<Rightarrow> nat \<Rightarrow> byte list" where
  "sierra_channel s w h x y newData channel =
     (let index = (y * w + x) * 4;
          oldPixel = ta_get newData (index + channel);
          newPixel = midpoint oldPixel;
          err = (oldPixel - newPixel) * s;
          d0 = ta_set newData (index + channel) newPixel;
          d1 = (if x + 1 < w then ta_add d0 ((y * w + x + 1) * 4 + channel) (err * Num 5 / Num 32) else d0);
          d2 = (if x + 2 < w then ta_add d1 ((y * w + x + 2) * 4 + channel) (err * Num 3 / Num 32) else d1);
          d3 = (if y + 1 < h
                then (let a = (if 0 \<le> int x - 2
                               then ta_add d2 (((y + 1) * w + x - 2) * 4 + channel) (err * Num 2 / Num 32)
                               else d2);
                          b = (if 0 \<le> int x - 1
                               then ta_add a (((y + 1) * w + x - 1) * 4 + channel) (err * Num 4 / Num 32)
                               else a);
                          c = ta_add b (((y + 1) * w + x) * 4 + channel) (err * Num 5 / Num 32);
                          e = (if x + 1 < w
                               then ta_add c (((y + 1) * w + x + 1) * 4 + channel) (err * Num 4 / Num 32)
                               else c)
                      in if x + 2 < w
                         then ta_add e (((y + 1) * w + x + 2) * 4 + channel) (err * Num 2 / Num 32)
                         else e)
                else d2)
      in if y + 2 < h
         then (let a = (if 0 \<le> int x - 1
                        then ta_add d3 (((y + 2) * w + x - 1) * 4 + channel) (err * Num 2 / Num 32)
                        else d3);
                   b = ta_add a (((y + 2) * w + x) * 4 + channel) (err * Num 3 / Num 32)
               in if x + 1 < w
                  then ta_add b (((y + 2) * w + x + 1) * 4 + channel) (err * Num 2 / Num 32)
                  else b)
         else d3)"

definition sierraDither :: "ImageData \<Rightarrow> jsnum \<Rightarrow> ImageData" where
  "sierraDither imageData s =
     \<lparr>data = raster (width imageData) (height imageData)
               (sierra_channel s (width imageData) (height imageData)) (data imageData),
      width = width imageData, height = height imageData\<rparr>"

definition sierraLite_channel :: "jsnum \<Rightarrow> nat \<Rightarrow> nat \<Rightarrow> nat \<Rightarrow> nat \<Rightarrow> byte list \<Rightarrow> nat \<Rightarrow> byte list" where
  "sierraLite_channel s w h x y newData channel =
     (let index = (y * w + x) * 4;
          oldPixel = ta_get newData (index + channel);
          newPixel = midpoint oldPixel;
          err = (oldPixel - newPixel) * s;
          d0 = ta_set newData (index + channel) newPixel;
          d1 = (if x + 1 < w then ta_add d0 ((y * w + x + 1) * 4 + channel) (err * Num 2 / Num 4) else d0)
      in if y + 1 < h
         then (let a = (if 0 \<le> int x - 1
                        then ta_add d1 (((y + 1) * w + x - 1) * 4 + channel) (err * Num 1 / Num 4)
                        else d1)
               in ta_add a (((y + 1) * w + x) * 4 + channel) (err * Num 1 / Num 4))
         else d1)"

definition sierraLiteDither :: "ImageData \<Rightarrow> jsnum \<Rightarrow> ImageData" where
  "sierraLiteDither imageData s =
     \<lparr>data = raster (width imageData) (height imageData)
               (sierraLite_channel s (width imageData) (height imageData)) (data imageData),
      width = width imageData, height = height imageData\<rparr>"

subsection \<open>Ordered dithering\<close>

text \<open>
  The threshold of the pixel \<open>(x, y)\<close>. The function is only called with the three square
  matrices above, for which both matrix reads are inside the matrix.
\<close>

definition ordered_threshold :: "nat list list \<Rightarrow> jsnum \<Rightarrow> nat \<Rightarrow> nat \<Rightarrow> jsnum" where
  "ordered_threshold matrix s x y =
     (let matrixSize = length matrix;
          maxValue = int matrixSize * int matrixSize - 1
      in (Num (of_nat (matrix ! (y mod matrixSize) ! (x mod matrixSize))) / Num (of_int maxValue))
           * Num 255 * s)"

text \<open>\<^verbatim>\<open>newData[index + channel] = oldPixel > threshold ? 255 : 0\<close>\<close>

definition threshold_channel :: "jsnum \<Rightarrow> nat \<Rightarrow> nat \<Rightarrow> nat \<Rightarrow> byte list \<Rightarrow> nat \<Rightarrow> byte list" where
  "threshold_channel threshold w x y newData channel =
     (let index = (y * w + x) * 4;
          oldPixel = ta_get newData (index + channel)
      in ta_set newData (index + channel) (if oldPixel > threshold then Num 255 else Num 0))"

definition orderedDither :: "ImageData \<Rightarrow> nat list list \<Rightarrow> jsnum \<Rightarrow> ImageData" where
  "orderedDither imageData matrix s =
     \<lparr>data = raster (width imageData) (height imageData)
               (\<lambda>x y. threshold_channel (ordered_threshold matrix s x y) (width imageData) x y)
               (data imageData),
      width = width imageData, height = height imageData\<rparr>"

subsection \<open>Blue noise\<close>

text \<open>
  \<^verbatim>\<open>Math.random\<close> is a parameter: \<open>rnd k\<close> is the result of the \<open>k\<close>-th call (from 0) that
  \<^verbatim>\<open>generateBlueNoiseMap\<close> makes. The map is a list of rows of numbers.
\<close>

definition local_energy :: "jsnum list list \<Rightarrow> nat \<Rightarrow> nat \<Rightarrow> jsnum" where
  "local_energy m x y =
     foldl (\<lambda>energy dy.
              foldl (\<lambda>energy dx.
                       if dx = 0 \<and> dy = 0 then energy
                       else energy + m ! nat (int y + dy) ! nat (int x + dx))
                energy [- 1, 0, 1])
       (Num 0) [- 1, 0, 1]"

text \<open>The search of one iteration: \<open>(maxEnergy, voidX, voidY)\<close> over the interior pixels.\<close>

definition find_void :: "jsnum list list \<Rightarrow> nat \<Rightarrow> nat \<Rightarrow> jsnum \<times> nat \<times> nat" where
  "find_void m w h =
     foldl (\<lambda>st y.
              foldl (\<lambda>st x.
                       case st of (maxEnergy, voidX, voidY) \<Rightarrow>
                         let energy = local_energy m x y
                         in if energy > maxEnergy then (energy, x, y) else st)
                st [1..<w - 1])
       (NegInf, 0, 0) [1..<h - 1]"

text \<open>
  \<^verbatim>\<open>map[voidY][voidX] *= 0.5\<close>. With no row \<open>voidY\<close> (an image of height 0) reading the
  element raises a TypeError. With an empty row (an image of width 0) \<open>voidX\<close> is 0, the element
  read is \<^verbatim>\<open>undefined\<close> and the store appends \<^verbatim>\<open>NaN\<close> to the row.
\<close>

definition halve_void :: "jsnum list list \<Rightarrow> nat \<Rightarrow> nat \<Rightarrow> js_error + jsnum list list" where
  "halve_void m voidX voidY =
     (if voidY < length m
      then (let row = m ! voidY
            in if voidX < length row
               then Inr (m[voidY := row[voidX := row ! voidX * lit (1 / 2)]])
               else Inr (m[voidY := row @ [NaN]]))
      else Inl TypeError)"

fun refine_map :: "nat \<Rightarrow> nat \<Rightarrow> nat \<Rightarrow> jsnum list list \<Rightarrow> js_error + jsnum list list" where
  "refine_map 0 w h m = Inr m"
| "refine_map (Suc iterations) w h m =
     (case find_void m w h of (maxEnergy, voidX, voidY) \<Rightarrow>
        (case halve_void m voidX voidY of
           Inl e \<Rightarrow> Inl e
         | Inr m1 \<Rightarrow> refine_map iterations w h m1))"

definition generateBlueNoiseMap :: "(nat \<Rightarrow> real) \<Rightarrow> nat \<Rightarrow> nat \<Rightarrow> js_error + jsnum list list" where
  "generateBlueNoiseMap rnd w h =
     refine_map 10 w h (map (\<lambda>y. map (\<lambda>x. Num (rnd (y * w + x))) [0..<w]) [0..<h])"

definition blueNoiseDither :: "(nat \<Rightarrow> real) \<Rightarrow> ImageData \<Rightarrow> jsnum \<Rightarrow> js_error + ImageData" where
  "blueNoiseDither rnd imageData s =
     (case generateBlueNoiseMap rnd (width imageData) (height imageData) of
        Inl e \<Rightarrow> Inl e
      | Inr noiseMap \<Rightarrow>
          Inr \<lparr>data = raster (width imageData) (height imageData)
                      (\<lambda>x y. threshold_channel (noiseMap ! y ! x * Num 255 * s) (width imageData) x y)
                      (data imageData),
               width = width imageData, height = height imageData\<rparr>)"

subsection \<open>Adaptive hybrid\<close>

definition pixel_mean :: "byte list \<Rightarrow> nat \<Rightarrow> jsnum" where
  "pixel_mean d i = (ta_get d i + ta_get d (i + 1) + ta_get d (i + 2)) / Num 3"

definition calculateLocalContrast :: "byte list \<Rightarrow> nat \<Rightarrow> nat \<Rightarrow> nat \<Rightarrow> nat \<Rightarrow> jsnum" where
  "calculateLocalContrast d x y w h =
     (let index = (y * w + x) * 4;
          centerBrightness = pixel_mean d index;
          maxDiff =
            foldl (\<lambda>maxDiff dy.
                     foldl (\<lambda>maxDiff dx.
                              let nx = int x + dx; ny = int y + dy
                              in if 0 \<le> nx \<and> nx < int w \<and> 0 \<le> ny \<and> ny < int h
                                 then (let neighborIndex = (nat ny * w + nat nx) * 4;
                                           neighborBrightness = pixel_mean d neighborIndex
                                       in Math_max maxDiff (Math_abs (centerBrightness - neighborBrightness)))
                                 else maxDiff)
                       maxDiff [- 1, 0, 1])
              (Num 0) [- 1, 0, 1]
      in maxDiff / Num 255)"

definition adaptive_channel ::
  "byte list \<Rightarrow> jsnum \<Rightarrow> nat \<Rightarrow> nat \<Rightarrow> nat \<Rightarrow> nat \<Rightarrow> byte list \<Rightarrow> nat \<Rightarrow> byte list" where
  "adaptive_channel d s w h x y newData channel =
     (let index = (y * w + x) * 4;
          localContrast = calculateLocalContrast d x y w h;
          oldPixel = ta_get newData (index + channel)
      in if localContrast > lit (3 / 10)
         then ta_set newData (index + channel) (Math_max (Num 0) (Math_min (Num 255) (midpoint oldPixel)))
         else if localContrast > lit (1 / 10)
         then (let newPixel = midpoint oldPixel;
                   err = (oldPixel - newPixel) * s * lit (7 / 10);
                   d1 = (if x + 1 < w
                         then ta_add newData ((y * w + x + 1) * 4 + channel) (err * lit (4 / 10))
                         else newData);
                   d2 = (if y + 1 < h \<and> x > 0
                         then ta_add d1 (((y + 1) * w + x - 1) * 4 + channel) (err * lit (2 / 10))
                         else d1);
                   d3 = (if y + 1 < h
                         then ta_add d2 (((y + 1) * w + x) * 4 + channel) (err * lit (3 / 10))
                         else d2)
               in ta_set d3 (index + channel) (Math_max (Num 0) (Math_min (Num 255) newPixel)))
         else (let threshold = Num (of_nat ((x mod 4) * 4 + y mod 4)) / Num 16 * Num 255 * s;
                   newPixel = (if oldPixel > threshold then Num 255 else Num 0)
               in ta_set newData (index + channel) (Math_max (Num 0) (Math_min (Num 255) newPixel))))"

text \<open>The contrast map is computed from the input data, before any pixel is rewritten.\<close>

definition adaptiveHybridDither :: "ImageData \<Rightarrow> jsnum \<Rightarrow> ImageData" where
  "adaptiveHybridDither imageData s =
     \<lparr>data = raster (width imageData) (height imageData)
               (adaptive_channel (data imageData) s (width imageData) (height imageData))
               (data imageData),
      width = width imageData, height = height imageData\<rparr>"

subsection \<open>The dispatcher\<close>

definition known_algorithms :: "string list" where
  "known_algorithms =
     [''none'', ''floyd-steinberg'', ''floyd-steinberg-serpentine'', ''jarvis-judice-ninke'',
      ''atkinson'', ''stucki'', ''burkes'', ''sierra'', ''sierra-lite'', ''ordered-2x2'',
      ''ordered-4x4'', ''ordered-8x8'', ''blue-noise'', ''adaptive-hybrid'']"

definition applyDithering :: "(nat \<Rightarrow> real) \<Rightarrow> ImageData \<Rightarrow> DitheringOptions \<Rightarrow> js_error + ImageData" where
  "applyDithering rnd imageData options =
     (let alg = algorithm options; s = strength options
      in if alg = ''none'' \<or> s = Num 0 then Inr imageData
         else if alg = ''floyd-steinberg'' then Inr (floydSteinbergDither imageData s)
         else if alg = ''floyd-steinberg-serpentine'' then Inr (floydSteinbergSerpentineDither imageData s)
         else if alg = ''jarvis-judice-ninke'' then Inr (jarvisJudiceNinkeDither imageData s)
         else if alg = ''stucki'' then Inr (stuckiDither imageData s)
         else if alg = ''atkinson'' then Inr (atkinsonDither imageData s)
         else if alg = ''burkes'' then Inr (burkesDither imageData s)
         else if alg = ''sierra'' then Inr (sierraDither imageData s)
         else if alg = ''sierra-lite'' then Inr (sierraLiteDither imageData s)
         else if alg = ''ordered-2x2'' then Inr (orderedDither imageData ORDERED_2X2 s)
         else if alg = ''ordered-4x4'' then Inr (orderedDither imageData ORDERED_4X4 s)
         else if alg = ''ordered-8x8'' then Inr (orderedDither imageData ORDERED_8X8 s)
         else if alg = ''blue-noise'' then blueNoiseDither rnd imageData s
         else if alg = ''adaptive-hybrid'' then Inr (adaptiveHybridDither imageData s)
         else Inr imageData)"

section \<open>ascii-converter.ts\<close>

text \<open>
  A string is the list of its UTF-16 code units; every character of the ramps is one code
  unit (the space is 32, the block characters of code page 437 are 9617, 9618, 9619, 9608
  and 9604).
\<close>

type_synonym jsstring = "nat list"

text \<open>
  What \<^verbatim>\<open>ASCII_SETS[key]\<close> can be at run time: the ramp of a known key, \<^verbatim>\<open>undefined\<close>
  for a key the object does not have, and an object that is not a string for a property name
  that every object inherits.
\<close>

datatype js_ramp = Str jsstring | Obj | Undefined

definition Object_prototype_keys :: "string list" where
  "Object_prototype_keys =
     [''constructor'', ''hasOwnProperty'', ''isPrototypeOf'', ''propertyIsEnumerable'',
      ''toLocaleString'', ''toString'', ''valueOf'', ''__proto__'', ''__defineGetter__'',
      ''__defineSetter__'', ''__lookupGetter__'', ''__lookupSetter__'']"

definition known_ramps :: "string list" where
  "known_ramps =
     [''minimal'', ''smooth'', ''classic'', ''dense'', ''blocks'', ''ansi-safe'', ''ansi-half'',
      ''ansi-simple'', ''ansi-classic'', ''ansi-minimal'']"

definition ASCII_SETS :: "string \<Rightarrow> js_ramp" where
  "ASCII_SETS key =
     (if key = ''minimal'' then Str
       [32, 46, 58, 45, 61, 43, 42, 35, 37, 64]
      else if key = ''smooth'' then Str
       [32, 46, 39, 96, 94, 34, 44, 58, 59, 73, 108, 33, 105, 126, 43, 95, 45, 63, 93, 91,
        125, 123, 49, 41, 40, 124, 92, 47, 116, 102, 106, 114, 120, 110, 117, 118, 99, 122,
        88, 89, 85, 74, 67, 76, 81, 48, 79, 90, 109, 119, 113, 112, 100, 98, 107, 104, 97,
        111, 42, 35, 77, 87, 38, 56, 37, 66, 64, 36]
      else if key = ''classic'' then Str
       [32, 46, 44, 58, 59, 111, 120, 37, 35, 64]
      else if key = ''dense'' then Str
       [32, 96, 46, 45, 39, 58, 95, 44, 94, 61, 59, 62, 60, 43, 33, 114, 99, 42, 47, 122,
        63, 115, 76, 84, 118, 41, 74, 55, 40, 124, 70, 105, 123, 125, 67, 51, 116, 108,
        102, 49, 117, 110, 120, 122, 106, 89, 53, 86, 50, 119, 113, 107, 111, 97, 104, 100,
        48, 101, 112, 57, 103, 121, 54, 80, 98, 52, 107, 109, 56, 82, 68, 90, 88, 85, 66,
        79, 35, 77, 87, 38, 56, 37, 66, 64, 36]
      else if key = ''blocks'' then Str
       [32, 9617, 9618, 9619, 9608]
      else if key = ''ansi-safe'' then Str
       [32, 46, 58, 45, 61, 35, 64]
      else if key = ''ansi-half'' then Str
       [32, 9604, 9608]
      else if key = ''ansi-simple'' then Str
       [32, 9618, 9608]
      else if key = ''ansi-classic'' then Str
       [32, 46, 9618, 9619, 9608]
      else if key = ''ansi-minimal'' then Str
       [32, 9608]
      else if key \<in> set Object_prototype_keys then Obj
      else Undefined)"

definition ANSI_16_COLORS :: "(nat \<times> nat \<times> nat) list" where
  "ANSI_16_COLORS =
     [(0, 0, 0), (128, 0, 0), (0, 128, 0), (128, 128, 0),
      (0, 0, 128), (128, 0, 128), (0, 128, 128), (192, 192, 192),
      (128, 128, 128), (255, 0, 0), (0, 255, 0), (255, 255, 0),
      (0, 0, 255), (255, 0, 255), (0, 255, 255), (255, 255, 255)]"

text \<open>\<^verbatim>\<open>AnsiPixel\<close>: a field that is absent or \<^verbatim>\<open>undefined\<close> is \<open>None\<close>.\<close>

record AnsiPixel =
  char :: "nat option"
  fgColor :: "nat option"
  bgColor :: "nat option"
  rgb :: "(jsnum \<times> jsnum \<times> jsnum) option"

text \<open>\<^verbatim>\<open>s[index]\<close> on a string: \<^verbatim>\<open>undefined\<close> unless the index is an integer inside it.\<close>

fun str_at :: "jsstring \<Rightarrow> jsnum \<Rightarrow> nat option" where
  "str_at s (Num i) =
     (if 0 \<le> i \<and> i = of_int \<lfloor>i\<rfloor> \<and> nat \<lfloor>i\<rfloor> < length s then Some (s ! nat \<lfloor>i\<rfloor>) else None)"
| "str_at s x = None"

text \<open>
  The parameters \<open>lum\<close> and \<open>ramp\<close> are \<^verbatim>\<open>brightness\<close> and \<^verbatim>\<open>asciiSet\<close>.
  Reading \<^verbatim>\<open>asciiSet.length\<close> of \<^verbatim>\<open>undefined\<close> raises a TypeError. An inherited
  property has no element at any index.
\<close>

definition brightnessToAscii :: "jsnum \<Rightarrow> js_ramp \<Rightarrow> bool \<Rightarrow> js_error + nat option" where
  "brightnessToAscii lum ramp invertBrightness =
     (let clamped = Math_max (Num 0) (Math_min (Num 255) lum);
          normalizedBrightness = (if invertBrightness then Num 255 - clamped else clamped)
      in case ramp of
           Undefined \<Rightarrow> Inl TypeError
         | Obj \<Rightarrow> Inr None
         | Str chars \<Rightarrow>
             (let index = Math_floor ((normalizedBrightness / Num 255) * (Num (of_nat (length chars)) - Num 1))
              in Inr (str_at chars index)))"

definition getPixelBrightness :: "jsnum \<Rightarrow> jsnum \<Rightarrow> jsnum \<Rightarrow> jsnum" where
  "getPixelBrightness r g b =
     Math_round (lit (299 / 1000) * r + lit (587 / 1000) * g + lit (114 / 1000) * b)"

text \<open>The loop of \<^verbatim>\<open>findClosestAnsiColor\<close>, on the state \<open>(minDistance, closestIndex)\<close>.\<close>

definition color_distance :: "jsnum \<Rightarrow> jsnum \<Rightarrow> jsnum \<Rightarrow> nat \<times> nat \<times> nat \<Rightarrow> jsnum" where
  "color_distance r g b entry =
     (case entry of (pr, pg, pb) \<Rightarrow>
        Math_sqrt (Math_pow (r - Num (of_nat pr)) 2 + Math_pow (g - Num (of_nat pg)) 2
                   + Math_pow (b - Num (of_nat pb)) 2))"

definition closest_step ::
  "jsnum \<Rightarrow> jsnum \<Rightarrow> jsnum \<Rightarrow> (nat \<times> nat \<times> nat) list \<Rightarrow> jsnum \<times> nat \<Rightarrow> nat \<Rightarrow> jsnum \<times> nat" where
  "closest_step r g b palette st i =
     (let distance = color_distance r g b (palette ! i)
      in if distance < fst st then (distance, i) else st)"

definition findClosestAnsiColor :: "jsnum \<Rightarrow> jsnum \<Rightarrow> jsnum \<Rightarrow> (nat \<times> nat \<times> nat) list \<Rightarrow> nat" where
  "findClosestAnsiColor r g b palette =
     snd (foldl (closest_step r g b palette) (PosInf, 0) [0..<length palette])"

definition generateAnsi256Palette :: "(nat \<times> nat \<times> nat) list" where
  "generateAnsi256Palette =
     ANSI_16_COLORS
     @ concat (map (\<lambda>r. concat (map (\<lambda>g. map (\<lambda>b.
          (if r = 0 then 0 else 55 + r * 40,
           if g = 0 then 0 else 55 + g * 40,
           if b = 0 then 0 else 55 + b * 40)) [0..<6]) [0..<6])) [0..<6])
     @ map (\<lambda>i. let gray = 8 + i * 10 in (gray, gray, gray)) [0..<24]"

text \<open>A parameter \<^verbatim>\<open>colorPalette\<close> that is absent takes its default \<^verbatim>\<open>'ansi-16'\<close>.\<close>

definition rgbToAnsiPixel ::
  "jsnum \<Rightarrow> jsnum \<Rightarrow> jsnum \<Rightarrow> js_ramp \<Rightarrow> bool \<Rightarrow> string option \<Rightarrow> bool \<Rightarrow> js_error + AnsiPixel" where
  "rgbToAnsiPixel r g b asciiChars useColours palette_name invertBrightness =
     (let lum = getPixelBrightness r g b
      in case brightnessToAscii lum asciiChars invertBrightness of
           Inl e \<Rightarrow> Inl e
         | Inr ch \<Rightarrow>
             if \<not> useColours
             then Inr \<lparr>char = ch, fgColor = None, bgColor = None, rgb = None\<rparr>
             else (let palette = (if (case palette_name of None \<Rightarrow> ''ansi-16'' | Some p \<Rightarrow> p) = ''ansi-16''
                                  then ANSI_16_COLORS else generateAnsi256Palette);
                       colorIndex = findClosestAnsiColor r g b palette;
                       avgColor = (r + g + b) / Num 3
                   in if avgColor < Num 128
                      then Inr \<lparr>char = (if ch = Some 32 then Some 32 else Some 9619),
                                fgColor = Some 0, bgColor = Some colorIndex, rgb = Some (r, g, b)\<rparr>
                      else Inr \<lparr>char = ch, fgColor = Some colorIndex, bgColor = None,
                                rgb = Some (r, g, b)\<rparr>))"

definition adjustBrightness :: "jsnum \<Rightarrow> jsnum \<Rightarrow> jsnum \<Rightarrow> jsnum" where
  "adjustBrightness val contrast_factor brightness_offset =
     (let adjusted = ((val - Num 128) * contrast_factor) + Num 128;
          adjusted1 = adjusted + brightness_offset
      in Math_max (Num 0) (Math_min (Num 255) adjusted1))"

text \<open>One iteration of the inner loop of \<^verbatim>\<open>resizeImageData\<close>: the four bytes of a pixel.\<close>

definition resize_pixel :: "ImageData \<Rightarrow> nat \<Rightarrow> jsnum \<Rightarrow> jsnum \<Rightarrow> nat \<Rightarrow> byte list \<Rightarrow> nat \<Rightarrow> byte list" where
  "resize_pixel imageData targetWidth scaleX scaleY y newData x =
     (let sourceX = Math_floor (Num (of_nat x) * scaleX);
          sourceY = Math_floor (Num (of_nat y) * scaleY);
          sourceIndex = (sourceY * Num (of_nat (width imageData)) + sourceX) * Num 4;
          targetIndex = (y * targetWidth + x) * 4;
          d0 = ta_set newData targetIndex (ta_read (data imageData) sourceIndex);
          d1 = ta_set d0 (targetIndex + 1) (ta_read (data imageData) (sourceIndex + Num 1));
          d2 = ta_set d1 (targetIndex + 2) (ta_read (data imageData) (sourceIndex + Num 2))
      in ta_set d2 (targetIndex + 3) (ta_read (data imageData) (sourceIndex + Num 3)))"

text \<open>The target dimensions are natural numbers; the new array starts as zeros.\<close>

definition resizeImageData :: "ImageData \<Rightarrow> nat \<Rightarrow> nat \<Rightarrow> ImageData" where
  "resizeImageData imageData targetWidth targetHeight =
     (let newData = replicate (targetWidth * targetHeight * 4) 0;
          scaleX = Num (of_nat (width imageData)) / Num (of_nat targetWidth);
          scaleY = Num (of_nat (height imageData)) / Num (of_nat targetHeight)
      in \<lparr>data = foldl (\<lambda>d y. foldl (resize_pixel imageData targetWidth scaleX scaleY y) d [0..<targetWidth])
                  newData [0..<targetHeight],
          width = targetWidth, height = targetHeight\<rparr>)"

text \<open>The result \<^verbatim>\<open>{width, height}\<close> is the pair \<open>(width, height)\<close>.\<close>

definition calculateDimensions :: "nat \<Rightarrow> nat \<Rightarrow> nat \<Rightarrow> bool \<Rightarrow> jsnum \<Rightarrow> nat \<times> jsnum" where
  "calculateDimensions originalWidth originalHeight targetWidth maintain cellAspectRatio =
     (if \<not> maintain
      then (targetWidth, Math_floor (Num (of_nat targetWidth) * lit (1 / 2)))
      else (let imageAspectRatio = Num (of_nat originalWidth) / Num (of_nat originalHeight);
                targetHeight = Math_floor ((Num (of_nat targetWidth) / imageAspectRatio) * cellAspectRatio)
            in (targetWidth, targetHeight)))"

subsection \<open>convertToAscii\<close>

text \<open>The ratio by which the coloured path rescales the three channels of a pixel.\<close>

definition brightnessFactor :: "jsnum \<Rightarrow> jsnum \<Rightarrow> jsnum" where
  "brightnessFactor adjustedBrightness avgBrightness = js_or (adjustedBrightness / avgBrightness) (Num 1)"

definition rescale :: "jsnum \<Rightarrow> jsnum \<Rightarrow> jsnum" where
  "rescale c factor = Math_max (Num 0) (Math_min (Num 255) (c * factor))"

text \<open>The body of the inner loop of the coloured path.\<close>

definition ansi_cell ::
  "byte list \<Rightarrow> nat \<Rightarrow> ConversionOptions \<Rightarrow> js_ramp \<Rightarrow> bool \<Rightarrow> nat \<Rightarrow> nat \<Rightarrow> js_error + AnsiPixel" where
  "ansi_cell d w options asciiChars invertBrightness y x =
     (let index = (y * w + x) * 4;
          r = ta_get d index;
          g = ta_get d (index + 1);
          b = ta_get d (index + 2);
          avgBrightness = getPixelBrightness r g b;
          adjustedBrightness = adjustBrightness avgBrightness (contrast options) (brightness options);
          factor = brightnessFactor adjustedBrightness avgBrightness
      in rgbToAnsiPixel (rescale r factor) (rescale g factor) (rescale b factor)
           asciiChars True (colorPalette options) invertBrightness)"

text \<open>
  The body of the inner loop of the plain path: what \<^verbatim>\<open>ascii +=\<close> appends. Appending
  \<^verbatim>\<open>undefined\<close> to a string appends the nine characters of its name.
\<close>

definition ascii_cell ::
  "byte list \<Rightarrow> nat \<Rightarrow> ConversionOptions \<Rightarrow> js_ramp \<Rightarrow> bool \<Rightarrow> nat \<Rightarrow> nat \<Rightarrow> js_error + jsstring" where
  "ascii_cell d w options asciiChars invertBrightness y x =
     (let index = (y * w + x) * 4;
          r = ta_get d index;
          g = ta_get d (index + 1);
          b = ta_get d (index + 2);
          pixelBrightness = adjustBrightness (getPixelBrightness r g b) (contrast options) (brightness options)
      in case brightnessToAscii pixelBrightness asciiChars invertBrightness of
           Inl e \<Rightarrow> Inl e
         | Inr None \<Rightarrow> Inr [117, 110, 100, 101, 102, 105, 110, 101, 100]
         | Inr (Some c) \<Rightarrow> Inr [c])"

text \<open>The results of a loop in order, up to the first iteration that raises.\<close>

fun collect :: "('e + 'a) list \<Rightarrow> 'e + 'a list" where
  "collect [] = Inr []"
| "collect (Inl e # rest) = Inl e"
| "collect (Inr v # rest) = (case collect rest of Inl e \<Rightarrow> Inl e | Inr vs \<Rightarrow> Inr (v # vs))"

datatype ConversionResult = Text jsstring | Pixels "AnsiPixel list list"

definition render :: "ImageData \<Rightarrow> ConversionOptions \<Rightarrow> js_ramp \<Rightarrow> bool \<Rightarrow> bool \<Rightarrow> js_error + ConversionResult" where
  "render resizedData options asciiChars invertBrightness coloured =
     (let w = width resizedData; h = height resizedData; d = data resizedData
      in if coloured
         then (case collect (map (\<lambda>y. collect (map (ansi_cell d w options asciiChars invertBrightness y) [0..<w]))
                              [0..<h]) of
                 Inl e \<Rightarrow> Inl e
               | Inr ansiPixels \<Rightarrow> Inr (Pixels ansiPixels))
         else (case collect (map (\<lambda>y. case collect (map (ascii_cell d w options asciiChars invertBrightness y) [0..<w]) of
                                        Inl e \<Rightarrow> Inl e
                                      | Inr cells \<Rightarrow> Inr (concat cells @ [10]))
                              [0..<h]) of
                 Inl e \<Rightarrow> Inl e
               | Inr rows \<Rightarrow> Inr (Text (concat rows))))"

text \<open>
  The row count that \<^verbatim>\<open>calculateDimensions\<close> returns is a number, and
  \<^verbatim>\<open>resizeImageData\<close> above takes natural numbers, so the cases in which it is not one
  are written out here. A negative row count makes the length of the new array negative,
  which raises a RangeError (with no columns the length is 0 and no loop runs). An infinite
  one makes the length infinite, which raises a RangeError as well (an infinite row count
  comes with at least one column, lemma \<open>calculateDimensions_infinite\<close>). \<^verbatim>\<open>NaN\<close> gives
  an array of length 0 and no loop runs, since \<^verbatim>\<open>y < NaN\<close> is false. The limit on the
  length of an array is not modelled.
\<close>

definition convertToAscii :: "ImageData \<Rightarrow> ConversionOptions \<Rightarrow> js_error + ConversionResult" where
  "convertToAscii imageData options =
     (let asciiChars = ASCII_SETS (asciiSet options);
          invertBrightness = (colorScheme options = Some ''black-on-white'');
          coloured = (artStyle options = ''ansi'' \<and> useColors options = Some True);
          emptyResult = (if coloured then Pixels [] else Text []);
          dimensions = calculateDimensions (width imageData) (height imageData)
                         (ConversionOptions.width options) (maintainAspectRatio options)
                         (charAspectRatio options)
      in case snd dimensions of
           Num rows \<Rightarrow>
             if rows < 0
             then (if fst dimensions = 0 then Inr emptyResult else Inl RangeError)
             else render (resizeImageData imageData (fst dimensions) (nat \<lfloor>rows\<rfloor>))
                    options asciiChars invertBrightness coloured
         | NaN \<Rightarrow> Inr emptyResult
         | _ \<Rightarrow> Inl RangeError)"

section \<open>Reference functions\<close>

text \<open>
  The functions of this section are not translations of the program. They state the values
  that the specification gives. A formula of the specification is read as an expression of
  the arithmetic of the program, every operation giving the nearest double; the theorems
  below compare the program with them.
\<close>

text \<open>
  The index that the specification gives for \<^verbatim>\<open>brightnessToAscii\<close>,
  \<open>floor((clamped / 255) * (n - 1))\<close>: the brightness clamped to 0..255, replaced by 255 minus
  itself when inverted, divided by 255, multiplied by \<open>n - 1\<close> and floored, where \<open>n\<close> is the
  length of the ramp. The difference, the quotient and the product are rounded.
\<close>

definition ramp_index :: "real \<Rightarrow> nat \<Rightarrow> bool \<Rightarrow> int" where
  "ramp_index b n invert =
     \<lfloor>rd (rd ((if invert then rd (255 - max 0 (min 255 b)) else max 0 (min 255 b)) / 255)
          * (real n - 1))\<rfloor>"

text \<open>
  The output channel of ordered dithering with an \<open>n\<close> by \<open>n\<close> matrix, as a function of the
  old byte \<open>v\<close>, the position modulo \<open>n\<close> and the strength: 255 if \<open>v\<close> is greater than
  \<open>(matrix[ym][xm] / (n\<^sup>2 - 1)) * 255 * s\<close>, and 0 otherwise.
\<close>

definition ordered_output :: "nat list list \<Rightarrow> jsnum \<Rightarrow> byte \<Rightarrow> nat \<Rightarrow> nat \<Rightarrow> byte" where
  "ordered_output matrix s v xm ym =
     (if Num (real (unat v))
          > (Num (real (matrix ! ym ! xm)) / Num (real (length matrix) ^ 2 - 1)) * Num 255 * s
      then 255 else 0)"

text \<open>
  The row count that the specification gives for \<^verbatim>\<open>calculateDimensions\<close>:
  \<open>floor(targetColumns * 0.5)\<close> without aspect-ratio preservation and
  \<open>floor((targetColumns / (sourceWidth / sourceHeight)) * charAspectRatio)\<close> with it.
\<close>

definition spec_rows :: "nat \<Rightarrow> nat \<Rightarrow> nat \<Rightarrow> bool \<Rightarrow> jsnum \<Rightarrow> jsnum" where
  "spec_rows sourceWidth sourceHeight targetColumns maintain ratio =
     (if maintain
      then Math_floor ((Num (real targetColumns) / (Num (real sourceWidth) / Num (real sourceHeight))) * ratio)
      else Math_floor (Num (real targetColumns) * lit (1 / 2)))"

text \<open>
  The source coordinate of the target coordinate \<open>x\<close> when \<open>n\<close> source pixels are resampled
  to \<open>t\<close> target pixels. \<open>spec_coordinate\<close> is the formula of the specification,
  \<open>floor(x * n / t)\<close>, the product taken first. \<open>scaled_coordinate\<close> is \<open>floor(x * scale)\<close>
  with the scale factor \<open>n / t\<close> taken first and rounded to a double.
\<close>

definition spec_coordinate :: "nat \<Rightarrow> nat \<Rightarrow> nat \<Rightarrow> jsnum" where
  "spec_coordinate n t x = Math_floor (Num (real x) * Num (real n) / Num (real t))"

definition scaled_coordinate :: "nat \<Rightarrow> nat \<Rightarrow> nat \<Rightarrow> nat" where
  "scaled_coordinate n t x = nat \<lfloor>rd (real x * rd (real n / real t))\<rfloor>"

text \<open>
  The Euclidean distance of the colour \<open>(r, g, b)\<close> from a palette entry, in exact
  arithmetic.
\<close>

definition euclid :: "real \<Rightarrow> real \<Rightarrow> real \<Rightarrow> nat \<times> nat \<times> nat \<Rightarrow> real" where
  "euclid r g b entry =
     (case entry of (pr, pg, pb) \<Rightarrow> sqrt ((r - real pr)\<^sup>2 + (g - real pg)\<^sup>2 + (b - real pb)\<^sup>2))"

text \<open>
  The number of rows of a result: the number of line feeds (code unit 10) of a text, the
  number of rows of a grid.
\<close>

fun row_count :: "ConversionResult \<Rightarrow> nat" where
  "row_count (Text s) = count_list s 10"
| "row_count (Pixels rows) = length rows"

subsection \<open>Auxiliary definitions of the proofs\<close>

text \<open>
  The reals that are doubles: an integer of at most 53 bits times a power of two that is
  at least 2 to the power -1074.
\<close>

definition is_double :: "real \<Rightarrow> bool" where
  "is_double r \<longleftrightarrow> (\<exists>m k :: int. r = of_int m * 2 powr of_int k \<and> \<bar>m\<bar> \<le> 2 ^ 53 \<and> - 1074 \<le> k)"

text \<open>The numbers that are not negative, plus infinity included.\<close>

definition nonneg :: "jsnum \<Rightarrow> bool" where
  "nonneg v \<longleftrightarrow> v = PosInf \<or> (\<exists>a. v = Num a \<and> 0 \<le> a)"

text \<open>The byte that a threshold \<open>t\<close> makes of the byte \<open>v\<close>.\<close>

definition thresh_byte :: "jsnum \<Rightarrow> byte \<Rightarrow> byte" where
  "thresh_byte t v = (if Num (real (unat v)) > t then 255 else 0)"

text \<open>The invariant of the loop of \<^verbatim>\<open>findClosestAnsiColor\<close> after \<open>k\<close> iterations.\<close>

definition closest_inv :: "(nat \<Rightarrow> jsnum) \<Rightarrow> nat \<Rightarrow> jsnum \<times> nat \<Rightarrow> bool" where
  "closest_inv dst k st =
     (if k = 0 then st = (PosInf, 0)
      else snd st < k \<and> fst st = dst (snd st)
           \<and> (\<forall>j<k. \<not> dst j < dst (snd st))
           \<and> (\<forall>j. j < snd st \<longrightarrow> dst (snd st) < dst j))"

text \<open>The byte that \<^verbatim>\<open>resizeImageData\<close> stores for channel \<open>k\<close> of the target pixel \<open>(x, y)\<close>.\<close>

definition source_byte :: "ImageData \<Rightarrow> jsnum \<Rightarrow> jsnum \<Rightarrow> nat \<Rightarrow> nat \<Rightarrow> nat \<Rightarrow> byte" where
  "source_byte imageData scaleX scaleY x y k =
     (let sourceIndex = (Math_floor (Num (of_nat y) * scaleY) * Num (of_nat (width imageData))
                          + Math_floor (Num (of_nat x) * scaleX)) * Num 4
      in ToUint8Clamp (ta_read (data imageData)
           (if k = 0 then sourceIndex else sourceIndex + Num (of_nat k))))"

section \<open>Properties\<close>

subsection \<open>Rounding\<close>

lemma rne_err: "\<bar>of_int (rne y) - y\<bar> \<le> 1 / 2"
  unfolding rne_def Let_def by (auto; linarith)

lemma rne_int [simp]: "rne (of_int n) = n"
  by (simp add: rne_def)

lemma rne_nearest: "\<bar>of_int (rne y) - y\<bar> \<le> \<bar>of_int n - y\<bar>"
proof (cases "n = rne y")
  case True
  then show ?thesis by simp
next
  case False
  then have "1 \<le> \<bar>n - rne y\<bar>" by linarith
  then have "1 \<le> \<bar>real_of_int n - of_int (rne y)\<bar>"
    by (metis of_int_1 of_int_abs of_int_diff of_int_le_iff)
  with rne_err [of y] show ?thesis by linarith
qed

lemma quantum_pos [simp]: "0 < quantum x"
  by (simp add: quantum_def)

lemma quantum_nz [simp]: "quantum x \<noteq> 0"
  by (simp add: quantum_def)

lemma quantum_nonneg [simp]: "0 \<le> quantum x"
  by (simp add: quantum_def)

lemma binade:
  assumes "x \<noteq> 0"
  shows "2 powr of_int \<lfloor>log 2 \<bar>x\<bar>\<rfloor> \<le> \<bar>x\<bar>" "\<bar>x\<bar> < 2 powr (of_int \<lfloor>log 2 \<bar>x\<bar>\<rfloor> + 1)"
  using assms floor_log_eq_powr_iff [of "\<bar>x\<bar>" 2 "\<lfloor>log 2 \<bar>x\<bar>\<rfloor>"] by simp_all

lemma quantum_exp:
  "quantum x = 2 powr of_int (max \<lfloor>log 2 \<bar>x\<bar>\<rfloor> (- 1022) - 52)"
  by (simp add: quantum_def)

lemma quantum_upper:
  assumes "x \<noteq> 0"
  shows "\<bar>x\<bar> < quantum x * 2 ^ 53"
proof -
  have "\<bar>x\<bar> < 2 powr (of_int \<lfloor>log 2 \<bar>x\<bar>\<rfloor> + 1)"
    using assms by (rule binade)
  also have "\<dots> \<le> 2 powr (of_int (max \<lfloor>log 2 \<bar>x\<bar>\<rfloor> (- 1022)) + 1)"
    by simp
  also have "\<dots> = 2 powr ((of_int (max \<lfloor>log 2 \<bar>x\<bar>\<rfloor> (- 1022)) - 52) + 53)"
    by (simp add: add.commute)
  also have "\<dots> = quantum x * 2 ^ 53"
    unfolding powr_add quantum_def by simp
  finally show ?thesis .
qed

lemma quantum_lower:
  assumes "x \<noteq> 0" and "- 1022 \<le> \<lfloor>log 2 \<bar>x\<bar>\<rfloor>"
  shows "quantum x * 2 ^ 52 \<le> \<bar>x\<bar>"
proof -
  have "max \<lfloor>log 2 \<bar>x\<bar>\<rfloor> (- 1022) = \<lfloor>log 2 \<bar>x\<bar>\<rfloor>"
    using assms(2) by simp
  then have "quantum x = 2 powr (of_int \<lfloor>log 2 \<bar>x\<bar>\<rfloor> - 52)"
    unfolding quantum_def by simp
  then have "quantum x * 2 ^ 52 = 2 powr ((of_int \<lfloor>log 2 \<bar>x\<bar>\<rfloor> - 52) + 52)"
    unfolding powr_add by simp
  also have "\<dots> = 2 powr of_int \<lfloor>log 2 \<bar>x\<bar>\<rfloor>" by simp
  also have "\<dots> \<le> \<bar>x\<bar>" using assms(1) by (rule binade)
  finally show ?thesis .
qed

lemma rd_0 [simp]: "rd 0 = 0"
  by (simp add: rd_def)

lemma rd_near_multiple:
  assumes "x \<noteq> 0"
  shows "\<bar>rd x - x\<bar> \<le> \<bar>of_int n * quantum x - x\<bar>"
proof -
  let ?q = "quantum x"
  have q: "0 < ?q" by simp
  have qn: "?q \<noteq> 0" by simp
  have a: "rd x - x = ?q * (of_int (rne (x / ?q)) - x / ?q)"
    using assms qn by (simp add: rd_def field_simps)
  have b: "of_int n * ?q - x = ?q * (of_int n - x / ?q)"
    using qn by (simp add: field_simps)
  have "\<bar>of_int (rne (x / ?q)) - x / ?q\<bar> \<le> \<bar>of_int n - x / ?q\<bar>"
    by (rule rne_nearest)
  then have "?q * \<bar>of_int (rne (x / ?q)) - x / ?q\<bar> \<le> ?q * \<bar>of_int n - x / ?q\<bar>"
    using q by (simp add: mult_le_cancel_left_pos)
  then show ?thesis
    unfolding a b abs_mult using q by simp
qed

lemma rd_half_quantum:
  assumes "x \<noteq> 0"
  shows "\<bar>rd x - x\<bar> \<le> quantum x / 2"
proof -
  let ?q = "quantum x"
  have q: "0 < ?q" by simp
  have qn: "?q \<noteq> 0" by simp
  have a: "rd x - x = ?q * (of_int (rne (x / ?q)) - x / ?q)"
    using assms qn by (simp add: rd_def field_simps)
  have "\<bar>rd x - x\<bar> = ?q * \<bar>of_int (rne (x / ?q)) - x / ?q\<bar>"
    unfolding a abs_mult by (simp add: abs_of_pos)
  also have "\<dots> \<le> ?q * (1 / 2)"
    using rne_err [of "x / ?q"] by (intro mult_left_mono) simp_all
  finally show ?thesis by simp
qed

lemma rd_is_double: "is_double (rd x)"
proof (cases "x = 0")
  case True
  have "(0::real) = of_int 0 * 2 powr of_int 0 \<and> \<bar>0::int\<bar> \<le> 2 ^ 53 \<and> - 1074 \<le> (0::int)"
    by simp
  then show ?thesis unfolding is_double_def True rd_0 by blast
next
  case False
  let ?q = "quantum x"
  let ?m = "rne (x / ?q)"
  have q: "0 < ?q" by simp
  have "\<bar>x / ?q\<bar> < 2 ^ 53"
    using quantum_upper [OF False] q by (simp add: field_simps)
  with rne_err [of "x / ?q"] have "\<bar>real_of_int ?m\<bar> < 2 ^ 53 + 1"
    by linarith
  then have "\<bar>?m\<bar> < 2 ^ 53 + 1"
    by (metis (mono_tags, opaque_lifting) of_int_abs of_int_less_iff of_int_numeral of_int_power of_int_add of_int_1)
  then have m: "\<bar>?m\<bar> \<le> 2 ^ 53" by simp
  have "rd x = of_int ?m * 2 powr of_int (max \<lfloor>log 2 \<bar>x\<bar>\<rfloor> (- 1022) - 52)"
    using False by (simp add: rd_def quantum_exp)
  moreover have "- 1074 \<le> max \<lfloor>log 2 \<bar>x\<bar>\<rfloor> (- 1022) - 52" by simp
  ultimately show ?thesis
    unfolding is_double_def using m by blast
qed

lemma rd_nearest:
  assumes "is_double r"
  shows "\<bar>rd x - x\<bar> \<le> \<bar>r - x\<bar>"
proof (cases "x = 0")
  case True
  then show ?thesis by simp
next
  case False
  from assms obtain m k :: int where r: "r = of_int m * 2 powr of_int k"
    and m: "\<bar>m\<bar> \<le> 2 ^ 53" and k: "- 1074 \<le> k"
    unfolding is_double_def by blast
  define e where "e = \<lfloor>log 2 \<bar>x\<bar>\<rfloor>"
  define E where "E = max e (- 1022)"
  have q: "quantum x = 2 powr of_int (E - 52)"
    unfolding E_def e_def by (rule quantum_exp)
  show ?thesis
  proof (cases "E - 52 \<le> k")
    case True
    define j where "j = nat (k - (E - 52))"
    have "real_of_int k = of_int (E - 52) + real j"
      using True by (simp add: j_def)
    then have "(2::real) powr of_int k = 2 powr (of_int (E - 52) + real j)"
      by simp
    also have "\<dots> = 2 powr of_int (E - 52) * 2 ^ j"
      unfolding powr_add by (simp add: powr_realpow)
    finally have "(2::real) powr of_int k = 2 powr of_int (E - 52) * 2 ^ j" .
    then have "r = of_int (m * 2 ^ j) * quantum x"
      unfolding r q by simp
    then show ?thesis
      using rd_near_multiple [OF False, of "m * 2 ^ j"] by simp
  next
    case False
    then have kE: "k < E - 52" by simp
    with k have "- 1022 < E" by simp
    then have Ee: "E = e" and e: "- 1022 \<le> e"
      unfolding E_def by (simp_all add: max_def split: if_splits)
    have lo: "2 powr of_int e \<le> \<bar>x\<bar>"
      unfolding e_def using \<open>x \<noteq> 0\<close> by (rule binade)
    have "of_int k \<le> (of_int e - 53 :: real)"
      using kE Ee by linarith
    then have "2 powr of_int k \<le> (2::real) powr (of_int e - 53)"
      by simp
    also have "\<dots> = 2 powr of_int e / 2 ^ 53"
      by (simp add: powr_diff)
    finally have pk: "2 powr of_int k \<le> (2::real) powr of_int e / 2 ^ 53" .
    have "\<bar>real_of_int m\<bar> \<le> 2 ^ 53"
      using m by (metis of_int_abs of_int_le_iff of_int_numeral of_int_power)
    then have "\<bar>r\<bar> \<le> 2 ^ 53 * (2 powr of_int e / 2 ^ 53)"
      unfolding r abs_mult using pk by (intro mult_mono) simp_all
    then have rb: "\<bar>r\<bar> \<le> 2 powr of_int e" by simp
    define g :: int where "g = (if 0 < x then 2 ^ 52 else - (2 ^ 52))"
    have gq: "of_int g * quantum x = (if 0 < x then 2 powr of_int e else - (2 powr of_int e))"
    proof -
      have "(2::real) powr of_int e = 2 powr (of_int (e - 52) + 52)" by simp
      also have "\<dots> = 2 powr of_int (e - 52) * 2 ^ 52"
        unfolding powr_add by simp
      finally show ?thesis
        unfolding q Ee g_def by simp
    qed
    have "\<bar>rd x - x\<bar> \<le> \<bar>of_int g * quantum x - x\<bar>"
      using \<open>x \<noteq> 0\<close> by (rule rd_near_multiple)
    also have "\<dots> = \<bar>x\<bar> - 2 powr of_int e"
      unfolding gq using lo \<open>x \<noteq> 0\<close> by (auto simp: abs_if)
    also have "\<dots> \<le> \<bar>r - x\<bar>"
      using rb by linarith
    finally show ?thesis .
  qed
qed

lemma rd_exact: "is_double x \<Longrightarrow> rd x = x"
  using rd_nearest [of x x] by simp

lemma rd_idem [simp]: "rd (rd x) = rd x"
  by (rule rd_exact) (rule rd_is_double)

lemma rd_mono:
  assumes "x \<le> y"
  shows "rd x \<le> rd y"
proof (rule ccontr)
  assume "\<not> rd x \<le> rd y"
  then have lt: "rd y < rd x" by simp
  have a: "\<bar>rd x - x\<bar> \<le> \<bar>rd y - x\<bar>"
    by (rule rd_nearest) (rule rd_is_double)
  have b: "\<bar>rd y - y\<bar> \<le> \<bar>rd x - y\<bar>"
    by (rule rd_nearest) (rule rd_is_double)
  from a b lt assms have "x = y" by linarith
  with lt show False by simp
qed

lemma rd_rel_error:
  assumes "2 powr (- 1022) \<le> \<bar>x\<bar>"
  shows "\<bar>rd x - x\<bar> \<le> \<bar>x\<bar> / 2 ^ 53"
proof -
  have nz: "x \<noteq> 0"
    using assms by (auto simp: not_le [symmetric])
  have "(- 1022 :: real) \<le> log 2 \<bar>x\<bar>"
    using assms nz by (simp add: le_log_iff)
  then have e: "- 1022 \<le> \<lfloor>log 2 \<bar>x\<bar>\<rfloor>"
    by (simp add: le_floor_iff)
  have "\<bar>rd x - x\<bar> \<le> quantum x / 2"
    using nz by (rule rd_half_quantum)
  also have "\<dots> = quantum x * 2 ^ 52 / 2 ^ 53"
    by simp
  also have "\<dots> \<le> \<bar>x\<bar> / 2 ^ 53"
    using quantum_lower [OF nz e] by (simp add: divide_right_mono)
  finally show ?thesis .
qed

lemma rd_nonneg: "0 \<le> x \<Longrightarrow> 0 \<le> rd x"
  using rd_mono [of 0 x] by simp

lemma is_double_dyadic:
  assumes "x * 2 ^ n \<in> \<int>" and "\<bar>x\<bar> * 2 ^ n \<le> 2 ^ 53" and "n \<le> 1074"
  shows "is_double x"
proof -
  from assms(1) obtain m :: int where m: "x * 2 ^ n = of_int m"
    by (auto elim: Ints_cases)
  have "\<bar>real_of_int m\<bar> \<le> 2 ^ 53"
    using assms(2) unfolding m [symmetric] abs_mult by simp
  then have mb: "\<bar>m\<bar> \<le> 2 ^ 53"
    by (metis of_int_abs of_int_le_iff of_int_numeral of_int_power)
  have p: "(2::real) powr of_int (- int n) = 1 / 2 ^ n"
    by (simp add: powr_minus_divide powr_realpow)
  have "x = x * 2 ^ n / 2 ^ n" by simp
  also have "\<dots> = of_int m * (1 / 2 ^ n)" unfolding m by simp
  finally have "x = of_int m * 2 powr of_int (- int n)"
    unfolding p .
  moreover have "- 1074 \<le> - int n" using assms(3) by simp
  ultimately show ?thesis
    unfolding is_double_def using mb by blast
qed

lemma is_double_nat:
  assumes "n \<le> 2 ^ 53"
  shows "is_double (real n)"
proof -
  have "real n \<le> real (2 ^ 53)"
    using assms by (rule of_nat_mono)
  then show ?thesis
    by (intro is_double_dyadic [where n = 0]) simp_all
qed

lemma is_double_pow2: "is_double (2 ^ n)"
proof -
  have "(2::real) ^ n = of_int 1 * 2 powr of_int (int n)"
    by (simp add: powr_realpow)
  then show ?thesis
    unfolding is_double_def by (intro exI [of _ 1] exI [of _ "int n"]) simp
qed

lemma rd_dyadic:
  "x * 2 ^ 20 \<in> \<int> \<Longrightarrow> \<bar>x\<bar> \<le> 2 ^ 33 \<Longrightarrow> rd x = x"
  by (rule rd_exact, rule is_double_dyadic [where n = 20]) simp_all

lemma rd_nat: "n \<le> 2 ^ 53 \<Longrightarrow> rd (real n) = real n"
  by (rule rd_exact) (rule is_double_nat)

lemma rd_eval_pos:
  assumes "2 ^ n \<le> \<bar>x\<bar>" and "\<bar>x\<bar> < 2 * 2 ^ n"
  shows "rd x = of_int (rne (x * 2 ^ 52 / 2 ^ n)) * 2 ^ n / 2 ^ 52"
proof -
  have "0 < (2::real) ^ n" by simp
  then have "0 < \<bar>x\<bar>" using assms(1) by linarith
  then have nz: "x \<noteq> 0" by simp
  have "\<lfloor>log 2 \<bar>x\<bar>\<rfloor> = int n"
    using assms nz by (simp add: floor_log_eq_powr_iff powr_add powr_realpow)
  then have "quantum x = 2 powr (real n - 52)"
    by (simp add: quantum_def)
  then have q: "quantum x = 2 ^ n / 2 ^ 52"
    by (simp add: powr_diff powr_realpow)
  show ?thesis
    using nz by (simp add: rd_def q)
qed

lemma rd_eval_neg:
  assumes "1 \<le> \<bar>x\<bar> * 2 ^ n" and "\<bar>x\<bar> * 2 ^ n < 2" and "n \<le> 1022"
  shows "rd x = of_int (rne (x * 2 ^ (52 + n))) / 2 ^ (52 + n)"
proof -
  have nz: "x \<noteq> 0" using assms(1) by auto
  have p: "(2::real) powr (- real n) = 1 / 2 ^ n"
    by (simp add: powr_minus_divide powr_realpow)
  have p2: "(2::real) powr (- real n + 1) = 2 / 2 ^ n"
    unfolding powr_add p by simp
  have "2 powr (- real n) \<le> \<bar>x\<bar>"
    unfolding p using assms(1) by (simp add: field_simps)
  moreover have "\<bar>x\<bar> < 2 powr (- real n + 1)"
    unfolding p2 using assms(2) by (simp add: field_simps)
  ultimately have "\<lfloor>log 2 \<bar>x\<bar>\<rfloor> = - int n"
    using nz by (subst floor_log_eq_powr_iff) simp_all
  then have "quantum x = 2 powr (- real n - 52)"
    using assms(3) by (simp add: quantum_def)
  then have q: "quantum x = 1 / 2 ^ (52 + n)"
    by (simp add: powr_diff p power_add)
  show ?thesis
    using nz by (simp add: rd_def q)
qed

lemma is_double_minus: "is_double x \<Longrightarrow> is_double (- x)"
proof -
  assume "is_double x"
  then obtain m k :: int where "x = of_int m * 2 powr of_int k" "\<bar>m\<bar> \<le> 2 ^ 53" "- 1074 \<le> k"
    unfolding is_double_def by blast
  then have "- x = of_int (- m) * 2 powr of_int k \<and> \<bar>- m\<bar> \<le> 2 ^ 53 \<and> - 1074 \<le> k"
    by simp
  then show "is_double (- x)"
    unfolding is_double_def by blast
qed

lemma rd_bounded:
  assumes "\<bar>x\<bar> \<le> b" and "is_double b"
  shows "\<bar>rd x\<bar> \<le> b"
proof -
  have "rd x \<le> rd b"
    using assms(1) by (intro rd_mono) simp
  moreover have "rd (- b) \<le> rd x"
    using assms(1) by (intro rd_mono) simp
  moreover have "rd b = b" "rd (- b) = - b"
    using assms(2) by (simp_all add: rd_exact is_double_minus)
  ultimately show ?thesis by simp
qed

subsection \<open>Numbers\<close>


lemma fin_small:
  assumes "\<bar>x\<bar> \<le> 2 ^ 1023"
  shows "fin x = Num (rd x)"
proof -
  have "\<bar>rd x\<bar> \<le> 2 ^ 1023"
    using assms by (rule rd_bounded) (rule is_double_pow2)
  then have "\<bar>rd x\<bar> < 2 ^ 1024" by simp
  then show ?thesis by (auto simp: fin_def)
qed

lemma fin_exact: "is_double x \<Longrightarrow> \<bar>x\<bar> \<le> 2 ^ 1023 \<Longrightarrow> fin x = Num x"
  by (simp add: fin_small rd_exact)

text \<open>The rule that evaluates an operation on given numbers.\<close>

lemma fin_num: "\<bar>x\<bar> \<le> 2 ^ 64 \<Longrightarrow> fin x = Num (rd x)"
  by (rule fin_small) simp

lemma fin_nat:
  assumes "n \<le> 2 ^ 53"
  shows "fin (real n) = Num (real n)"
proof -
  have "real n \<le> real (2 ^ 53)"
    using assms by (rule of_nat_mono)
  then have "\<bar>real n\<bar> \<le> 2 ^ 1023" by simp
  with is_double_nat [OF assms] show ?thesis by (rule fin_exact)
qed

lemma fin_0 [simp]: "fin 0 = Num 0"
  by (simp add: fin_def)

lemma fin_not_NaN [simp]: "fin x \<noteq> NaN"
  by (simp add: fin_def)

lemma fin_nonneg: "0 \<le> x \<Longrightarrow> nonneg (fin x)"
  using rd_nonneg [of x] by (auto simp: fin_def nonneg_def)

lemma minus_Num [simp]: "Num a - Num b = fin (a - b)"
  by (simp add: minus_jsnum_def)

lemma minus_NaN [simp]: "NaN - x = NaN" "x - NaN = NaN"
  by (cases x; simp add: minus_jsnum_def)+

lemma Math_min_Num [simp]: "Math_min (Num a) (Num b) = Num (min a b)"
  by (simp add: Math_min_def min_def)

lemma Math_max_Num [simp]: "Math_max (Num a) (Num b) = Num (max a b)"
  by (simp add: Math_max_def max_def)

lemma replicate4: "replicate 4 x = [x, x, x, x]"
  by (simp add: eval_nat_numeral)

lemma upt_first: "1 \<le> n \<Longrightarrow> [0..<n] = 0 # [1..<n]"
  by (simp add: upt_conv_Cons)

lemma resize_dims:
  "width (resizeImageData imageData w h) = w" "height (resizeImageData imageData w h) = h"
  by (simp_all add: resizeImageData_def Let_def)

lemma ansi_cell_height:
  "ansi_cell d w (options\<lparr>ConversionOptions.height := h\<rparr>) = ansi_cell d w options"
  by (intro ext) (simp add: ansi_cell_def)

lemma ascii_cell_height:
  "ascii_cell d w (options\<lparr>ConversionOptions.height := h\<rparr>) = ascii_cell d w options"
  by (intro ext) (simp add: ascii_cell_def)

lemma render_height:
  "render resizedData (options\<lparr>ConversionOptions.height := h\<rparr>) = render resizedData options"
  by (intro ext) (simp add: render_def Let_def ansi_cell_height ascii_cell_height)

subsection \<open>Loops over the pixels\<close>

text \<open>
  A loop over the columns of a row, and a loop over the rows, whose step rewrites only the
  bytes of its own pixel (those that \<open>Q\<close> selects), each from its old value.
\<close>

lemma row_fold:
  fixes step :: "'a list \<Rightarrow> nat \<Rightarrow> 'a list"
  assumes step_len: "\<And>d x. length (step d x) = length d"
      and step_nth: "\<And>d x i. i < length d \<Longrightarrow>
             step d x ! i = (if i div 4 = base + x \<and> Q (i mod 4) then F x (i mod 4) (d ! i) else d ! i)"
  shows "length (foldl step d [0..<k]) = length d
         \<and> (\<forall>i<length d. foldl step d [0..<k] ! i =
               (if base \<le> i div 4 \<and> i div 4 < base + k \<and> Q (i mod 4)
                then F (i div 4 - base) (i mod 4) (d ! i) else d ! i))"
proof (induction k)
  case 0
  show ?case by auto
next
  case (Suc k)
  show ?case
  proof (intro conjI allI impI)
    show "length (foldl step d [0..<Suc k]) = length d"
      using Suc by (simp add: step_len)
  next
    fix i assume i: "i < length d"
    let ?d = "foldl step d [0..<k]"
    have len: "i < length ?d" using Suc i by simp
    have prev: "?d ! i = (if base \<le> i div 4 \<and> i div 4 < base + k \<and> Q (i mod 4)
                then F (i div 4 - base) (i mod 4) (d ! i) else d ! i)"
      using Suc i by simp
    have "foldl step d [0..<Suc k] ! i = step ?d k ! i" by simp
    also have "\<dots> = (if i div 4 = base + k \<and> Q (i mod 4) then F k (i mod 4) (?d ! i) else ?d ! i)"
      using len by (rule step_nth)
    also have "\<dots> = (if base \<le> i div 4 \<and> i div 4 < base + Suc k \<and> Q (i mod 4)
                then F (i div 4 - base) (i mod 4) (d ! i) else d ! i)"
      unfolding prev by (auto simp: less_Suc_eq)
    finally show "foldl step d [0..<Suc k] ! i =
               (if base \<le> i div 4 \<and> i div 4 < base + Suc k \<and> Q (i mod 4)
                then F (i div 4 - base) (i mod 4) (d ! i) else d ! i)" .
  qed
qed

lemma grid_fold:
  fixes step :: "nat \<Rightarrow> 'a list \<Rightarrow> nat \<Rightarrow> 'a list"
  assumes step_len: "\<And>y d x. length (step y d x) = length d"
      and step_nth: "\<And>y d x i. i < length d \<Longrightarrow>
             step y d x ! i = (if i div 4 = y * w + x \<and> Q (i mod 4) then F x y (i mod 4) (d ! i) else d ! i)"
  shows "length (foldl (\<lambda>d y. foldl (step y) d [0..<w]) d [0..<h]) = length d
         \<and> (\<forall>i<length d. foldl (\<lambda>d y. foldl (step y) d [0..<w]) d [0..<h] ! i =
               (if i div 4 < h * w \<and> Q (i mod 4)
                then F ((i div 4) mod w) ((i div 4) div w) (i mod 4) (d ! i) else d ! i))"
proof (induction h)
  case 0
  show ?case by simp
next
  case (Suc h)
  let ?d = "foldl (\<lambda>d y. foldl (step y) d [0..<w]) d [0..<h]"
  note row = row_fold [where step = "step h" and base = "h * w" and Q = Q and F = "\<lambda>x. F x h" and d = ?d and k = w,
      OF step_len step_nth]
  show ?case
  proof (intro conjI allI impI)
    show "length (foldl (\<lambda>d y. foldl (step y) d [0..<w]) d [0..<Suc h]) = length d"
      using Suc row by simp
  next
    fix i assume i: "i < length d"
    have len: "i < length ?d" using Suc i by simp
    have prev: "?d ! i = (if i div 4 < h * w \<and> Q (i mod 4)
                then F ((i div 4) mod w) ((i div 4) div w) (i mod 4) (d ! i) else d ! i)"
      using Suc i by simp
    have "foldl (\<lambda>d y. foldl (step y) d [0..<w]) d [0..<Suc h] ! i = foldl (step h) ?d [0..<w] ! i"
      by simp
    also have "\<dots> = (if h * w \<le> i div 4 \<and> i div 4 < h * w + w \<and> Q (i mod 4)
                then F (i div 4 - h * w) h (i mod 4) (?d ! i) else ?d ! i)"
      using row len by simp
    also have "\<dots> = (if i div 4 < Suc h * w \<and> Q (i mod 4)
                then F ((i div 4) mod w) ((i div 4) div w) (i mod 4) (d ! i) else d ! i)"
    proof (cases "h * w \<le> i div 4 \<and> i div 4 < h * w + w")
      case True
      then have w: "0 < w" by auto
      from True have dv: "(i div 4) div w = h"
        by (intro div_nat_eqI) (simp_all add: mult.commute)
      have md: "(i div 4) mod w = i div 4 - h * w"
        using dv by (metis minus_mult_div_eq_mod mult.commute)
      from True show ?thesis
        unfolding prev by (simp add: dv md)
    next
      case False
      then show ?thesis
        unfolding prev by auto
    qed
    finally show "foldl (\<lambda>d y. foldl (step y) d [0..<w]) d [0..<Suc h] ! i =
               (if i div 4 < Suc h * w \<and> Q (i mod 4)
                then F ((i div 4) mod w) ((i div 4) div w) (i mod 4) (d ! i) else d ! i)" .
  qed
qed

lemma quad_arith:
  fixes p c :: nat
  assumes "c < 4"
  shows "(p * 4 + c) div 4 = p" "(p * 4 + c) mod 4 = c"
  using assms by simp_all

lemma pixel_index_arith:
  fixes x y w c :: nat
  assumes "x < w" "c < 4"
  shows "((y * w + x) * 4 + c) div 4 = y * w + x" "((y * w + x) * 4 + c) mod 4 = c"
    "(y * w + x) mod w = x" "(y * w + x) div w = y"
  using assms quad_arith [of c "y * w + x"] by simp_all

lemma pixel_index_bound:
  fixes x y w h c :: nat
  assumes "x < w" "y < h" "c < 4"
  shows "(y * w + x) * 4 + c < w * h * 4" "y * w + x < h * w"
proof -
  have "y * w + x < y * w + w" using assms by simp
  also have "\<dots> = Suc y * w" by simp
  also have "\<dots> \<le> h * w" using assms by (intro mult_le_mono1) simp
  finally show b: "y * w + x < h * w" .
  have "p * 4 + c < n * 4" if "p < n" for p n :: nat
    using that assms(3) by arith
  from this [OF b] show "(y * w + x) * 4 + c < w * h * 4" by (simp add: mult.commute)
qed

subsection \<open>Bytes\<close>

lemma ToUint8Clamp_nat:
  assumes "n < 256"
  shows "ToUint8Clamp (Num (real n)) = word_of_nat n"
proof -
  consider "n = 0" | "n = 255" | "0 < n" "n < 255"
    using assms by linarith
  then show ?thesis
  proof cases
    case 1
    then show ?thesis by simp
  next
    case 2
    then show ?thesis by simp
  next
    case 3
    then show ?thesis by (simp add: Let_def)
  qed
qed

lemma ToUint8Clamp_byte: "ToUint8Clamp (Num (real (unat b))) = b"
proof -
  have "unat b < 2 ^ LENGTH(8)" by (rule unsigned_less)
  then have "unat b < 256" by simp
  then have "ToUint8Clamp (Num (real (unat b))) = word_of_nat (unat b)"
    by (rule ToUint8Clamp_nat)
  then show ?thesis by simp
qed

lemma ToUint8Clamp_unsigned [simp]: "ToUint8Clamp (Num (unsigned b)) = b"
  using ToUint8Clamp_byte [of b] by simp

subsection \<open>Floyd-Steinberg\<close>

text \<open>
  C1. For the Floyd-Steinberg algorithms (plain and serpentine) the claim is that every
  channel of every pixel is quantised to 0 or 255 by the midpoint rule and that the scaled
  error goes only to pixels not yet processed, with weights 7/16, 3/16, 5/16 and 1/16. The
  kernel of both functions gives the weight 7/16 the offset \<open>(0, 0)\<close>, the pixel itself,
  where the other kernels of the file have \<open>(1, 0)\<close>. On an image of two grey pixels
  \<open>(100, 100, 100)\<close> in one row, with strength 1, each channel is quantised to 0, gets
  \<open>100 * 7/16 = 43.75\<close> added back and is stored as 44; the right neighbour receives
  nothing. The output is neither 0 nor 255, and the processed pixel has received error.
\<close>

theorem floydSteinberg_feeds_error_back:
  "floydSteinbergDither
     \<lparr>data = [100, 100, 100, 255, 100, 100, 100, 255], width = 2, height = 1\<rparr> (Num 1)
   = \<lparr>data = [44, 44, 44, 255, 44, 44, 44, 255], width = 2, height = 1\<rparr>
   \<and> floydSteinbergSerpentineDither
     \<lparr>data = [100, 100, 100, 255, 100, 100, 100, 255], width = 2, height = 1\<rparr> (Num 1)
   = \<lparr>data = [44, 44, 44, 255, 44, 44, 44, 255], width = 2, height = 1\<rparr>"
  by (simp add: floydSteinbergDither_def floydSteinbergSerpentineDither_def
      errorDiffusionDither_def diffuse_row_def diffuse_channel_def diffuse_def
      ta_get_def ta_set_def Math_max_def Math_min_def Let_def upt_rec fin_num rd_dyadic)

subsection \<open>The dispatcher\<close>

text \<open>
  C2. With the algorithm \<^verbatim>\<open>'none'\<close> and any strength, and with any algorithm and the
  strength 0, \<open>applyDithering\<close> returns the input image itself, for every image.
\<close>

theorem applyDithering_identity:
  "applyDithering rnd imageData \<lparr>algorithm = ''none'', strength = s\<rparr> = Inr imageData
   \<and> applyDithering rnd imageData \<lparr>algorithm = a, strength = Num 0\<rparr> = Inr imageData"
  by (simp add: applyDithering_def)

subsection \<open>Rounded values\<close>

text \<open>
  The values of \<open>rd\<close> that the examples below need and that the rule \<open>rd_dyadic\<close> does not
  give: each is computed from the binade of its argument. The first group is the luminance
  of the grey \<open>(128, 128, 128)\<close> and its index in a ramp of ten characters.
\<close>

lemma rd_grey_1: "rd (299 / 1000) = 5386305154335113 / 18014398509481984"
  using rd_eval_neg [where n = 2 and x = "299 / 1000"]
  by (simp add: rne_def Let_def)

lemma rd_grey_2: "rd (5386305154335113 / 140737488355328) = 5386305154335113 / 140737488355328"
  using rd_eval_pos [where n = 5 and x = "5386305154335113 / 140737488355328"]
  by (simp add: rne_def Let_def)

lemma rd_grey_3: "rd (587 / 1000) = 2643612981266481 / 4503599627370496"
  using rd_eval_neg [where n = 1 and x = "587 / 1000"]
  by (simp add: rne_def Let_def)

lemma rd_grey_4: "rd (2643612981266481 / 35184372088832) = 2643612981266481 / 35184372088832"
  using rd_eval_pos [where n = 6 and x = "2643612981266481 / 35184372088832"]
  by (simp add: rne_def Let_def)

lemma rd_grey_5: "rd (15960757079401037 / 140737488355328) = 3990189269850259 / 35184372088832"
  using rd_eval_pos [where n = 6 and x = "15960757079401037 / 140737488355328"]
  by (simp add: rne_def Let_def)

lemma rd_grey_6: "rd (57 / 500) = 8214565720323785 / 72057594037927936"
  using rd_eval_neg [where n = 4 and x = "57 / 500"]
  by (simp add: rne_def Let_def)

lemma rd_grey_7: "rd (8214565720323785 / 562949953421312) = 8214565720323785 / 562949953421312"
  using rd_eval_pos [where n = 3 and x = "8214565720323785 / 562949953421312"]
  by (simp add: rne_def Let_def)

lemma rd_grey_8: "rd (72057594037927929 / 562949953421312) = 9007199254740991 / 70368744177664"
  using rd_eval_pos [where n = 6 and x = "72057594037927929 / 562949953421312"]
  by (simp add: rne_def Let_def)

lemma rd_grey_9: "rd (128 / 255) = 282578800148737 / 562949953421312"
  using rd_eval_neg [where n = 1 and x = "128 / 255"]
  by (simp add: rne_def Let_def)

lemma rd_grey_10: "rd (2543209201338633 / 562949953421312) = 2543209201338633 / 562949953421312"
  using rd_eval_pos [where n = 2 and x = "2543209201338633 / 562949953421312"]
  by (simp add: rne_def Let_def)

text \<open>
  The luminance of the colour \<open>(0, 36, 12)\<close>: the rounded sum is just below 22.5, and the
  luminance is 22.
\<close>

lemma rd_lum_3: "rd (23792516831398329 / 1125899906842624) = 2974064603924791 / 140737488355328"
  using rd_eval_pos [where n = 4 and x = "23792516831398329 / 1125899906842624"]
  by (simp add: rne_def Let_def)

lemma rd_lum_4: "rd (2974064603924791 / 140737488355328) = 2974064603924791 / 140737488355328"
  using rd_eval_pos [where n = 4 and x = "2974064603924791 / 140737488355328"]
  by (simp add: rne_def Let_def)

lemma rd_lum_6: "rd (24643697160971355 / 18014398509481984) = 6160924290242839 / 4503599627370496"
  using rd_eval_pos [where n = 0 and x = "24643697160971355 / 18014398509481984"]
  by (simp add: rne_def Let_def)

lemma rd_lum_7: "rd (101330991615836151 / 4503599627370496) = 6333186975989759 / 281474976710656"
  using rd_eval_pos [where n = 4 and x = "101330991615836151 / 4503599627370496"]
  by (simp add: rne_def Let_def)

lemma luminance_example: "getPixelBrightness (Num 0) (Num 36) (Num 12) = Num 22"
  by (simp add: getPixelBrightness_def lit_def fin_num rd_dyadic rd_grey_1 rd_grey_3 rd_grey_6
      rd_grey_1 rd_grey_3 rd_lum_3 rd_lum_4 rd_grey_6 rd_lum_6 rd_lum_7)

subsection \<open>The optional row count\<close>

lemma collect_length: "collect xs = Inr ys \<Longrightarrow> length ys = length xs"
proof (induction xs arbitrary: ys)
  case Nil
  then show ?case by simp
next
  case (Cons a xs)
  then show ?case
    by (cases a) (auto split: sum.splits)
qed

lemma collect_nth:
  "collect xs = Inr ys \<Longrightarrow> i < length xs \<Longrightarrow> xs ! i = Inr (ys ! i)"
proof (induction xs arbitrary: ys i)
  case Nil
  then show ?case by simp
next
  case (Cons a xs)
  then show ?case
    by (cases a; cases i) (auto split: sum.splits)
qed

lemma ASCII_SETS_no_newline: "ASCII_SETS key = Str chars \<Longrightarrow> 10 \<notin> set chars"
  by (auto simp: ASCII_SETS_def split: if_splits)

lemma str_at_in_set: "str_at s i = Some c \<Longrightarrow> c \<in> set s"
  by (cases i) (auto split: if_splits)

lemma ascii_cell_no_newline:
  assumes "ascii_cell d w options (ASCII_SETS key) iv y x = Inr cell"
  shows "count_list cell 10 = 0"
proof (cases "ASCII_SETS key")
  case (Str chars)
  with assms show ?thesis
    using ASCII_SETS_no_newline [OF Str]
    by (auto simp: ascii_cell_def brightnessToAscii_def Let_def split: option.splits dest: str_at_in_set)
next
  case Obj
  with assms show ?thesis
    by (auto simp: ascii_cell_def brightnessToAscii_def Let_def)
next
  case Undefined
  with assms show ?thesis
    by (simp add: ascii_cell_def brightnessToAscii_def Let_def)
qed

lemma count_list_concat_zero:
  "(\<And>c. c \<in> set cells \<Longrightarrow> count_list c a = 0) \<Longrightarrow> count_list (concat cells) a = 0"
  by (induction cells) simp_all

lemma count_list_concat_one:
  "(\<And>r. r \<in> set rows \<Longrightarrow> count_list r a = 1) \<Longrightarrow> count_list (concat rows) a = length rows"
  by (induction rows) simp_all

lemma render_row_count:
  assumes "render resizedData options (ASCII_SETS key) iv coloured = Inr res"
  shows "row_count res = height resizedData"
proof (cases coloured)
  case True
  with assms show ?thesis
    by (auto simp: render_def Let_def split: sum.splits dest: collect_length)
next
  case False
  let ?w = "width resizedData" and ?h = "height resizedData" and ?d = "data resizedData"
  let ?row = "\<lambda>y. case collect (map (ascii_cell ?d ?w options (ASCII_SETS key) iv y) [0..<?w]) of
                       Inl e \<Rightarrow> Inl e
                     | Inr cells \<Rightarrow> Inr (concat cells @ [10])"
  from assms False obtain rows where rows: "collect (map ?row [0..<?h]) = Inr rows"
    and res: "res = Text (concat rows)"
    by (auto simp: render_def Let_def split: sum.splits)
  have len: "length rows = ?h" using collect_length [OF rows] by simp
  have "count_list r 10 = 1" if "r \<in> set rows" for r
  proof -
    from that obtain y where y: "y < ?h" and r: "r = rows ! y"
      using len by (auto simp: in_set_conv_nth)
    have "?row y = Inr r"
      using collect_nth [OF rows, of y] y r by simp
    then obtain cells where cells: "collect (map (ascii_cell ?d ?w options (ASCII_SETS key) iv y) [0..<?w]) = Inr cells"
      and rr: "r = concat cells @ [10]"
      by (auto split: sum.splits)
    have "count_list c 10 = 0" if "c \<in> set cells" for c
    proof -
      from that obtain x where x: "x < ?w" and c: "c = cells ! x"
        using collect_length [OF cells] by (auto simp: in_set_conv_nth)
      have "ascii_cell ?d ?w options (ASCII_SETS key) iv y x = Inr c"
        using collect_nth [OF cells, of x] x c by simp
      then show ?thesis by (rule ascii_cell_no_newline)
    qed
    then have "count_list (concat cells) 10 = 0" by (rule count_list_concat_zero)
    then show ?thesis by (simp add: rr)
  qed
  then have "count_list (concat rows) 10 = length rows" by (rule count_list_concat_one)
  then show ?thesis by (simp add: res len)
qed

lemma convertToAscii_row_count:
  assumes "convertToAscii imageData options = Inr res"
  shows "row_count res =
     (case snd (calculateDimensions (width imageData) (height imageData)
                  (ConversionOptions.width options) (maintainAspectRatio options)
                  (charAspectRatio options)) of
        Num rows \<Rightarrow> nat \<lfloor>rows\<rfloor> | _ \<Rightarrow> 0)"
  using assms
  by (auto simp: convertToAscii_def Let_def resize_dims split: jsnum.splits if_splits
      dest!: render_row_count)

lemma calculateDimensions_infinite:
  assumes "snd (calculateDimensions W H tw m car) = PosInf \<or> snd (calculateDimensions W H tw m car) = NegInf"
  shows "tw \<noteq> 0"
proof
  assume "tw = 0"
  with assms show False
    by (cases car; cases "W = 0"; cases "H = 0"; cases m; cases "fin (real W / real H)")
       (auto simp: calculateDimensions_def lit_def fin_num rd_dyadic Let_def split: if_splits)
qed

text \<open>
  C9. Two option values that differ only in the field \<open>height\<close> give the same result on
  every image: \<open>convertToAscii\<close> never reads the field. The number of rows of a result is the
  row count that \<open>calculateDimensions\<close> computes from the dimensions of the source, the
  target width, \<open>maintainAspectRatio\<close> and \<open>charAspectRatio\<close> (no row when that count is
  negative or not a number).
\<close>

theorem convertToAscii_ignores_height:
  "convertToAscii imageData (options\<lparr>ConversionOptions.height := h1\<rparr>)
   = convertToAscii imageData (options\<lparr>ConversionOptions.height := h2\<rparr>)
   \<and> (convertToAscii imageData options = Inr res \<longrightarrow>
        row_count res =
          (case snd (calculateDimensions (width imageData) (height imageData)
                       (ConversionOptions.width options) (maintainAspectRatio options)
                       (charAspectRatio options)) of
             Num rows \<Rightarrow> nat \<lfloor>rows\<rfloor> | _ \<Rightarrow> 0))"
  by (simp add: convertToAscii_def Let_def render_height convertToAscii_row_count [unfolded convertToAscii_def Let_def]
      split: jsnum.split)

theorem convertToAscii_ignores_height_witness:
  "convertToAscii \<lparr>data = [128, 128, 128, 255], width = 1, height = 1\<rparr>
     \<lparr>ConversionOptions.width = 1, height = Some (Num 7), asciiSet = ''minimal'', artStyle = ''ascii'',
      maintainAspectRatio = True, fontSize = Num 10, contrast = Num 1, brightness = Num 0,
      charAspectRatio = Num 1, colorScheme = Some ''white-on-black'', useColors = Some False,
      colorPalette = Some ''ansi-16''\<rparr>
   = Inr (Text [61, 10])
   \<and> row_count (Text [61, 10]) = 1"
proof -
  have ev: "convertToAscii \<lparr>data = [128, 128, 128, 255], width = 1, height = 1\<rparr>
     \<lparr>ConversionOptions.width = 1, height = Some (Num 7), asciiSet = ''minimal'', artStyle = ''ascii'',
      maintainAspectRatio = True, fontSize = Num 10, contrast = Num 1, brightness = Num 0,
      charAspectRatio = Num 1, colorScheme = Some ''white-on-black'', useColors = Some False,
      colorPalette = Some ''ansi-16''\<rparr>
   = Inr (Text [61, 10])"
    by (simp add: convertToAscii_def calculateDimensions_def resizeImageData_def resize_pixel_def
        render_def ascii_cell_def getPixelBrightness_def adjustBrightness_def brightnessToAscii_def
        ASCII_SETS_def ta_get_def ta_set_def Let_def replicate4 lit_def fin_num rd_dyadic
        rd_grey_1 rd_grey_2 rd_grey_3 rd_grey_4 rd_grey_5 rd_grey_6 rd_grey_7 rd_grey_8 rd_grey_9 rd_grey_10)
  show ?thesis
    using convertToAscii_ignores_height
      [where imageData = "\<lparr>data = [128, 128, 128, 255], width = 1, height = 1\<rparr>"
         and options = "\<lparr>ConversionOptions.width = 1, height = Some (Num 7), asciiSet = ''minimal'',
      artStyle = ''ascii'', maintainAspectRatio = True, fontSize = Num 10, contrast = Num 1,
      brightness = Num 0, charAspectRatio = Num 1, colorScheme = Some ''white-on-black'',
      useColors = Some False, colorPalette = Some ''ansi-16''\<rparr>"
         and res = "Text [61, 10]"] ev
    by simp
qed

subsection \<open>Unknown selectors\<close>

lemma ASCII_SETS_unknown:
  "key \<notin> set known_ramps \<Longrightarrow> key \<notin> set Object_prototype_keys \<Longrightarrow> ASCII_SETS key = Undefined"
  by (simp add: ASCII_SETS_def known_ramps_def)

lemma ASCII_SETS_known: "(\<exists>chars. ASCII_SETS key = Str chars) \<longleftrightarrow> key \<in> set known_ramps"
  by (auto simp: ASCII_SETS_def known_ramps_def split: if_splits)

lemma ansi_cell_Undefined: "ansi_cell d w options Undefined iv y x = Inl TypeError"
  by (simp add: ansi_cell_def rgbToAnsiPixel_def brightnessToAscii_def Let_def)

lemma ascii_cell_Undefined: "ascii_cell d w options Undefined iv y x = Inl TypeError"
  by (simp add: ascii_cell_def brightnessToAscii_def Let_def)

lemma render_Undefined:
  assumes "1 \<le> width resizedData" "1 \<le> height resizedData"
  shows "render resizedData options Undefined iv coloured = Inl TypeError"
  using assms
  by (simp add: render_def Let_def upt_first ansi_cell_Undefined ascii_cell_Undefined)

lemma unknown_algorithm:
  "a \<notin> set known_algorithms \<Longrightarrow>
   applyDithering rnd imageData \<lparr>algorithm = a, strength = s\<rparr> = Inr imageData"
  by (simp add: applyDithering_def known_algorithms_def)

text \<open>
  C3, as stated: an algorithm or a ramp key outside the known set makes the conversion fail
  with an error, never a silent fallback. For the algorithm this is false: the \<^verbatim>\<open>default\<close>
  branch of the dispatcher returns the input, which is what \<^verbatim>\<open>'none'\<close> does. For the
  ramp it is false when the grid has no row (one column without aspect-ratio preservation
  gives \<open>floor(0.5) = 0\<close> rows): the ramp is never used and the result is the empty text.
\<close>

theorem unknown_algorithm_falls_back:
  "''bogus'' \<notin> set known_algorithms
   \<and> applyDithering (\<lambda>k. 0) \<lparr>data = [100, 100, 100, 255], width = 1, height = 1\<rparr>
        \<lparr>algorithm = ''bogus'', strength = Num 1\<rparr>
      = Inr \<lparr>data = [100, 100, 100, 255], width = 1, height = 1\<rparr>
   \<and> ''bogus'' \<notin> set known_ramps
   \<and> convertToAscii \<lparr>data = [100, 100, 100, 255], width = 1, height = 1\<rparr>
        \<lparr>ConversionOptions.width = 1, height = None, asciiSet = ''bogus'', artStyle = ''ascii'',
         maintainAspectRatio = False, fontSize = Num 10, contrast = Num 1, brightness = Num 0,
         charAspectRatio = Num (1 / 2), colorScheme = Some ''white-on-black'',
         useColors = Some False, colorPalette = Some ''ansi-16''\<rparr>
      = Inr (Text [])"
  by (simp add: known_algorithms_def known_ramps_def applyDithering_def convertToAscii_def
      calculateDimensions_def resizeImageData_def render_def Let_def lit_def fin_num rd_dyadic)

text \<open>
  C3, amended: for an algorithm outside the known set \<open>applyDithering\<close> raises nothing and
  returns the input image unchanged, as it does for \<^verbatim>\<open>'none'\<close>. For a ramp key that is
  neither a known key nor a property name that every object inherits, \<open>convertToAscii\<close> raises
  a TypeError whenever the output grid has at least one column and one row; there is no
  default ramp.
\<close>

theorem unknown_selector_behaviour:
  "(a \<notin> set known_algorithms \<longrightarrow>
      applyDithering rnd imageData \<lparr>algorithm = a, strength = s\<rparr> = Inr imageData)
   \<and> (asciiSet options \<notin> set known_ramps \<and> asciiSet options \<notin> set Object_prototype_keys
       \<and> calculateDimensions (width imageData) (height imageData) (ConversionOptions.width options)
            (maintainAspectRatio options) (charAspectRatio options) = (cols, Num rows)
       \<and> 1 \<le> cols \<and> 1 \<le> rows \<longrightarrow>
      convertToAscii imageData options = Inl TypeError)"
proof (intro conjI impI)
  assume "a \<notin> set known_algorithms"
  then show "applyDithering rnd imageData \<lparr>algorithm = a, strength = s\<rparr> = Inr imageData"
    by (rule unknown_algorithm)
next
  assume h: "asciiSet options \<notin> set known_ramps \<and> asciiSet options \<notin> set Object_prototype_keys
       \<and> calculateDimensions (width imageData) (height imageData) (ConversionOptions.width options)
            (maintainAspectRatio options) (charAspectRatio options) = (cols, Num rows)
       \<and> 1 \<le> cols \<and> 1 \<le> rows"
  then have u: "ASCII_SETS (asciiSet options) = Undefined"
    by (simp add: ASCII_SETS_unknown)
  from h have r: "1 \<le> nat \<lfloor>rows\<rfloor>" "\<not> rows < 0"
    by linarith+
  from h have c: "1 \<le> cols" by simp
  have "render (resizeImageData imageData cols (nat \<lfloor>rows\<rfloor>)) options Undefined iv coloured
        = Inl TypeError" for iv coloured
    using r c by (intro render_Undefined) (simp_all add: resize_dims)
  with h u r show "convertToAscii imageData options = Inl TypeError"
    by (simp add: convertToAscii_def Let_def)
qed

theorem unknown_selector_behaviour_witness:
  "''dither'' \<notin> set known_algorithms
   \<and> applyDithering (\<lambda>k. 0) \<lparr>data = [7, 7, 7, 255], width = 1, height = 1\<rparr>
        \<lparr>algorithm = ''dither'', strength = Num 1\<rparr>
      = Inr \<lparr>data = [7, 7, 7, 255], width = 1, height = 1\<rparr>
   \<and> convertToAscii \<lparr>data = [7, 7, 7, 255], width = 1, height = 1\<rparr>
        \<lparr>ConversionOptions.width = 1, height = None, asciiSet = ''default'', artStyle = ''ascii'',
         maintainAspectRatio = True, fontSize = Num 10, contrast = Num 1, brightness = Num 0,
         charAspectRatio = Num 1, colorScheme = Some ''white-on-black'', useColors = Some False,
         colorPalette = Some ''ansi-16''\<rparr>
      = Inl TypeError"
  using unknown_selector_behaviour
    [of "''dither''" "\<lambda>k. 0" "\<lparr>data = [7, 7, 7, 255], width = 1, height = 1\<rparr>" "Num 1"
        "\<lparr>ConversionOptions.width = 1, height = None, asciiSet = ''default'', artStyle = ''ascii'',
         maintainAspectRatio = True, fontSize = Num 10, contrast = Num 1, brightness = Num 0,
         charAspectRatio = Num 1, colorScheme = Some ''white-on-black'', useColors = Some False,
         colorPalette = Some ''ansi-16''\<rparr>" 1 1]
  by (simp add: known_algorithms_def known_ramps_def Object_prototype_keys_def
      calculateDimensions_def Let_def fin_num rd_dyadic)

subsection \<open>The brightness ratio of the coloured path\<close>

lemma times_NaN [simp]: "x * NaN = NaN" "NaN * x = NaN"
  by (cases x; simp)+

lemma plus_NaN [simp]: "x + NaN = NaN" "NaN + x = NaN"
  by (cases x; simp)+

lemma findClosestAnsiColor_NaN: "findClosestAnsiColor NaN NaN NaN ANSI_16_COLORS = 0"
  by (simp add: findClosestAnsiColor_def ANSI_16_COLORS_def closest_step_def color_distance_def
      upt_rec Let_def)

lemma rgbToAnsiPixel_NaN:
  "rgbToAnsiPixel NaN NaN NaN (ASCII_SETS ''minimal'') True (Some ''ansi-16'') False
   = Inr \<lparr>char = None, fgColor = Some 0, bgColor = None, rgb = Some (NaN, NaN, NaN)\<rparr>"
  by (simp add: rgbToAnsiPixel_def findClosestAnsiColor_NaN getPixelBrightness_def
      brightnessToAscii_def ASCII_SETS_def Math_max_def Math_min_def Let_def)

lemma black_luminance: "getPixelBrightness (Num 0) (Num 0) (Num 0) = Num 0"
  by (simp add: getPixelBrightness_def lit_def fin_num rd_grey_1 rd_grey_3 rd_grey_6)

lemma black_adjusted: "adjustBrightness (Num 0) (Num 1) (Num 10) = Num 10"
  by (simp add: adjustBrightness_def Let_def fin_num rd_dyadic)

lemma black_factor: "brightnessFactor (Num 10) (Num 0) = PosInf"
  by (simp add: brightnessFactor_def js_or_def)

lemma black_rescale: "rescale (Num 0) PosInf = NaN"
  by (simp add: rescale_def Math_max_def Math_min_def)

lemma black_dimensions: "calculateDimensions 1 1 1 True (Num 1) = (1, Num 1)"
  by (simp add: calculateDimensions_def Let_def fin_num rd_dyadic)

lemma black_resized:
  "resizeImageData \<lparr>data = [0, 0, 0, 255], width = 1, height = 1\<rparr> 1 1
   = \<lparr>data = [0, 0, 0, 255], width = 1, height = 1\<rparr>"
  by (simp add: resizeImageData_def resize_pixel_def ta_set_def ta_get_def Let_def replicate4 fin_num rd_dyadic)

text \<open>
  C8. The claim is that a pixel of luminance 0 is rescaled by the ratio 1, for every
  contrast and brightness. The guard of the code is \<^verbatim>\<open>adjusted / avg || 1\<close>, which
  replaces only \<^verbatim>\<open>NaN\<close> and 0. For a black pixel with contrast 1 and brightness 10 the
  adjusted luminance is 10, the ratio \<open>10 / 0\<close> is infinite and is kept, each channel
  \<open>0 * Infinity\<close> becomes \<^verbatim>\<open>NaN\<close>, and the cell that the conversion returns has no
  character. Nothing is raised.
\<close>

theorem black_pixel_ratio_is_infinite:
  "getPixelBrightness (Num 0) (Num 0) (Num 0) = Num 0
   \<and> brightnessFactor (adjustBrightness (Num 0) (Num 1) (Num 10)) (Num 0) = PosInf
   \<and> rescale (Num 0) PosInf = NaN
   \<and> convertToAscii \<lparr>data = [0, 0, 0, 255], width = 1, height = 1\<rparr>
        \<lparr>ConversionOptions.width = 1, height = None, asciiSet = ''minimal'', artStyle = ''ansi'',
         maintainAspectRatio = True, fontSize = Num 10, contrast = Num 1, brightness = Num 10,
         charAspectRatio = Num 1, colorScheme = Some ''white-on-black'', useColors = Some True,
         colorPalette = Some ''ansi-16''\<rparr>
      = Inr (Pixels [[\<lparr>char = None, fgColor = Some 0, bgColor = None,
                       rgb = Some (NaN, NaN, NaN)\<rparr>]])"
  by (simp add: convertToAscii_def black_dimensions[simplified] black_resized[simplified]
      render_def ansi_cell_def black_luminance black_adjusted black_factor black_rescale
      rgbToAnsiPixel_NaN ta_get_def Let_def)

subsection \<open>Dimensions\<close>

text \<open>
  The quotients of the two examples below: a source of 3 by 17 at 21 columns, and a source
  of 80 by 58 at 80 columns.
\<close>

lemma rd_rows_1: "rd (3 / 17) = 6358023003346583 / 36028797018963968"
  using rd_eval_neg [where n = 3 and x = "3 / 17"]
  by (simp add: rne_def Let_def)

lemma rd_rows_2: "rd (756604737398243328 / 6358023003346583) = 8373880557142015 / 70368744177664"
  using rd_eval_pos [where n = 6 and x = "756604737398243328 / 6358023003346583"]
  by (simp add: rne_def Let_def)

lemma rd_rows_3: "rd (8373880557142015 / 70368744177664) = 8373880557142015 / 70368744177664"
  using rd_eval_pos [where n = 6 and x = "8373880557142015 / 70368744177664"]
  by (simp add: rne_def Let_def)

lemma rd_rows_4: "rd (40 / 29) = 1552965388748447 / 1125899906842624"
  using rd_eval_pos [where n = 0 and x = "40 / 29"]
  by (simp add: rne_def Let_def)

lemma rd_rows_5: "rd (90071992547409920 / 1552965388748447) = 8162774324609023 / 140737488355328"
  using rd_eval_pos [where n = 5 and x = "90071992547409920 / 1552965388748447"]
  by (simp add: rne_def Let_def)

lemma rd_rows_6: "rd (8162774324609023 / 281474976710656) = 8162774324609023 / 281474976710656"
  using rd_eval_pos [where n = 4 and x = "8162774324609023 / 281474976710656"]
  by (simp add: rne_def Let_def)

text \<open>A source of 27 by 20 at 3 columns and the ratio 0.45.\<close>

lemma rd_rows0_1: "rd (9 / 20) = 8106479329266893 / 18014398509481984"
  using rd_eval_neg [where n = 2 and x = "9 / 20"]
  by (simp add: rne_def Let_def)

lemma rd_rows0_2: "rd (27 / 20) = 3039929748475085 / 2251799813685248"
  using rd_eval_pos [where n = 0 and x = "27 / 20"]
  by (simp add: rne_def Let_def)

lemma rd_rows0_3: "rd (6755399441055744 / 3039929748475085) = 5003999585967217 / 2251799813685248"
  using rd_eval_pos [where n = 1 and x = "6755399441055744 / 3039929748475085"]
  by (simp add: rne_def Let_def)

lemma rd_rows0_4: "rd (40564819207303335543654941446781 / 40564819207303340847894502572032) = 9007199254740991 / 9007199254740992"
  using rd_eval_neg [where n = 1 and x = "40564819207303335543654941446781 / 40564819207303340847894502572032"]
  by (simp add: rne_def Let_def)


text \<open>
  The two quotients and the product are rounded one after the other, so the row count can be
  one less than the floor of the exact value: for a source of 3 by 17 and 21 columns at the
  ratio 1 the exact value is 119 and the quotient \<open>21 / (3 / 17)\<close> of the program is just
  below it, which gives 118 rows; a source of 80 by 58 at 80 columns and the ratio 0.5 gives
  28 rows where the exact value is 29; a source of 27 by 20 at 3 columns and the ratio 0.45
  gives no row.
\<close>

lemma rows_in_exact_arithmetic:
  "\<lfloor>(21 / (3 / 17)) * (1::real)\<rfloor> = 119"
  "\<lfloor>(80 / (80 / 58)) * (1 / 2 :: real)\<rfloor> = 29"
  by simp_all


subsection \<open>Ramp indexing\<close>

text \<open>
  The roundings of three examples: the brightness 2 to the power -46 under inversion (the
  difference \<open>255 - b\<close> rounds to 255), the brightness 155 on a ramp of 52 characters, and
  the brightness 128 on a ramp of ten.
\<close>

lemma rd_ramp_1: "rd (17944029765304319 / 70368744177664) = 255"
  using rd_eval_pos [where n = 7 and x = "17944029765304319 / 70368744177664"]
  by (simp add: rne_def Let_def)

lemma rd_ramp_2: "rd (31 / 51) = 5474964252881779 / 9007199254740992"
  using rd_eval_neg [where n = 1 and x = "31 / 51"]
  by (simp add: rne_def Let_def)

lemma rd_ramp_3: "rd (279223176896970729 / 9007199254740992) = 8725724278030335 / 281474976710656"
  using rd_eval_pos [where n = 4 and x = "279223176896970729 / 9007199254740992"]
  by (simp add: rne_def Let_def)

lemma ramp_index_parts:
  assumes "1 \<le> n" and "n \<le> 2 ^ 53"
    and c_def: "c = (if invert then rd (255 - max 0 (min 255 b)) else max 0 (min 255 b))"
  shows "0 \<le> c" "c \<le> 255" "0 \<le> rd (c / 255)" "rd (c / 255) \<le> 1"
    "is_double (real n - 1)" "0 \<le> real n - 1"
    "0 \<le> rd (rd (c / 255) * (real n - 1))" "rd (rd (c / 255) * (real n - 1)) \<le> real n - 1"
proof -
  have d255: "is_double 255" using is_double_nat [of 255] by simp
  have d1: "is_double 1" using is_double_nat [of 1] by simp
  have b: "0 \<le> max 0 (min 255 b)" "max 0 (min 255 b) \<le> 255" by auto
  have "0 \<le> rd (255 - max 0 (min 255 b))"
    using b by (intro rd_nonneg) simp
  moreover have "\<bar>rd (255 - max 0 (min 255 b))\<bar> \<le> 255"
    using b by (intro rd_bounded d255) simp
  ultimately show c: "0 \<le> c" "c \<le> 255"
    using b by (auto simp: c_def)
  show q0: "0 \<le> rd (c / 255)"
    using c by (intro rd_nonneg) simp
  have "\<bar>rd (c / 255)\<bar> \<le> 1"
    using c by (intro rd_bounded d1) simp
  then show q1: "rd (c / 255) \<le> 1" by simp
  have n1: "real n - 1 = real (n - 1)" using assms(1) by simp
  show dn: "is_double (real n - 1)"
    unfolding n1 using assms(2) by (intro is_double_nat) simp
  show nn: "0 \<le> real n - 1" using assms(1) by simp
  show "0 \<le> rd (rd (c / 255) * (real n - 1))"
    using q0 nn by (intro rd_nonneg) simp
  have "rd (c / 255) * (real n - 1) \<le> 1 * (real n - 1)"
    using q1 nn by (rule mult_right_mono)
  then have "\<bar>rd (c / 255) * (real n - 1)\<bar> \<le> real n - 1"
    using q0 nn by (simp add: abs_mult)
  then have "\<bar>rd (rd (c / 255) * (real n - 1))\<bar> \<le> real n - 1"
    using dn by (rule rd_bounded)
  then show "rd (rd (c / 255) * (real n - 1)) \<le> real n - 1" by simp
qed

lemma ramp_index_bounds:
  assumes "1 \<le> n" and "n \<le> 2 ^ 53"
  shows "0 \<le> ramp_index b n invert" "ramp_index b n invert < int n"
proof -
  define c where "c = (if invert then rd (255 - max 0 (min 255 b)) else max 0 (min 255 b))"
  note p = ramp_index_parts [OF assms c_def]
  have ri: "ramp_index b n invert = \<lfloor>rd (rd (c / 255) * (real n - 1))\<rfloor>"
    by (simp add: ramp_index_def c_def)
  show "0 \<le> ramp_index b n invert"
    unfolding ri using p(7) by simp
  have "rd (rd (c / 255) * (real n - 1)) < real n"
    using p(8) by linarith
  then show "ramp_index b n invert < int n"
    unfolding ri by (simp add: floor_less_iff)
qed

lemma brightnessToAscii_index:
  assumes "1 \<le> length ramp" and "length ramp \<le> 2 ^ 53"
  shows "brightnessToAscii (Num b) (Str ramp) invert
         = Inr (str_at ramp (Num (of_int (ramp_index b (length ramp) invert))))"
proof -
  let ?n = "length ramp"
  define c where "c = (if invert then rd (255 - max 0 (min 255 b)) else max 0 (min 255 b))"
  note p = ramp_index_parts [OF assms c_def]
  have big: "(255::real) \<le> 2 ^ 1023" "(1::real) \<le> 2 ^ 1023" by simp_all
  have nb: "real ?n \<le> 2 ^ 1023"
  proof -
    have "real ?n \<le> real (2 ^ 53)"
      using assms(2) by (rule of_nat_mono)
    also have "\<dots> \<le> 2 ^ 1023" by simp
    finally show ?thesis .
  qed
  have e1: "(if invert then Num 255 - Num (max 0 (min 255 b)) else Num (max 0 (min 255 b))) = Num c"
  proof (cases invert)
    case True
    have "\<bar>255 - max 0 (min 255 b)\<bar> \<le> 2 ^ 1023"
      using big(1) by (auto simp: abs_if)
    then show ?thesis
      using True by (simp add: c_def fin_small)
  next
    case False
    then show ?thesis by (simp add: c_def)
  qed
  have "\<bar>c / 255\<bar> \<le> 2 ^ 1023"
    using p(1,2) big(2) by simp
  then have e2: "Num c / Num 255 = Num (rd (c / 255))"
    by (simp add: fin_small)
  have "\<bar>real ?n - 1\<bar> \<le> 2 ^ 1023"
    using p(6) nb by simp
  with p(5) have e3: "Num (real ?n) - Num 1 = Num (real ?n - 1)"
    by (simp add: fin_exact)
  have "rd (c / 255) * (real ?n - 1) \<le> 1 * (real ?n - 1)"
    using p(4,6) by (rule mult_right_mono)
  then have "\<bar>rd (c / 255) * (real ?n - 1)\<bar> \<le> 2 ^ 1023"
    using p(3,6) nb by (simp add: abs_mult)
  then have e4: "Num (rd (c / 255)) * Num (real ?n - 1) = Num (rd (rd (c / 255) * (real ?n - 1)))"
    by (simp add: fin_small)
  have ri: "ramp_index b ?n invert = \<lfloor>rd (rd (c / 255) * (real ?n - 1))\<rfloor>"
    by (simp add: ramp_index_def c_def)
  show ?thesis
    unfolding brightnessToAscii_def Let_def Math_min_Num Math_max_Num e1 ri
    by (simp only: js_ramp.case e2 e3 e4 Math_floor.simps)
qed


text \<open>
  The luminance 43 at the contrast 1.4 and the brightness -9: the product \<open>(43 - 128) * 1.4\<close>
  rounds to the double just above -119, and the adjusted luminance is 2 to the power -46.
\<close>

lemma rd_adj_1: "rd (7 / 5) = 3152519739159347 / 2251799813685248"
  using rd_eval_pos [where n = 0 and x = "7 / 5"]
  by (simp add: rne_def Let_def)

lemma rd_adj_2: "rd (- (267964177828544495 / 2251799813685248)) = - (8373880557142015 / 70368744177664)"
  using rd_eval_pos [where n = 6 and x = "- (267964177828544495 / 2251799813685248)"]
  by (simp add: rne_def Let_def)

lemma rd_adj_3: "rd (633318697598977 / 70368744177664) = 633318697598977 / 70368744177664"
  using rd_eval_pos [where n = 3 and x = "633318697598977 / 70368744177664"]
  by (simp add: rne_def Let_def)

lemma rd_adj_4: "rd (1 / 70368744177664) = 1 / 70368744177664"
  using rd_eval_neg [where n = 46 and x = "1 / 70368744177664"]
  by (simp add: rne_def Let_def)

lemma adjustBrightness_example:
  "adjustBrightness (Num 43) (lit (14 / 10)) (Num (- 9)) = Num (1 / 2 ^ 46)"
  by (simp add: adjustBrightness_def lit_def Let_def fin_num rd_dyadic rd_adj_1 rd_adj_2 rd_adj_3 rd_adj_4)

text \<open>
  Examples: a brightness above and below the range, the middle grey, full brightness under
  inversion; the brightness 2 to the power -46 under inversion, where the rounded difference
  is 255 and the index is 9 (8 in exact arithmetic); and the brightness 155 on a ramp of 52
  characters, where the rounded quotient gives the index 30 (31 in exact arithmetic).
\<close>

lemma index_in_exact_arithmetic:
  "\<lfloor>((255 - 1 / 2 ^ 46) / 255) * (10 - 1 :: real)\<rfloor> = 8"
  "\<lfloor>(155 / 255) * (52 - 1 :: real)\<rfloor> = 31"
  by simp_all


subsection \<open>Ordered dithering\<close>

lemma threshold_channel_upd:
  "threshold_channel t w x y d c
   = d[(y * w + x) * 4 + c := thresh_byte t (d ! ((y * w + x) * 4 + c))]"
proof (cases "(y * w + x) * 4 + c < length d")
  case True
  then show ?thesis
    by (simp add: threshold_channel_def ta_get_def ta_set_def thresh_byte_def Let_def)
next
  case False
  then have "length d \<le> (y * w + x) * 4 + c" by simp
  then show ?thesis
    by (simp only: threshold_channel_def ta_set_def Let_def list_update_beyond)
qed

lemma threshold_pixel_nth:
  assumes "i < length d"
  shows "foldl (threshold_channel t w x y) d [0, 1, 2] ! i
         = (if i div 4 = y * w + x \<and> i mod 4 < 3 then thresh_byte t (d ! i) else d ! i)"
proof -
  have "i div 4 = y * w + x \<and> i mod 4 < 3
        \<longleftrightarrow> i = (y * w + x) * 4 \<or> i = (y * w + x) * 4 + 1 \<or> i = (y * w + x) * 4 + 2"
    by presburger
  then show ?thesis
    using assms by (auto simp: threshold_channel_upd nth_list_update)
qed

lemma threshold_pixel_length:
  "length (foldl (threshold_channel t w x y) d [0, 1, 2]) = length d"
  by (simp add: threshold_channel_upd)

lemma threshold_raster:
  "length (raster w h (\<lambda>x y. threshold_channel (T x y) w x y) d) = length d"
  "i < length d \<Longrightarrow>
   raster w h (\<lambda>x y. threshold_channel (T x y) w x y) d ! i
   = (if i div 4 < h * w \<and> i mod 4 < 3
      then thresh_byte (T ((i div 4) mod w) ((i div 4) div w)) (d ! i) else d ! i)"
  using grid_fold [where step = "\<lambda>y d x. foldl (threshold_channel (T x y) w x y) d [0, 1, 2]"
      and w = w and h = h and d = d and Q = "\<lambda>c. c < 3" and F = "\<lambda>x y c. thresh_byte (T x y)",
      OF threshold_pixel_length threshold_pixel_nth]
  by (simp_all add: raster_def)

lemma threshold_raster_at:
  assumes len: "length d = w * h * 4" and x: "x < w" and y: "y < h" and c: "c < 4"
  shows "raster w h (\<lambda>x y. threshold_channel (T x y) w x y) d ! ((y * w + x) * 4 + c)
         = (if c < 3 then thresh_byte (T x y) (d ! ((y * w + x) * 4 + c))
            else d ! ((y * w + x) * 4 + c))"
proof -
  define i where "i = (y * w + x) * 4 + c"
  have i: "i < length d"
    unfolding i_def len by (rule pixel_index_bound(1) [OF x y c])
  have dv: "i div 4 = y * w + x" and md: "i mod 4 = c"
    unfolding i_def by (rule pixel_index_arith [OF x c])+
  have xy: "(i div 4) mod w = x" "(i div 4) div w = y" "i div 4 < h * w"
    unfolding dv using pixel_index_arith(3,4) [OF x c] pixel_index_bound(2) [OF x y c]
    by simp_all
  show ?thesis
    unfolding i_def [symmetric] using threshold_raster(2) [OF i, of w h T] xy md by simp
qed

text \<open>
  The roundings of the example below: the matrix value 10 of the 4 by 4 matrix at the
  strength 0.3, where \<open>10 / 15\<close>, the product by 255 and the product by the strength give
  the threshold 51 exactly (the exact product with the double nearest to 0.3 is below 51).
\<close>

lemma rd_thr_1: "rd (3 / 10) = 5404319552844595 / 18014398509481984"
  using rd_eval_neg [where n = 2 and x = "3 / 10"]
  by (simp add: rne_def Let_def)

lemma rd_thr_2: "rd (2 / 3) = 6004799503160661 / 9007199254740992"
  using rd_eval_neg [where n = 1 and x = "2 / 3"]
  by (simp add: rne_def Let_def)

lemma rd_thr_3: "rd (1531223873305968555 / 9007199254740992) = 170"
  using rd_eval_pos [where n = 7 and x = "1531223873305968555 / 9007199254740992"]
  by (simp add: rne_def Let_def)

lemma rd_thr_4: "rd (459367161991790575 / 9007199254740992) = 51"
  using rd_eval_pos [where n = 5 and x = "459367161991790575 / 9007199254740992"]
  by (simp add: rne_def Let_def)

lemma ordered_threshold_output:
  "thresh_byte (ordered_threshold matrix s x y) v
   = ordered_output matrix s v (x mod length matrix) (y mod length matrix)"
proof -
  have cast: "real_of_int (int (length matrix) * int (length matrix) - 1) = real (length matrix) ^ 2 - 1"
    by (simp add: power2_eq_square)
  show ?thesis
    unfolding ordered_threshold_def thresh_byte_def ordered_output_def Let_def cast ..
qed


text \<open>
  Examples. With the 2x2 matrix and the strength 1, the first pixel has the threshold 0 and
  its byte 100 becomes 255; the alpha byte stays. With the 4x4 matrix and the strength 0.3,
  the fourth pixel of the first row has the matrix value 10 and the threshold 51: a byte 51
  is not greater and becomes 0.
\<close>

lemma threshold_in_exact_arithmetic:
  "(10 / 15) * 255 * (5404319552844595 / 18014398509481984) < (51::real)"
  by simp


subsection \<open>Resampling\<close>

lemma resize_pixel_upd:
  "resize_pixel imageData tw sx sy y d x
   = d[(y * tw + x) * 4 := source_byte imageData sx sy x y 0,
       (y * tw + x) * 4 + 1 := source_byte imageData sx sy x y 1,
       (y * tw + x) * 4 + 2 := source_byte imageData sx sy x y 2,
       (y * tw + x) * 4 + 3 := source_byte imageData sx sy x y 3]"
  by (simp add: resize_pixel_def source_byte_def ta_set_def Let_def)

lemma resize_pixel_length: "length (resize_pixel imageData tw sx sy y d x) = length d"
  by (simp add: resize_pixel_upd)

lemma resize_pixel_nth:
  assumes "i < length d"
  shows "resize_pixel imageData tw sx sy y d x ! i
         = (if i div 4 = y * tw + x \<and> True then source_byte imageData sx sy x y (i mod 4) else d ! i)"
proof -
  define p where "p = y * tw + x"
  have upd: "resize_pixel imageData tw sx sy y d x
   = d[p * 4 := source_byte imageData sx sy x y 0,
       p * 4 + 1 := source_byte imageData sx sy x y 1,
       p * 4 + 2 := source_byte imageData sx sy x y 2,
       p * 4 + 3 := source_byte imageData sx sy x y 3]"
    unfolding p_def by (rule resize_pixel_upd)
  show ?thesis
  proof (cases "i div 4 = p")
    case True
    then have i: "i = p * 4 + i mod 4" by presburger
    have "i mod 4 < 4" by simp
    then consider "i mod 4 = 0" | "i mod 4 = 1" | "i mod 4 = 2" | "i mod 4 = 3"
      by linarith
    then have "d[p * 4 := source_byte imageData sx sy x y 0,
       p * 4 + 1 := source_byte imageData sx sy x y 1,
       p * 4 + 2 := source_byte imageData sx sy x y 2,
       p * 4 + 3 := source_byte imageData sx sy x y 3] ! i = source_byte imageData sx sy x y (i mod 4)"
    proof cases
      case 1
      with i have "i = p * 4" by simp
      with assms 1 show ?thesis by (simp add: nth_list_update)
    next
      case 2
      with i have "i = p * 4 + 1" by simp
      with assms 2 show ?thesis by (simp add: nth_list_update)
    next
      case 3
      with i have "i = p * 4 + 2" by simp
      with assms 3 show ?thesis by (simp add: nth_list_update)
    next
      case 4
      with i have "i = p * 4 + 3" by simp
      with assms 4 show ?thesis by (simp add: nth_list_update)
    qed
    with True show ?thesis unfolding upd p_def by simp
  next
    case False
    then have "i \<noteq> p * 4" "i \<noteq> p * 4 + 1" "i \<noteq> p * 4 + 2" "i \<noteq> p * 4 + 3"
      by presburger+
    with False show ?thesis unfolding upd p_def [symmetric] by (simp add: nth_list_update)
  qed
qed

lemma resize_data:
  "length (data (resizeImageData imageData tw th)) = tw * th * 4"
  "i < tw * th * 4 \<Longrightarrow>
   data (resizeImageData imageData tw th) ! i
   = source_byte imageData (Num (real (width imageData)) / Num (real tw))
       (Num (real (height imageData)) / Num (real th)) ((i div 4) mod tw) ((i div 4) div tw) (i mod 4)"
proof -
  let ?sx = "Num (real (width imageData)) / Num (real tw)"
  let ?sy = "Num (real (height imageData)) / Num (real th)"
  note g = grid_fold [where step = "resize_pixel imageData tw ?sx ?sy" and w = tw and h = th
      and d = "replicate (tw * th * 4) 0" and Q = "\<lambda>c. True"
      and F = "\<lambda>x y c v. source_byte imageData ?sx ?sy x y c",
      OF resize_pixel_length resize_pixel_nth]
  show "length (data (resizeImageData imageData tw th)) = tw * th * 4"
    using g by (simp add: resizeImageData_def Let_def)
  assume i: "i < tw * th * 4"
  then have "i div 4 < th * tw" by (simp add: mult.commute less_mult_imp_div_less)
  then show "data (resizeImageData imageData tw th) ! i
   = source_byte imageData ?sx ?sy ((i div 4) mod tw) ((i div 4) div tw) (i mod 4)"
    using g i by (simp add: resizeImageData_def Let_def)
qed


lemma ta_read_nat [simp]: "ta_read d (Num (real n)) = ta_get d n"
  by simp

lemma times_nat:
  assumes "a * b \<le> 2 ^ 53"
  shows "Num (real a) * Num (real b) = Num (real (a * b))"
  using fin_nat [OF assms] by simp

lemma plus_nat:
  assumes "a + b \<le> 2 ^ 53"
  shows "Num (real a) + Num (real b) = Num (real (a + b))"
  using fin_nat [OF assms] by simp

text \<open>The scale factor and the scaled coordinate are finite, and the floor is a natural number.\<close>

lemma scaled_coordinate_floor:
  assumes x: "x < t" and t: "t \<le> 2 ^ 51" and n: "n \<le> 2 ^ 53"
  shows "Math_floor (Num (real x) * (Num (real n) / Num (real t)))
         = Num (real (scaled_coordinate n t x))"
proof -
  have tp: "0 < real t" using x by simp
  have nb: "real n \<le> 2 ^ 53"
    using of_nat_mono [OF n, where ?'a = real] by simp
  have tb: "real t \<le> 2 ^ 51"
    using of_nat_mono [OF t, where ?'a = real] by simp
  have one: "1 \<le> real t" using x by simp
  have "real n / real t \<le> real n / 1"
    using one by (intro divide_left_mono) simp_all
  then have q: "0 \<le> real n / real t" "real n / real t \<le> real n"
    by simp_all
  have "\<bar>real n / real t\<bar> \<le> real n" using q by simp
  then have s: "\<bar>rd (real n / real t)\<bar> \<le> real n"
    using is_double_nat [OF n] by (rule rd_bounded)
  have s0: "0 \<le> rd (real n / real t)"
    using q(1) by (rule rd_nonneg)
  have "\<bar>real n / real t\<bar> \<le> 2 ^ 1023"
    using q nb by simp
  then have e1: "Num (real n) / Num (real t) = Num (rd (real n / real t))"
    using tp by (simp add: fin_small)
  have "real x * rd (real n / real t) \<le> 2 ^ 51 * 2 ^ 53"
    using x tb s s0 nb by (intro mult_mono) simp_all
  then have "\<bar>real x * rd (real n / real t)\<bar> \<le> 2 ^ 1023"
    using s0 by (simp add: abs_mult)
  then have e2: "Num (real x) * Num (rd (real n / real t)) = Num (rd (real x * rd (real n / real t)))"
    by (simp add: fin_small)
  have "0 \<le> rd (real x * rd (real n / real t))"
    using s0 by (intro rd_nonneg) simp
  then have "0 \<le> \<lfloor>rd (real x * rd (real n / real t))\<rfloor>" by simp
  then show ?thesis
    unfolding e1 e2 scaled_coordinate_def by simp
qed

text \<open>
  The scaled coordinate is inside the source: the two roundings add a relative error of
  at most 2 to the power -52, which the distance of \<open>x / t\<close> from 1 outweighs.
\<close>

lemma scaled_coordinate_bound:
  assumes x: "x < t" and t: "t \<le> 2 ^ 51" and n: "0 < n"
  shows "scaled_coordinate n t x < n"
proof (cases "x = 0")
  case True
  then show ?thesis using n by (simp add: scaled_coordinate_def)
next
  case False
  define a where "a = real n / real t"
  define s where "s = rd a"
  define p where "p = real x * s"
  define e :: real where "e = 1 / 2 ^ 53"
  define c :: real where "c = 1 + 1 / 2 ^ 51"
  have e: "0 < e" "e \<le> 1 / 2" "(1 + e) * (1 + e) \<le> c"
    by (simp_all add: e_def c_def)
  have c0: "0 < c" by (simp add: c_def)
  have tp: "0 < real t" using x by simp
  have tb: "real t \<le> 2 ^ 51"
    using of_nat_mono [OF t, where ?'a = real] by simp
  have np: "1 \<le> real n" using n by simp
  have tiny: "(2::real) powr (- 1022) \<le> 1 / 2 ^ 52"
    by (simp add: powr_minus_divide)
  have "1 / 2 ^ 51 \<le> 1 / real t"
    using tp tb by (intro divide_left_mono) simp_all
  also have "\<dots> \<le> real n / real t"
    using np tp by (intro divide_right_mono) simp_all
  finally have a51: "1 / 2 ^ 51 \<le> a" unfolding a_def .
  have "(0::real) < 1 / 2 ^ 51" by simp
  with a51 have a0: "0 < a" by linarith
  have "2 powr (- 1022) \<le> \<bar>a\<bar>"
    using tiny a51 by simp
  then have "\<bar>rd a - a\<bar> \<le> \<bar>a\<bar> / 2 ^ 53"
    by (rule rd_rel_error)
  then have sa: "\<bar>s - a\<bar> \<le> a * e"
    using a0 by (simp add: s_def e_def)
  have s_hi: "s \<le> a * (1 + e)" and s_lo: "a * (1 - e) \<le> s"
    using sa by (simp_all add: algebra_simps abs_le_iff)
  have "a * (1 / 2) \<le> a * (1 - e)"
    using a0 e by (intro mult_left_mono) simp_all
  then have s_half: "a / 2 \<le> s" using s_lo by simp
  have s0: "0 < s" using s_half a0 by linarith
  have x1: "1 \<le> real x" using False by simp
  have "1 / 2 ^ 52 \<le> a / 2" using a51 by simp
  also have "\<dots> \<le> s" by (rule s_half)
  also have "\<dots> = 1 * s" by simp
  also have "\<dots> \<le> p"
    unfolding p_def using x1 s0 by (intro mult_right_mono) simp_all
  finally have p52: "1 / 2 ^ 52 \<le> p" .
  have "(0::real) < 1 / 2 ^ 52" by simp
  with p52 have p0: "0 < p" by linarith
  have "2 powr (- 1022) \<le> \<bar>p\<bar>"
    using tiny p52 by simp
  then have "\<bar>rd p - p\<bar> \<le> \<bar>p\<bar> / 2 ^ 53"
    by (rule rd_rel_error)
  then have "\<bar>rd p - p\<bar> \<le> p * e"
    using p0 by (simp add: e_def)
  then have "rd p \<le> p * (1 + e)"
    by (simp add: algebra_simps abs_le_iff)
  also have "\<dots> \<le> (real x * (a * (1 + e))) * (1 + e)"
    unfolding p_def using s_hi e by (intro mult_right_mono mult_left_mono) simp_all
  also have "\<dots> = real x * a * ((1 + e) * (1 + e))"
    by simp
  also have "\<dots> \<le> real x * a * c"
    using a0 e(3) by (intro mult_left_mono) simp_all
  finally have up: "rd p \<le> real x * a * c" .
  have xt: "real x \<le> real t - 1" using x by simp
  have "real x * a * c \<le> (real t - 1) * a * c"
    using xt a0 c0 by (intro mult_right_mono) simp_all
  also have "\<dots> = real n * ((real t - 1) * c / real t)"
    unfolding a_def using tp by (simp add: field_simps)
  also have "\<dots> < real n * 1"
  proof (rule mult_strict_left_mono)
    have "(real t - 1) / 2 ^ 51 < 1"
      using tb by simp
    moreover have "(real t - 1) * c = real t - 1 + (real t - 1) / 2 ^ 51"
      unfolding c_def by (simp only: distrib_left mult_1_right times_divide_eq_right)
    ultimately have "(real t - 1) * c < real t" by linarith
    then show "(real t - 1) * c / real t < 1"
      using tp by simp
    show "0 < real n" using n by simp
  qed
  finally have "real x * a * c < real n" by simp
  with up have "rd p < real n" by linarith
  then have "\<lfloor>rd p\<rfloor> < int n"
    by (simp add: floor_less_iff)
  moreover have "0 \<le> rd p" using p0 by (intro rd_nonneg) simp
  ultimately show ?thesis
    unfolding scaled_coordinate_def p_def s_def a_def by linarith
qed

lemma dims_bound:
  fixes w h :: nat
  assumes "0 < w" and "0 < h" and "w * h * 4 \<le> 2 ^ 53"
  shows "w \<le> 2 ^ 51" "h \<le> 2 ^ 51" "w \<le> 2 ^ 53" "h \<le> 2 ^ 53"
proof -
  have "w * 4 \<le> w * h * 4" "h * 4 \<le> w * h * 4"
    using assms(1,2) by simp_all
  then have "w * 4 \<le> 2 ^ 53" "h * 4 \<le> 2 ^ 53"
    using assms(3) by linarith+
  then show "w \<le> 2 ^ 51" "h \<le> 2 ^ 51" by simp_all
  then show "w \<le> 2 ^ 53" "h \<le> 2 ^ 53" by simp_all
qed

lemma source_byte_copy:
  assumes len: "length (data imageData) = width imageData * height imageData * 4"
    and pos: "0 < width imageData" "0 < height imageData"
    and size: "width imageData * height imageData * 4 \<le> 2 ^ 53"
    and tw: "tw \<le> 2 ^ 51" and th: "th \<le> 2 ^ 51"
    and x: "x < tw" and y: "y < th" and k: "k < 4"
  shows "source_byte imageData (Num (real (width imageData)) / Num (real tw))
           (Num (real (height imageData)) / Num (real th)) x y k
         = data imageData !
             ((scaled_coordinate (height imageData) th y * width imageData
               + scaled_coordinate (width imageData) tw x) * 4 + k)"
proof -
  let ?W = "width imageData" and ?H = "height imageData"
  define sx where "sx = scaled_coordinate ?W tw x"
  define sy where "sy = scaled_coordinate ?H th y"
  have Wb: "?W \<le> 2 ^ 53" and Hb: "?H \<le> 2 ^ 53"
    by (rule dims_bound [OF pos size])+
  have fx: "Math_floor (Num (real x) * (Num (real ?W) / Num (real tw))) = Num (real sx)"
    unfolding sx_def by (rule scaled_coordinate_floor [OF x tw Wb])
  have bx: "sx < ?W"
    unfolding sx_def by (rule scaled_coordinate_bound [OF x tw pos(1)])
  have fy: "Math_floor (Num (real y) * (Num (real ?H) / Num (real th))) = Num (real sy)"
    unfolding sy_def by (rule scaled_coordinate_floor [OF y th Hb])
  have bys: "sy < ?H"
    unfolding sy_def by (rule scaled_coordinate_bound [OF y th pos(2)])
  have inr: "(sy * ?W + sx) * 4 + k < ?W * ?H * 4"
    by (rule pixel_index_bound(1) [OF bx bys k])
  have b4: "(sy * ?W + sx) * 4 + k \<le> 2 ^ 53"
    using inr size by (rule less_imp_le [OF less_le_trans])
  have "sy * ?W \<le> (sy * ?W + sx) * 4 + k" "sy * ?W + sx \<le> (sy * ?W + sx) * 4 + k"
    "(sy * ?W + sx) * 4 \<le> (sy * ?W + sx) * 4 + k"
    by simp_all
  then have b1: "sy * ?W \<le> 2 ^ 53" "sy * ?W + sx \<le> 2 ^ 53" "(sy * ?W + sx) * 4 \<le> 2 ^ 53"
    "(sy * ?W + sx) * 4 + k \<le> 2 ^ 53"
    using b4 by (blast intro: order_trans)+
  have four: "Num 4 = Num (real 4)" by simp
  have idx0: "(Num (real sy) * Num (real ?W) + Num (real sx)) * Num 4
             = Num (real ((sy * ?W + sx) * 4))"
    unfolding four times_nat [OF b1(1)] plus_nat [OF b1(2)] times_nat [OF b1(3)] ..
  have idx: "(if k = 0 then Num (real ((sy * ?W + sx) * 4))
              else Num (real ((sy * ?W + sx) * 4)) + Num (real k))
             = Num (real ((sy * ?W + sx) * 4 + k))"
    using plus_nat [OF b1(4)] by simp
  have rd: "ta_read (data imageData) (Num (real ((sy * ?W + sx) * 4 + k)))
            = Num (real (unat (data imageData ! ((sy * ?W + sx) * 4 + k))))"
    using inr unfolding len [symmetric] by (simp only: ta_read_nat ta_get_def if_True)
  show ?thesis
    unfolding source_byte_def Let_def fx fy idx0 idx rd sx_def [symmetric] sy_def [symmetric]
    by (rule ToUint8Clamp_byte)
qed

lemma resize_pixel_copy:
  assumes len: "length (data imageData) = width imageData * height imageData * 4"
    and pos: "0 < width imageData" "0 < height imageData"
    and size: "width imageData * height imageData * 4 \<le> 2 ^ 53"
    and tw: "tw \<le> 2 ^ 51" and th: "th \<le> 2 ^ 51"
    and x: "x < tw" and y: "y < th" and k: "k < 4"
  shows "data (resizeImageData imageData tw th) ! ((y * tw + x) * 4 + k)
         = data imageData !
             ((scaled_coordinate (height imageData) th y * width imageData
               + scaled_coordinate (width imageData) tw x) * 4 + k)"
proof -
  define i where "i = (y * tw + x) * 4 + k"
  have i: "i < tw * th * 4"
    unfolding i_def by (rule pixel_index_bound(1) [OF x y k])
  have dv: "i div 4 = y * tw + x" and md: "i mod 4 = k"
    unfolding i_def by (rule pixel_index_arith [OF x k])+
  have xy: "(i div 4) mod tw = x" "(i div 4) div tw = y"
    unfolding dv using pixel_index_arith(3,4) [OF x k] by simp_all
  show ?thesis
    unfolding i_def [symmetric] resize_data(2) [OF i] xy md
    by (rule source_byte_copy [OF len pos size tw th x y k])
qed

lemma scaled_coordinate_self:
  assumes "x < n" and "n \<le> 2 ^ 53"
  shows "scaled_coordinate n n x = x"
proof -
  have "rd (real n / real n) = 1"
    using assms(1) is_double_nat [of 1] by (simp add: rd_exact)
  moreover have "rd (real x) = real x"
    using assms by (intro rd_nat) simp
  ultimately show ?thesis
    by (simp add: scaled_coordinate_def)
qed

lemma resize_self:
  assumes len: "length (data imageData) = width imageData * height imageData * 4"
    and size: "width imageData * height imageData * 4 \<le> 2 ^ 53"
  shows "resizeImageData imageData (width imageData) (height imageData) = imageData"
proof -
  let ?w = "width imageData" and ?h = "height imageData"
  let ?out = "resizeImageData imageData ?w ?h"
  have "data ?out = data imageData"
  proof (rule nth_equalityI)
    show "length (data ?out) = length (data imageData)"
      by (simp add: resize_data(1) len)
  next
    fix i assume "i < length (data ?out)"
    then have i: "i < ?w * ?h * 4" by (simp add: resize_data(1))
    then have pos: "0 < ?w" "0 < ?h" by (auto intro: ccontr)
    have wb: "?w \<le> 2 ^ 51" and hb: "?h \<le> 2 ^ 51"
      by (rule dims_bound [OF pos size])+
    define x y k where "x = (i div 4) mod ?w" and "y = (i div 4) div ?w" and "k = i mod 4"
    have p: "i div 4 < ?h * ?w"
      using i by (simp add: mult.commute less_mult_imp_div_less)
    have x: "x < ?w" using pos by (simp add: x_def)
    have y: "y < ?h" using p by (simp add: y_def less_mult_imp_div_less)
    have k: "k < 4" by (simp add: k_def)
    have pix: "y * ?w + x = i div 4" by (simp add: x_def y_def)
    have ii: "(y * ?w + x) * 4 + k = i" unfolding pix by (simp add: k_def)
    have fx: "scaled_coordinate ?w ?w x = x"
      using x wb by (intro scaled_coordinate_self) simp_all
    have fy: "scaled_coordinate ?h ?h y = y"
      using y hb by (intro scaled_coordinate_self) simp_all
    show "data ?out ! i = data imageData ! i"
      using resize_pixel_copy [OF len pos size wb hb x y k] unfolding fx fy ii .
  qed
  moreover have "width ?out = ?w" "height ?out = ?h"
    by (simp_all add: resize_dims)
  ultimately show ?thesis
    by (intro ImageData.equality) simp_all
qed

text \<open>
  The roundings of the example below: 30 source columns resampled to 22; the scale factor
  \<open>30 / 22\<close> rounds down, and its product by 11 is the double just below 15.
\<close>

lemma rd_scale_1: "rd (15 / 11) = 6141272219141585 / 4503599627370496"
  using rd_eval_pos [where n = 0 and x = "15 / 11"]
  by (simp add: rne_def Let_def)

lemma rd_scale_2: "rd (67553994410557435 / 4503599627370496) = 8444249301319679 / 562949953421312"
  using rd_eval_pos [where n = 3 and x = "67553994410557435 / 4503599627370496"]
  by (simp add: rne_def Let_def)

text \<open>
  C5, as stated: each target pixel \<open>(x, y)\<close> copies the source pixel
  \<open>(floor(x * sourceWidth / w), floor(y * sourceHeight / h))\<close>. The program computes the
  scale factor \<open>sourceWidth / w\<close> first, as a double, and multiplies the coordinate by it. For
  a source of 30 columns, in which pixel \<open>i\<close> has the colour \<open>(i, i, i)\<close>, resized to 22
  columns, the target pixel 11 gets the colour of the source pixel 14: the scale factor is
  the double just below \<open>30 / 22\<close> and the product is the double just below 15. The formula of
  the claim gives the source pixel 15, in exact arithmetic and in the arithmetic of the
  program alike, since \<open>11 * 30 / 22\<close> is a quotient of integers.
\<close>

theorem resizeImageData_scale_is_rounded:
  "data (resizeImageData
      \<lparr>data =
         [0, 0, 0, 255, 1, 1, 1, 255, 2, 2, 2, 255, 3, 3, 3, 255, 4, 4, 4, 255, 5, 5, 5,
          255, 6, 6, 6, 255, 7, 7, 7, 255, 8, 8, 8, 255, 9, 9, 9, 255, 10, 10, 10, 255, 11,
          11, 11, 255, 12, 12, 12, 255, 13, 13, 13, 255, 14, 14, 14, 255, 15, 15, 15, 255,
          16, 16, 16, 255, 17, 17, 17, 255, 18, 18, 18, 255, 19, 19, 19, 255, 20, 20, 20,
          255, 21, 21, 21, 255, 22, 22, 22, 255, 23, 23, 23, 255, 24, 24, 24, 255, 25, 25,
          25, 255, 26, 26, 26, 255, 27, 27, 27, 255, 28, 28, 28, 255, 29, 29, 29, 255],
       width = 30, height = 1\<rparr> 22 1) ! (11 * 4) = 14
   \<and> data \<lparr>data =
         [0, 0, 0, 255, 1, 1, 1, 255, 2, 2, 2, 255, 3, 3, 3, 255, 4, 4, 4, 255, 5, 5, 5,
          255, 6, 6, 6, 255, 7, 7, 7, 255, 8, 8, 8, 255, 9, 9, 9, 255, 10, 10, 10, 255, 11,
          11, 11, 255, 12, 12, 12, 255, 13, 13, 13, 255, 14, 14, 14, 255, 15, 15, 15, 255,
          16, 16, 16, 255, 17, 17, 17, 255, 18, 18, 18, 255, 19, 19, 19, 255, 20, 20, 20,
          255, 21, 21, 21, 255, 22, 22, 22, 255, 23, 23, 23, 255, 24, 24, 24, 255, 25, 25,
          25, 255, 26, 26, 26, 255, 27, 27, 27, 255, 28, 28, 28, 255, 29, 29, 29, 255],
       width = 30, height = 1\<rparr>
       ! (14 * 4) = 14
   \<and> data \<lparr>data =
         [0, 0, 0, 255, 1, 1, 1, 255, 2, 2, 2, 255, 3, 3, 3, 255, 4, 4, 4, 255, 5, 5, 5,
          255, 6, 6, 6, 255, 7, 7, 7, 255, 8, 8, 8, 255, 9, 9, 9, 255, 10, 10, 10, 255, 11,
          11, 11, 255, 12, 12, 12, 255, 13, 13, 13, 255, 14, 14, 14, 255, 15, 15, 15, 255,
          16, 16, 16, 255, 17, 17, 17, 255, 18, 18, 18, 255, 19, 19, 19, 255, 20, 20, 20,
          255, 21, 21, 21, 255, 22, 22, 22, 255, 23, 23, 23, 255, 24, 24, 24, 255, 25, 25,
          25, 255, 26, 26, 26, 255, 27, 27, 27, 255, 28, 28, 28, 255, 29, 29, 29, 255],
       width = 30, height = 1\<rparr>
       ! (15 * 4) = 15
   \<and> spec_coordinate 30 22 11 = Num 15
   \<and> spec_coordinate 1 1 0 = Num 0
   \<and> \<lfloor>(11::real) * 30 / 22\<rfloor> = 15"
proof -
  let ?img = "\<lparr>data =
         [0, 0, 0, 255, 1, 1, 1, 255, 2, 2, 2, 255, 3, 3, 3, 255, 4, 4, 4, 255, 5, 5, 5,
          255, 6, 6, 6, 255, 7, 7, 7, 255, 8, 8, 8, 255, 9, 9, 9, 255, 10, 10, 10, 255, 11,
          11, 11, 255, 12, 12, 12, 255, 13, 13, 13, 255, 14, 14, 14, 255, 15, 15, 15, 255,
          16, 16, 16, 255, 17, 17, 17, 255, 18, 18, 18, 255, 19, 19, 19, 255, 20, 20, 20,
          255, 21, 21, 21, 255, 22, 22, 22, 255, 23, 23, 23, 255, 24, 24, 24, 255, 25, 25,
          25, 255, 26, 26, 26, 255, 27, 27, 27, 255, 28, 28, 28, 255, 29, 29, 29, 255],
       width = 30, height = 1\<rparr>"
  have len: "length (data ?img) = width ?img * height ?img * 4"
    by simp
  have "data (resizeImageData ?img 22 1) ! ((0 * 22 + 11) * 4 + 0)
        = data ?img ! ((scaled_coordinate (height ?img) 1 0 * width ?img
                         + scaled_coordinate (width ?img) 22 11) * 4 + 0)"
    by (rule resize_pixel_copy [OF len]) simp_all
  then have "data (resizeImageData ?img 22 1) ! (11 * 4) = 14"
    by (simp add: scaled_coordinate_def rd_dyadic rd_scale_1 rd_scale_2)
  then show ?thesis
    by (simp add: spec_coordinate_def fin_num rd_dyadic)
qed

text \<open>
  C5, amended: for every source image and all target dimensions \<open>tw\<close>, \<open>th\<close> (natural
  numbers, 0 included) the result has width \<open>tw\<close>, height \<open>th\<close> and \<open>tw * th * 4\<close> bytes. When
  the source is well formed and not empty, byte \<open>k\<close> of the target pixel \<open>(x, y)\<close> is byte \<open>k\<close>
  of the source pixel \<open>(floor(x * scaleX), floor(y * scaleY))\<close>, where the scale factors
  \<open>scaleX = sourceWidth / tw\<close> and \<open>scaleY = sourceHeight / th\<close> are computed first and rounded
  to doubles, and each product is rounded (function \<open>scaled_coordinate\<close>); that pixel is inside
  the source. Resizing a well-formed image to its own dimensions gives the image back. The
  bounds on the sizes are those within which the indices are exact doubles: a source of at
  most 2 to the power 53 bytes and targets of at most 2 to the power 51 columns and rows.
\<close>

theorem resizeImageData_nearest_neighbour:
  "width (resizeImageData imageData tw th) = tw
   \<and> height (resizeImageData imageData tw th) = th
   \<and> length (data (resizeImageData imageData tw th)) = tw * th * 4
   \<and> (length (data imageData) = width imageData * height imageData * 4
       \<and> 0 < width imageData \<and> 0 < height imageData
       \<and> width imageData * height imageData * 4 \<le> 2 ^ 53 \<and> tw \<le> 2 ^ 51 \<and> th \<le> 2 ^ 51
       \<and> x < tw \<and> y < th \<and> k < 4 \<longrightarrow>
         scaled_coordinate (width imageData) tw x < width imageData
         \<and> scaled_coordinate (height imageData) th y < height imageData
         \<and> data (resizeImageData imageData tw th) ! ((y * tw + x) * 4 + k)
           = data imageData !
               ((scaled_coordinate (height imageData) th y * width imageData
                 + scaled_coordinate (width imageData) tw x) * 4 + k))
   \<and> (length (data imageData) = width imageData * height imageData * 4
       \<and> width imageData * height imageData * 4 \<le> 2 ^ 53 \<longrightarrow>
         resizeImageData imageData (width imageData) (height imageData) = imageData)"
  using resize_pixel_copy [of imageData tw th x y k] resize_self [of imageData]
    scaled_coordinate_bound [of x tw "width imageData"]
    scaled_coordinate_bound [of y th "height imageData"]
  by (simp add: resize_dims resize_data(1))

text \<open>
  Examples: a source of two pixels resized to 4 by 2, where the scale factors 0.5 are exact;
  the source of 30 columns above resized to 22; a source resized to its own size; and an
  empty target.
\<close>

theorem resizeImageData_nearest_neighbour_witness:
  "data (resizeImageData \<lparr>data = [1, 2, 3, 4, 5, 6, 7, 8], width = 2, height = 1\<rparr> 4 2) ! 30 = 7
   \<and> scaled_coordinate 2 4 3 = 1 \<and> scaled_coordinate 1 2 1 = 0
   \<and> scaled_coordinate 30 22 11 = 14
   \<and> data (resizeImageData
      \<lparr>data =
         [0, 0, 0, 255, 1, 1, 1, 255, 2, 2, 2, 255, 3, 3, 3, 255, 4, 4, 4, 255, 5, 5, 5,
          255, 6, 6, 6, 255, 7, 7, 7, 255, 8, 8, 8, 255, 9, 9, 9, 255, 10, 10, 10, 255, 11,
          11, 11, 255, 12, 12, 12, 255, 13, 13, 13, 255, 14, 14, 14, 255, 15, 15, 15, 255,
          16, 16, 16, 255, 17, 17, 17, 255, 18, 18, 18, 255, 19, 19, 19, 255, 20, 20, 20,
          255, 21, 21, 21, 255, 22, 22, 22, 255, 23, 23, 23, 255, 24, 24, 24, 255, 25, 25,
          25, 255, 26, 26, 26, 255, 27, 27, 27, 255, 28, 28, 28, 255, 29, 29, 29, 255],
       width = 30, height = 1\<rparr> 22 1) ! 46 = 14
   \<and> resizeImageData \<lparr>data = [1, 2, 3, 4, 5, 6, 7, 8], width = 2, height = 1\<rparr> 2 1
       = \<lparr>data = [1, 2, 3, 4, 5, 6, 7, 8], width = 2, height = 1\<rparr>
   \<and> length (data (resizeImageData \<lparr>data = [1, 2, 3, 4, 5, 6, 7, 8], width = 2, height = 1\<rparr> 0 0)) = 0"
  using resizeImageData_nearest_neighbour
      [of "\<lparr>data = [1, 2, 3, 4, 5, 6, 7, 8], width = 2, height = 1\<rparr>" 4 2 3 1 2]
    resizeImageData_nearest_neighbour
      [of "\<lparr>data =
         [0, 0, 0, 255, 1, 1, 1, 255, 2, 2, 2, 255, 3, 3, 3, 255, 4, 4, 4, 255, 5, 5, 5,
          255, 6, 6, 6, 255, 7, 7, 7, 255, 8, 8, 8, 255, 9, 9, 9, 255, 10, 10, 10, 255, 11,
          11, 11, 255, 12, 12, 12, 255, 13, 13, 13, 255, 14, 14, 14, 255, 15, 15, 15, 255,
          16, 16, 16, 255, 17, 17, 17, 255, 18, 18, 18, 255, 19, 19, 19, 255, 20, 20, 20,
          255, 21, 21, 21, 255, 22, 22, 22, 255, 23, 23, 23, 255, 24, 24, 24, 255, 25, 25,
          25, 255, 26, 26, 26, 255, 27, 27, 27, 255, 28, 28, 28, 255, 29, 29, 29, 255],
       width = 30, height = 1\<rparr>" 22 1 11 0 2]
    resizeImageData_nearest_neighbour
      [of "\<lparr>data = [1, 2, 3, 4, 5, 6, 7, 8], width = 2, height = 1\<rparr>" 2 1]
    resizeImageData_nearest_neighbour
      [of "\<lparr>data = [1, 2, 3, 4, 5, 6, 7, 8], width = 2, height = 1\<rparr>" 0 0]
  by (simp add: scaled_coordinate_def rd_dyadic rd_scale_1 rd_scale_2)

subsection \<open>The coloured cell\<close>

text \<open>The order of the numbers that are not \<^verbatim>\<open>NaN\<close>.\<close>

lemma js_less_irrefl [simp]: "\<not> a < (a::jsnum)"
  by (cases a) simp_all

lemma js_less_trans: "a < b \<Longrightarrow> b < c \<Longrightarrow> a < (c::jsnum)"
  by (cases a; cases b; cases c) simp_all

lemma js_less_le_trans: "a < b \<Longrightarrow> \<not> c < b \<Longrightarrow> c \<noteq> NaN \<Longrightarrow> a < (c::jsnum)"
  by (cases a; cases b; cases c) simp_all

lemma js_not_less_PosInf: "\<not> a < PosInf \<Longrightarrow> a \<noteq> NaN \<Longrightarrow> a = PosInf"
  by (cases a) simp_all

lemma js_less_asym: "a < b \<Longrightarrow> \<not> b < (a::jsnum)"
  by (cases a; cases b) simp_all

text \<open>The distance that the program computes is a number that is not negative.\<close>

lemma nonneg_not_NaN: "nonneg v \<Longrightarrow> v \<noteq> NaN"
  by (auto simp: nonneg_def)

lemma nonneg_square: "v \<noteq> NaN \<Longrightarrow> nonneg (Math_pow v 2)"
  by (cases v) (simp_all add: fin_nonneg, simp_all add: nonneg_def)

lemma nonneg_cases:
  assumes "nonneg v"
  obtains x where "v = Num x" and "0 \<le> x" | "v = PosInf"
  using assms by (auto simp: nonneg_def)

lemma nonneg_PosInf [simp]: "nonneg PosInf"
  by (simp add: nonneg_def)

lemma nonneg_plus:
  assumes "nonneg a" and "nonneg b"
  shows "nonneg (a + b)"
proof -
  from assms(1) show ?thesis
  proof (cases rule: nonneg_cases)
    case (1 x)
    from assms(2) show ?thesis
    proof (cases rule: nonneg_cases)
      case (1 y)
      with \<open>0 \<le> x\<close> have "nonneg (fin (x + y))" by (intro fin_nonneg) simp
      with 1 \<open>a = Num x\<close> show ?thesis by simp
    next
      case 2
      with \<open>a = Num x\<close> show ?thesis by simp
    qed
  next
    case 2
    from assms(2) show ?thesis
      by (cases rule: nonneg_cases) (simp_all add: 2)
  qed
qed

lemma nonneg_sqrt:
  assumes "nonneg a"
  shows "nonneg (Math_sqrt a)"
  using assms
proof (cases rule: nonneg_cases)
  case (1 x)
  then have "nonneg (fin (sqrt x))" by (intro fin_nonneg) simp
  with 1 show ?thesis by simp
next
  case 2
  then show ?thesis by simp
qed

lemma color_distance_nonneg: "nonneg (color_distance (Num r) (Num g) (Num b) entry)"
  by (cases entry) (simp add: color_distance_def nonneg_sqrt nonneg_plus nonneg_square)

lemma color_distance_not_NaN [simp]: "color_distance (Num r) (Num g) (Num b) entry \<noteq> NaN"
  using color_distance_nonneg by (rule nonneg_not_NaN)

lemma closest_step_inv:
  assumes "closest_inv (\<lambda>j. color_distance (Num r) (Num g) (Num b) (palette ! j)) k st"
  shows "closest_inv (\<lambda>j. color_distance (Num r) (Num g) (Num b) (palette ! j)) (Suc k)
           (closest_step (Num r) (Num g) (Num b) palette st k)"
proof -
  let ?d = "\<lambda>j. color_distance (Num r) (Num g) (Num b) (palette ! j)"
  have nn: "?d j \<noteq> NaN" for j by simp
  show ?thesis
  proof (cases "k = 0")
    case True
    with assms have st: "st = (PosInf, 0)" by (simp add: closest_inv_def)
    show ?thesis
    proof (cases "?d 0 < PosInf")
      case True
      then show ?thesis
        using st \<open>k = 0\<close> by (simp add: closest_inv_def closest_step_def Let_def)
    next
      case False
      then have "?d 0 = PosInf" using nn by (rule js_not_less_PosInf)
      then show ?thesis
        using st \<open>k = 0\<close> by (simp add: closest_inv_def closest_step_def Let_def)
    qed
  next
    case False
    with assms have i: "snd st < k" and m: "fst st = ?d (snd st)"
      and le: "\<forall>j<k. \<not> ?d j < ?d (snd st)"
      and lt: "\<forall>j. j < snd st \<longrightarrow> ?d (snd st) < ?d j"
      by (auto simp: closest_inv_def)
    show ?thesis
    proof (cases "?d k < ?d (snd st)")
      case True
      then have step: "closest_step (Num r) (Num g) (Num b) palette st k = (?d k, k)"
        using m by (simp add: closest_step_def Let_def)
      have "\<not> ?d j < ?d k" if "j < Suc k" for j
      proof (cases "j = k")
        case True
        then show ?thesis by simp
      next
        case False
        with that have "j < k" by simp
        with le have "\<not> ?d j < ?d (snd st)" by simp
        with True show ?thesis by (blast intro: js_less_trans)
      qed
      moreover have "?d k < ?d j" if "j < k" for j
        using True le that nn by (blast intro: js_less_le_trans)
      ultimately show ?thesis
        unfolding step by (simp add: closest_inv_def)
    next
      case False
      then have step: "closest_step (Num r) (Num g) (Num b) palette st k = st"
        using m by (simp add: closest_step_def Let_def)
      have "\<not> ?d j < ?d (snd st)" if "j < Suc k" for j
        using that le False by (cases "j = k") simp_all
      then show ?thesis
        unfolding step using i m lt by (simp add: closest_inv_def)
    qed
  qed
qed

lemma closest_fold_inv:
  "closest_inv (\<lambda>j. color_distance (Num r) (Num g) (Num b) (palette ! j)) k
     (foldl (closest_step (Num r) (Num g) (Num b) palette) (PosInf, 0) [0..<k])"
proof (induction k)
  case 0
  show ?case by (simp add: closest_inv_def)
next
  case (Suc k)
  then show ?case by (simp add: closest_step_inv)
qed

lemma findClosest_min:
  assumes "palette \<noteq> []"
  shows "findClosestAnsiColor (Num r) (Num g) (Num b) palette < length palette"
    and "\<forall>j<length palette.
            \<not> color_distance (Num r) (Num g) (Num b) (palette ! j)
              < color_distance (Num r) (Num g) (Num b)
                  (palette ! findClosestAnsiColor (Num r) (Num g) (Num b) palette)"
    and "\<forall>j. j < findClosestAnsiColor (Num r) (Num g) (Num b) palette \<longrightarrow>
            color_distance (Num r) (Num g) (Num b)
              (palette ! findClosestAnsiColor (Num r) (Num g) (Num b) palette)
            < color_distance (Num r) (Num g) (Num b) (palette ! j)"
  using closest_fold_inv [of r g b palette "length palette"] assms
  by (simp_all add: closest_inv_def findClosestAnsiColor_def)

text \<open>An index with these two properties is the one that the search returns.\<close>

lemma findClosest_unique:
  assumes k: "k < length palette"
    and le: "\<forall>e\<in>set palette. \<not> color_distance (Num r) (Num g) (Num b) e
                < color_distance (Num r) (Num g) (Num b) (palette ! k)"
    and lt: "\<forall>e\<in>set (take k palette). color_distance (Num r) (Num g) (Num b) (palette ! k)
                < color_distance (Num r) (Num g) (Num b) e"
  shows "findClosestAnsiColor (Num r) (Num g) (Num b) palette = k"
proof -
  let ?d = "\<lambda>j. color_distance (Num r) (Num g) (Num b) (palette ! j)"
  let ?i = "findClosestAnsiColor (Num r) (Num g) (Num b) palette"
  from k have ne: "palette \<noteq> []" by auto
  note m = findClosest_min [OF ne, of r g b]
  show ?thesis
  proof (rule ccontr)
    assume "?i \<noteq> k"
    then consider "?i < k" | "k < ?i" by linarith
    then show False
    proof cases
      case 1
      then have "palette ! ?i \<in> set (take k palette)"
        using k by (auto simp: in_set_conv_nth intro!: exI [of _ ?i])
      with lt have "?d k < ?d ?i" by blast
      with m(2) k show False by blast
    next
      case 2
      with m(3) have "?d ?i < ?d k" by blast
      moreover have "palette ! ?i \<in> set palette" using m(1) by simp
      ultimately show False using le by blast
    qed
  qed
qed

lemma fin_sqrt_not_negative: "0 \<le> x \<Longrightarrow> \<not> fin (sqrt x) < Num 0"
  using fin_nonneg [of "sqrt x"] by (auto simp: nonneg_def)

lemma fin_sqrt_positive:
  assumes "1 \<le> x"
  shows "Num 0 < fin (sqrt x)"
proof -
  have "rd 1 \<le> rd (sqrt x)"
    using assms by (intro rd_mono) simp
  moreover have "rd 1 = 1"
    using is_double_nat [of 1] by (simp add: rd_exact)
  ultimately have "0 < rd (sqrt x)" by simp
  then show ?thesis by (simp add: fin_def)
qed

lemma red16: "findClosestAnsiColor (Num 255) (Num 0) (Num 0) ANSI_16_COLORS = 9"
  by (rule findClosest_unique)
     (simp_all add: ANSI_16_COLORS_def color_distance_def fin_num rd_dyadic
        fin_sqrt_not_negative fin_sqrt_positive)

lemma red_distance: "color_distance (Num 255) (Num 0) (Num 0) (ANSI_16_COLORS ! 9) = Num 0"
  by (simp add: ANSI_16_COLORS_def color_distance_def fin_num rd_dyadic)

lemma brightnessToAscii_Str: "\<exists>ch. brightnessToAscii lum (Str ramp) iv = Inr ch"
  by (simp add: brightnessToAscii_def Let_def)

text \<open>
  The roundings of the example below: the luminance of the red \<open>(255, 0, 0)\<close>, which is
  \<open>round(76.24499999999999) = 76\<close>, and its index 2 in a ramp of ten characters.
\<close>

lemma rd_red_2: "rd (1373507814355453815 / 18014398509481984) = 5365264899825991 / 70368744177664"
  using rd_eval_pos [where n = 6 and x = "1373507814355453815 / 18014398509481984"]
  by (simp add: rne_def Let_def)

lemma rd_red_4: "rd (5365264899825991 / 70368744177664) = 5365264899825991 / 70368744177664"
  using rd_eval_pos [where n = 6 and x = "5365264899825991 / 70368744177664"]
  by (simp add: rne_def Let_def)

lemma rd_red_6: "rd (76 / 255) = 5368997202826003 / 18014398509481984"
  using rd_eval_neg [where n = 2 and x = "76 / 255"]
  by (simp add: rne_def Let_def)

lemma rd_red_7: "rd (48320974825434027 / 18014398509481984) = 6040121853179253 / 2251799813685248"
  using rd_eval_pos [where n = 1 and x = "48320974825434027 / 18014398509481984"]
  by (simp add: rne_def Let_def)

lemma red_character:
  "brightnessToAscii (getPixelBrightness (Num 255) (Num 0) (Num 0))
     (Str [32, 46, 58, 45, 61, 43, 42, 35, 37, 64]) False = Inr (Some 58)"
  by (simp add: getPixelBrightness_def brightnessToAscii_def Let_def lit_def fin_num rd_dyadic
      rd_grey_1 rd_red_2 rd_grey_3 rd_red_4 rd_grey_6 rd_red_6 rd_red_7)


subsection \<open>A tie of rounded distances\<close>

text \<open>
  The double nearest to a square root, from the two doubles around it.
\<close>

lemma rne_bracket:
  assumes "of_int M - 1 / 2 < y" and "y < of_int M + 1 / 2"
  shows "rne y = M"
proof -
  have "\<bar>of_int (rne y) - y\<bar> \<le> 1 / 2" by (rule rne_err)
  with assms have "\<bar>real_of_int (rne y) - of_int M\<bar> < 1" by linarith
  then have "\<bar>rne y - M\<bar> < 1"
    by (metis of_int_1 of_int_abs of_int_diff of_int_less_iff)
  then show ?thesis by simp
qed

lemma rd_sqrt_eval:
  assumes lo: "(2 ^ n)\<^sup>2 \<le> S" and hi: "S < (2 * 2 ^ n)\<^sup>2"
    and M: "1 \<le> M"
    and below: "((of_int M - 1 / 2) * 2 ^ n / 2 ^ 52)\<^sup>2 < S"
    and above: "S < ((of_int M + 1 / 2) * 2 ^ n / 2 ^ 52)\<^sup>2"
  shows "rd (sqrt S) = of_int M * 2 ^ n / 2 ^ 52"
proof -
  have S0: "0 \<le> S"
    using lo by (meson order_trans zero_le_power2)
  have "2 ^ n \<le> sqrt S"
    using lo by (rule real_le_rsqrt)
  then have a: "2 ^ n \<le> \<bar>sqrt S\<bar>" by simp
  have "sqrt S < 2 * 2 ^ n"
    using S0 hi by (intro real_less_lsqrt) simp_all
  then have b: "\<bar>sqrt S\<bar> < 2 * 2 ^ n"
    using S0 by simp
  have M0: "0 \<le> real_of_int M - 1 / 2" using M by linarith
  have q: "(0::real) < 2 ^ n / 2 ^ 52" by simp
  have "(of_int M - 1 / 2) * 2 ^ n / 2 ^ 52 < sqrt S"
    using below by (rule real_less_rsqrt)
  then have c: "of_int M - 1 / 2 < sqrt S * 2 ^ 52 / 2 ^ n"
    by (simp add: field_simps)
  have "0 \<le> (of_int M + 1 / 2) * 2 ^ n / (2 ^ 52 :: real)"
    using M0 by simp
  then have "sqrt S < (of_int M + 1 / 2) * 2 ^ n / 2 ^ 52"
    using S0 above by (intro real_less_lsqrt) simp_all
  then have d: "sqrt S * 2 ^ 52 / 2 ^ n < of_int M + 1 / 2"
    by (simp add: field_simps)
  show ?thesis
    unfolding rd_eval_pos [OF a b] rne_bracket [OF c d] ..
qed

text \<open>
  With a double \<open>d\<close> whose square is at most \<open>y\<close>, the rounded root of \<open>y\<close> is at least \<open>d\<close>.
\<close>

lemma fin_sqrt_ge:
  assumes "is_double d" and "0 \<le> d" and "d * d \<le> y"
  shows "\<not> fin (sqrt y) < Num d" and "d \<le> rd (sqrt y)"
proof -
  have "d\<^sup>2 \<le> y" using assms(3) by (simp add: power2_eq_square)
  then have "d \<le> sqrt y" by (rule real_le_rsqrt)
  then have "rd d \<le> rd (sqrt y)" by (rule rd_mono)
  then show r: "d \<le> rd (sqrt y)"
    using assms(1) by (simp add: rd_exact)
  then show "\<not> fin (sqrt y) < Num d"
    using assms(2) by (simp add: fin_def)
qed

lemma fin_sqrt_gt:
  assumes "is_double m" and "0 \<le> m" and "d < m" and "m * m \<le> y"
  shows "Num d < fin (sqrt y)"
proof -
  have "m \<le> rd (sqrt y)"
    using assms(1,2,4) by (rule fin_sqrt_ge)
  with assms(2,3) show ?thesis by (simp add: fin_def)
qed

text \<open>
  The colour \<open>(144, 86.39999999999999, 249.6)\<close>, which the coloured path makes of the pixel
  \<open>(30, 18, 52)\<close> at contrast 1 and brightness 95, against the 16 colours: the differences,
  their squares and the sums, as the program rounds them.
\<close>

lemma rd_tie_1: "rd (6079859496950169 / 70368744177664) = 6079859496950169 / 70368744177664"
  using rd_eval_pos [where n = 6 and x = "6079859496950169 / 70368744177664"]
  by (simp add: rne_def Let_def)

lemma rd_tie_2: "rd (8782019273372467 / 35184372088832) = 8782019273372467 / 35184372088832"
  using rd_eval_pos [where n = 7 and x = "8782019273372467 / 35184372088832"]
  by (simp add: rne_def Let_def)

lemma rd_tie_3: "rd (36964691502655162051812469128561 / 4951760157141521099596496896) = 8207810320882727 / 1099511627776"
  using rd_eval_pos [where n = 12 and x = "36964691502655162051812469128561 / 4951760157141521099596496896"]
  by (simp add: rne_def Let_def)

lemma rd_tie_4: "rd (31007283434445863 / 1099511627776) = 3875910429305733 / 137438953472"
  using rd_eval_pos [where n = 14 and x = "31007283434445863 / 1099511627776"]
  by (simp add: rne_def Let_def)

lemma rd_tie_5: "rd (77123862517885473274251713666089 / 1237940039285380274899124224) = 8562468791538155 / 137438953472"
  using rd_eval_pos [where n = 15 and x = "77123862517885473274251713666089 / 1237940039285380274899124224"]
  by (simp add: rne_def Let_def)

lemma rd_tie_6: "rd (777398701302743 / 8589934592) = 777398701302743 / 8589934592"
  using rd_eval_pos [where n = 16 and x = "777398701302743 / 8589934592"]
  by (simp add: rne_def Let_def)

lemma rd_tie_7: "rd (8489285297593383 / 1099511627776) = 8489285297593383 / 1099511627776"
  using rd_eval_pos [where n = 12 and x = "8489285297593383 / 1099511627776"]
  by (simp add: rne_def Let_def)

lemma rd_tie_8: "rd (76989035629898623 / 1099511627776) = 601476840858583 / 8589934592"
  using rd_eval_pos [where n = 16 and x = "76989035629898623 / 1099511627776"]
  by (simp add: rne_def Let_def)

lemma rd_tie_9: "rd (- (2927339757790823 / 70368744177664)) = - (2927339757790823 / 70368744177664)"
  using rd_eval_pos [where n = 5 and x = "- (2927339757790823 / 70368744177664)"]
  by (simp add: rne_def Let_def)

lemma rd_tie_10: "rd (8569318057542834266925423017329 / 4951760157141521099596496896) = 7611083370256141 / 4398046511104"
  using rd_eval_pos [where n = 10 and x = "8569318057542834266925423017329 / 4951760157141521099596496896"]
  by (simp add: rne_def Let_def)

lemma rd_tie_11: "rd (98808975824508685 / 4398046511104) = 6175560989031793 / 274877906944"
  using rd_eval_pos [where n = 14 and x = "98808975824508685 / 4398046511104"]
  by (simp add: rne_def Let_def)

lemma rd_tie_12: "rd (23300498572108103 / 274877906944) = 2912562321513513 / 34359738368"
  using rd_eval_pos [where n = 16 and x = "23300498572108103 / 274877906944"]
  by (simp add: rne_def Let_def)

lemma rd_tie_13: "rd (8736983277098765 / 4398046511104) = 8736983277098765 / 4398046511104"
  using rd_eval_pos [where n = 10 and x = "8736983277098765 / 4398046511104"]
  by (simp add: rne_def Let_def)

lemma rd_tie_14: "rd (282735984606319725 / 4398046511104) = 8835499518947491 / 137438953472"
  using rd_eval_pos [where n = 15 and x = "282735984606319725 / 4398046511104"]
  by (simp add: rne_def Let_def)

lemma rd_tie_15: "rd (4278419646001971 / 35184372088832) = 4278419646001971 / 35184372088832"
  using rd_eval_pos [where n = 6 and x = "4278419646001971 / 35184372088832"]
  by (simp add: rne_def Let_def)

lemma rd_tie_16: "rd (18304874667295630846244535884841 / 1237940039285380274899124224) = 8128997327403745 / 549755813888"
  using rd_eval_pos [where n = 13 and x = "18304874667295630846244535884841 / 1237940039285380274899124224"]
  by (simp add: rne_def Let_def)

lemma rd_tie_17: "rd (23632639044626677 / 549755813888) = 5908159761156669 / 137438953472"
  using rd_eval_pos [where n = 15 and x = "23632639044626677 / 549755813888"]
  by (simp add: rne_def Let_def)

lemma rd_tie_18: "rd (24747279952400873 / 1099511627776) = 3093409994050109 / 137438953472"
  using rd_eval_pos [where n = 14 and x = "24747279952400873 / 1099511627776"]
  by (simp add: rne_def Let_def)

lemma rd_tie_19: "rd (20480119305467331 / 549755813888) = 5120029826366833 / 137438953472"
  using rd_eval_pos [where n = 15 and x = "20480119305467331 / 549755813888"]
  by (simp add: rne_def Let_def)

lemma rd_tie_20: "rd (- (7430939385161319 / 70368744177664)) = - (7430939385161319 / 70368744177664)"
  using rd_eval_pos [where n = 6 and x = "- (7430939385161319 / 70368744177664)"]
  by (simp add: rne_def Let_def)

lemma rd_tie_21: "rd (2026619832316723 / 35184372088832) = 2026619832316723 / 35184372088832"
  using rd_eval_pos [where n = 5 and x = "2026619832316723 / 35184372088832"]
  by (simp add: rne_def Let_def)

lemma rd_tie_22: "rd (55218860145941681646323653819761 / 4951760157141521099596496896) = 6130524992758089 / 549755813888"
  using rd_eval_pos [where n = 13 and x = "55218860145941681646323653819761 / 4951760157141521099596496896"]
  by (simp add: rne_def Let_def)

lemma rd_tie_23: "rd (7397162387956041 / 549755813888) = 7397162387956041 / 549755813888"
  using rd_eval_pos [where n = 13 and x = "7397162387956041 / 549755813888"]
  by (simp add: rne_def Let_def)

lemma rd_tie_24: "rd (4107187944739462450201385458729 / 1237940039285380274899124224) = 3647915698170101 / 1099511627776"
  using rd_eval_pos [where n = 11 and x = "4107187944739462450201385458729 / 1237940039285380274899124224"]
  by (simp add: rne_def Let_def)

lemma rd_tie_25: "rd (18442240474082183 / 1099511627776) = 2305280059260273 / 137438953472"
  using rd_eval_pos [where n = 14 and x = "18442240474082183 / 1099511627776"]
  by (simp add: rne_def Let_def)

lemma rd_tie_26: "rd (73768961896328725 / 4398046511104) = 4610560118520545 / 274877906944"
  using rd_eval_pos [where n = 14 and x = "73768961896328725 / 4398046511104"]
  by (simp add: rne_def Let_def)

lemma rd_tie_27: "rd (21754893086710823 / 1099511627776) = 2719361635838853 / 137438953472"
  using rd_eval_pos [where n = 14 and x = "21754893086710823 / 1099511627776"]
  by (simp add: rne_def Let_def)

lemma rd_tie_28: "rd (705114401711063 / 8589934592) = 705114401711063 / 8589934592"
  using rd_eval_pos [where n = 16 and x = "705114401711063 / 8589934592"]
  by (simp add: rne_def Let_def)

lemma rd_tie_29: "rd (- (11864170268354151 / 70368744177664)) = - (1483021283544269 / 8796093022208)"
  using rd_eval_pos [where n = 7 and x = "- (11864170268354151 / 70368744177664)"]
  by (simp add: rne_def Let_def)

lemma rd_tie_30: "rd (2199352127445291110650482744361 / 77371252455336267181195264) = 1953417096918467 / 68719476736"
  using rd_eval_pos [where n = 14 and x = "2199352127445291110650482744361 / 77371252455336267181195264"]
  by (simp add: rne_def Let_def)

lemma rd_tie_31: "rd (3378384166516163 / 68719476736) = 3378384166516163 / 68719476736"
  using rd_eval_pos [where n = 15 and x = "3378384166516163 / 68719476736"]
  by (simp add: rne_def Let_def)

lemma rd_tie_32: "rd (15319237124570481 / 137438953472) = 957452320285655 / 8589934592"
  using rd_eval_pos [where n = 16 and x = "15319237124570481 / 137438953472"]
  by (simp add: rne_def Let_def)

lemma rd_tie_33: "rd (2800109769782723 / 68719476736) = 2800109769782723 / 68719476736"
  using rd_eval_pos [where n = 15 and x = "2800109769782723 / 68719476736"]
  by (simp add: rne_def Let_def)

lemma rd_tie_34: "rd (14162688331103601 / 137438953472) = 885168020693975 / 8589934592"
  using rd_eval_pos [where n = 16 and x = "14162688331103601 / 137438953472"]
  by (simp add: rne_def Let_def)

lemma rd_tie_35: "rd (- (189995609279693 / 35184372088832)) = - (189995609279693 / 35184372088832)"
  using rd_eval_pos [where n = 2 and x = "- (189995609279693 / 35184372088832)"]
  by (simp add: rne_def Let_def)

lemma rd_tie_36: "rd (36098331545561764814302174249 / 1237940039285380274899124224) = 4103905160441373 / 140737488355328"
  using rd_eval_pos [where n = 4 and x = "36098331545561764814302174249 / 1237940039285380274899124224"]
  by (simp add: rne_def Let_def)

lemma rd_tie_37: "rd (3973036184769511965 / 140737488355328) = 7759836298377953 / 274877906944"
  using rd_eval_pos [where n = 14 and x = "3973036184769511965 / 140737488355328"]
  by (simp add: rne_def Let_def)

lemma rd_tie_38: "rd (2788730220259426845 / 140737488355328) = 5446738711444193 / 274877906944"
  using rd_eval_pos [where n = 14 and x = "2788730220259426845 / 140737488355328"]
  by (simp add: rne_def Let_def)

lemma rd_tie_39: "rd (6923034678185543197 / 140737488355328) = 3380388026457785 / 68719476736"
  using rd_eval_pos [where n = 15 and x = "6923034678185543197 / 140737488355328"]
  by (simp add: rne_def Let_def)

lemma rd_tie_40: "rd (5738728713675458077 / 140737488355328) = 2802113629724345 / 68719476736"
  using rd_eval_pos [where n = 15 and x = "5738728713675458077 / 140737488355328"]
  by (simp add: rne_def Let_def)


text \<open>
  The sums for the entries 7 and 8, \<open>(192, 192, 192)\<close> and \<open>(128, 128, 128)\<close>, differ in
  the last bit, and their square roots round to the same double.
\<close>

lemma tie_root_7: "rd (sqrt (2305280059260273 / 137438953472)) = 4556766049704373 / 35184372088832"
  using rd_sqrt_eval [where n = 7 and M = 4556766049704373 and S = "2305280059260273 / 137438953472"]
  by (simp add: power2_eq_square)

lemma tie_root_8: "rd (sqrt (4610560118520545 / 274877906944)) = 4556766049704373 / 35184372088832"
  using rd_sqrt_eval [where n = 7 and M = 4556766049704373 and S = "4610560118520545 / 274877906944"]
  by (simp add: power2_eq_square)

lemma tie_distance:
  "fin (sqrt (2305280059260273 / 137438953472)) = Num (4556766049704373 / 35184372088832)"
  "fin (sqrt (4610560118520545 / 274877906944)) = Num (4556766049704373 / 35184372088832)"
  by (simp_all add: fin_def tie_root_7 tie_root_8)

lemma tie_double: "is_double (4556766049704373 / 35184372088832)"
  using rd_is_double [of "sqrt (2305280059260273 / 137438953472)"] by (simp add: tie_root_7)

lemma tie_farther:
  "(4556766049704373 / 35184372088832) * (4556766049704373 / 35184372088832) \<le> y \<Longrightarrow>
   \<not> fin (sqrt y) < Num (4556766049704373 / 35184372088832)"
  "131 * 131 \<le> y \<Longrightarrow> Num (4556766049704373 / 35184372088832) < fin (sqrt y)"
proof -
  show "(4556766049704373 / 35184372088832) * (4556766049704373 / 35184372088832) \<le> y \<Longrightarrow>
   \<not> fin (sqrt y) < Num (4556766049704373 / 35184372088832)"
    by (rule fin_sqrt_ge(1) [OF tie_double]) simp_all
  have "is_double 131" using is_double_nat [of 131] by simp
  then show "131 * 131 \<le> y \<Longrightarrow> Num (4556766049704373 / 35184372088832) < fin (sqrt y)"
    by (rule fin_sqrt_gt) simp_all
qed

text \<open>
  The search returns the index 7: the entry 8 has the same rounded distance and comes
  later, and every other entry is farther. In exact arithmetic the entry 8 is the nearer of
  the two, by less than the rounding.
\<close>

lemma tie_example:
  "findClosestAnsiColor (Num 144) (Num (6079859496950169 / 70368744177664)) (Num (8782019273372467 / 35184372088832))
     ANSI_16_COLORS = 7"
  by (rule findClosest_unique)
     (simp_all add: ANSI_16_COLORS_def color_distance_def fin_num rd_dyadic tie_distance tie_farther
      power2_eq_square
      rd_tie_1 rd_tie_2 rd_tie_3 rd_tie_4 rd_tie_5 rd_tie_6 rd_tie_7 rd_tie_8 rd_tie_9
      rd_tie_10 rd_tie_11 rd_tie_12 rd_tie_13 rd_tie_14 rd_tie_15 rd_tie_16 rd_tie_17
      rd_tie_18 rd_tie_19 rd_tie_20 rd_tie_21 rd_tie_22 rd_tie_23 rd_tie_24 rd_tie_25
      rd_tie_26 rd_tie_27 rd_tie_28 rd_tie_29 rd_tie_30 rd_tie_31 rd_tie_32 rd_tie_33
      rd_tie_34 rd_tie_35 rd_tie_36 rd_tie_37 rd_tie_38 rd_tie_39 rd_tie_40)


text \<open>
  The colour \<open>(149.33333333333331, 0, 234.66666666666666)\<close>, which the coloured path makes
  of the pixel \<open>(7, 0, 11)\<close> at contrast 1 and brightness 61: the sum of its channels rounds
  to 384 and its mean to 128.
\<close>

lemma rd_mean_1: "rd (2627099782632789 / 17592186044416) = 2627099782632789 / 17592186044416"
  using rd_eval_pos [where n = 7 and x = "2627099782632789 / 17592186044416"]
  by (simp add: rne_def Let_def)

lemma rd_mean_2: "rd (13510798882111487 / 35184372088832) = 384"
  using rd_eval_pos [where n = 8 and x = "13510798882111487 / 35184372088832"]
  by (simp add: rne_def Let_def)

lemma mean_example:
  "\<not> (Num (2627099782632789 / 17592186044416) + Num 0 + Num (8256599316845909 / 35184372088832)) / Num 3
       < Num 128"
  by (simp add: fin_num rd_dyadic rd_mean_1 rd_mean_2)

text \<open>
  C7, as stated: the selected index minimises the Euclidean distance to the colour, and a
  pixel whose mean is below 128 gives the dark cell. The program compares the distances and
  the mean that it computes in doubles. For the colour \<open>(144, 86.39999999999999, 249.6)\<close> and
  the palette of 16 colours the entry 8 is strictly nearer than the entry 7, the two
  computed distances are the same double, and the index is 7. For the colour
  \<open>(149.33333333333331, 0, 234.66666666666666)\<close> the mean is below 128, the computed mean is
  128, and the cell is the bright one, without a background.
\<close>

theorem nearest_colour_is_rounded:
  "findClosestAnsiColor (Num 144) (Num (6079859496950169 / 70368744177664))
     (Num (8782019273372467 / 35184372088832)) ANSI_16_COLORS = 7
   \<and> euclid 144 (6079859496950169 / 70368744177664) (8782019273372467 / 35184372088832)
       (ANSI_16_COLORS ! 8)
     < euclid 144 (6079859496950169 / 70368744177664) (8782019273372467 / 35184372088832)
         (ANSI_16_COLORS ! 7)
   \<and> ((2627099782632789 / 17592186044416) + 0 + (8256599316845909 / 35184372088832)) / 3
     < (128::real)
   \<and> map_sum id bgColor
       (rgbToAnsiPixel (Num (2627099782632789 / 17592186044416)) (Num 0)
          (Num (8256599316845909 / 35184372088832))
          (Str [32, 46, 58, 45, 61, 43, 42, 35, 37, 64]) True (Some ''ansi-16'') False)
     = Inr None"
proof (intro conjI)
  show "findClosestAnsiColor (Num 144) (Num (6079859496950169 / 70368744177664))
          (Num (8782019273372467 / 35184372088832)) ANSI_16_COLORS = 7"
    by (rule tie_example)
  show "euclid 144 (6079859496950169 / 70368744177664) (8782019273372467 / 35184372088832)
          (ANSI_16_COLORS ! 8)
        < euclid 144 (6079859496950169 / 70368744177664) (8782019273372467 / 35184372088832)
          (ANSI_16_COLORS ! 7)"
    by (simp add: euclid_def ANSI_16_COLORS_def power2_eq_square)
  show "((2627099782632789 / 17592186044416) + 0 + (8256599316845909 / 35184372088832)) / 3
        < (128::real)"
    by simp
  show "map_sum id bgColor
       (rgbToAnsiPixel (Num (2627099782632789 / 17592186044416)) (Num 0)
          (Num (8256599316845909 / 35184372088832))
          (Str [32, 46, 58, 45, 61, 43, 42, 35, 37, 64]) True (Some ''ansi-16'') False)
     = Inr None"
    unfolding rgbToAnsiPixel_def brightnessToAscii_def Let_def
    using mean_example by (simp del: plus_jsnum.simps divide_jsnum.simps)
qed

text \<open>
  C7, amended: for every colour \<open>(r, g, b)\<close> and every palette that is not empty (the two
  palettes of the program are not), the index that \<open>findClosestAnsiColor\<close> returns is inside
  the palette, no entry has a smaller distance to the colour than its entry, and every
  entry before it has a strictly greater one (the lowest index wins a tie). The distance is
  the Euclidean distance as the program computes it, \<open>sqrt((r - pr)\<^sup>2 + (g - pg)\<^sup>2 + (b - pb)\<^sup>2)\<close>
  with each difference, square and sum and the root rounded to a double (function
  \<open>color_distance\<close>), and the mean is \<open>(r + g + b) / 3\<close> with both sums and the quotient
  rounded. With colours
  on, \<open>rgbToAnsiPixel\<close> returns, for a pixel whose mean is below 128, the foreground 0, the
  matched index as background and the glyph space (32) when the character of the ramp is the
  space and the block 9619 otherwise; for a mean of 128 or more, the character of the ramp,
  the matched index as foreground and no background. For the colour \<open>(255, 0, 0)\<close> and the
  palette of 16 colours the index is 9, the entry \<open>(255, 0, 0)\<close>, at distance 0.
\<close>

theorem nearest_colour_cell:
  fixes r g b :: real
  shows
  "(palette \<noteq> [] \<longrightarrow>
      findClosestAnsiColor (Num r) (Num g) (Num b) palette < length palette
      \<and> (\<forall>j<length palette.
            \<not> color_distance (Num r) (Num g) (Num b) (palette ! j)
              < color_distance (Num r) (Num g) (Num b)
                  (palette ! findClosestAnsiColor (Num r) (Num g) (Num b) palette))
      \<and> (\<forall>j. j < findClosestAnsiColor (Num r) (Num g) (Num b) palette \<longrightarrow>
            color_distance (Num r) (Num g) (Num b)
              (palette ! findClosestAnsiColor (Num r) (Num g) (Num b) palette)
            < color_distance (Num r) (Num g) (Num b) (palette ! j)))
   \<and> ANSI_16_COLORS \<noteq> [] \<and> generateAnsi256Palette \<noteq> []
   \<and> (\<exists>ch. brightnessToAscii (getPixelBrightness (Num r) (Num g) (Num b)) (Str ramp) iv = Inr ch
        \<and> rgbToAnsiPixel (Num r) (Num g) (Num b) (Str ramp) True pname iv
            = Inr (if (Num r + Num g + Num b) / Num 3 < Num 128
                   then \<lparr>char = (if ch = Some 32 then Some 32 else Some 9619),
                         fgColor = Some 0,
                         bgColor = Some (findClosestAnsiColor (Num r) (Num g) (Num b)
                           (if pname = None \<or> pname = Some ''ansi-16''
                            then ANSI_16_COLORS else generateAnsi256Palette)),
                         rgb = Some (Num r, Num g, Num b)\<rparr>
                   else \<lparr>char = ch,
                         fgColor = Some (findClosestAnsiColor (Num r) (Num g) (Num b)
                           (if pname = None \<or> pname = Some ''ansi-16''
                            then ANSI_16_COLORS else generateAnsi256Palette)),
                         bgColor = None,
                         rgb = Some (Num r, Num g, Num b)\<rparr>))
   \<and> findClosestAnsiColor (Num 255) (Num 0) (Num 0) ANSI_16_COLORS = 9
   \<and> ANSI_16_COLORS ! 9 = (255, 0, 0)
   \<and> color_distance (Num 255) (Num 0) (Num 0) (ANSI_16_COLORS ! 9) = Num 0"
proof (intro conjI impI)
  obtain ch where ch: "brightnessToAscii (getPixelBrightness (Num r) (Num g) (Num b)) (Str ramp) iv = Inr ch"
    using brightnessToAscii_Str by blast
  show "\<exists>ch. brightnessToAscii (getPixelBrightness (Num r) (Num g) (Num b)) (Str ramp) iv = Inr ch
        \<and> rgbToAnsiPixel (Num r) (Num g) (Num b) (Str ramp) True pname iv
            = Inr (if (Num r + Num g + Num b) / Num 3 < Num 128
                   then \<lparr>char = (if ch = Some 32 then Some 32 else Some 9619),
                         fgColor = Some 0,
                         bgColor = Some (findClosestAnsiColor (Num r) (Num g) (Num b)
                           (if pname = None \<or> pname = Some ''ansi-16''
                            then ANSI_16_COLORS else generateAnsi256Palette)),
                         rgb = Some (Num r, Num g, Num b)\<rparr>
                   else \<lparr>char = ch,
                         fgColor = Some (findClosestAnsiColor (Num r) (Num g) (Num b)
                           (if pname = None \<or> pname = Some ''ansi-16''
                            then ANSI_16_COLORS else generateAnsi256Palette)),
                         bgColor = None,
                         rgb = Some (Num r, Num g, Num b)\<rparr>)"
    by (rule exI [of _ ch]) (cases pname; simp add: ch rgbToAnsiPixel_def Let_def)
  show "ANSI_16_COLORS ! 9 = (255, 0, 0)" "ANSI_16_COLORS \<noteq> []" "generateAnsi256Palette \<noteq> []"
    by (simp_all add: ANSI_16_COLORS_def generateAnsi256Palette_def)
qed (simp_all add: findClosest_min red16 red_distance)

text \<open>
  Example: the red \<open>(255, 0, 0)\<close> with the palette of 16 colours and the ramp of ten
  characters. Its mean is 85, its luminance 76 and the character of the ramp a colon, so
  the cell is the block 9619 in black on the background 9.
\<close>

theorem nearest_colour_cell_witness:
  "ANSI_16_COLORS \<noteq> []
   \<and> findClosestAnsiColor (Num 255) (Num 0) (Num 0) ANSI_16_COLORS < length ANSI_16_COLORS
   \<and> \<not> color_distance (Num 255) (Num 0) (Num 0) (ANSI_16_COLORS ! 1)
       < color_distance (Num 255) (Num 0) (Num 0)
           (ANSI_16_COLORS ! findClosestAnsiColor (Num 255) (Num 0) (Num 0) ANSI_16_COLORS)
   \<and> rgbToAnsiPixel (Num 255) (Num 0) (Num 0) (Str [32, 46, 58, 45, 61, 43, 42, 35, 37, 64]) True
         (Some ''ansi-16'') False
       = Inr \<lparr>char = Some 9619, fgColor = Some 0, bgColor = Some 9,
               rgb = Some (Num 255, Num 0, Num 0)\<rparr>"
proof -
  have len: "1 < length ANSI_16_COLORS"
    by (simp add: ANSI_16_COLORS_def)
  have mean: "(Num 255 + Num 0 + Num 0) / Num 3 < Num 128"
    by (simp add: fin_num rd_dyadic)
  show ?thesis
    using nearest_colour_cell [of ANSI_16_COLORS 255 0 0 "[32, 46, 58, 45, 61, 43, 42, 35, 37, 64]"
        False "Some ''ansi-16''"] len mean red_character
    by auto
qed

end
